(* ===== verification/Prelude.thy ===== *)
theory Prelude
  imports Main "HOL-Library.Word" "HOL-Library.Log_Nat"
begin

text \<open>
  What every theory of the development shares: the Go types of the bridge as HOL types,
  the way a Go call ends (a value, a returned error or a panic), the dynamic values that
  an \<^verbatim>\<open>interface{}\<close> can hold, and the list facts the byte-array code needs.

  Strings are lists of bytes (\<^typ>\<open>string\<close>), as Go's are. A \<^verbatim>\<open>[]byte\<close> is a list of 8-bit
  words; where the source distinguishes the nil slice from the empty one the model takes an
  \<open>option\<close>. Sized integers keep their width: \<^verbatim>\<open>int32\<close> is \<^typ>\<open>32 word\<close> and so on, read with
  \<open>sint\<close>; \<^verbatim>\<open>int\<close> is 64 bits wide.
\<close>

section \<open>Types\<close>

type_synonym byte = "8 word"
type_synonym bytes = "byte list"
type_synonym i8 = "8 word"
type_synonym i16 = "16 word"
type_synonym i32 = "32 word"
type_synonym i64 = "64 word"

text \<open>
  An error value: one built by \<^verbatim>\<open>fmt.Errorf\<close> (with its text), or one that a library returned:
  an IBM MQ return code (completion and reason code) or some other library's error.
\<close>

datatype go_error =
    Errorf string
  | MQReturn (MQCC: i32) (MQRC: i32)
  | LibError string

text \<open>How a Go function that returns a value and an error can end.\<close>

datatype 'a outcome = Ok 'a | Err go_error | Panic

primrec outcome_bind :: "'a outcome \<Rightarrow> ('a \<Rightarrow> 'b outcome) \<Rightarrow> 'b outcome" where
  "outcome_bind (Ok x) f = f x"
| "outcome_bind (Err e) f = Err e"
| "outcome_bind Panic f = Panic"

lemma outcome_bind_eq_Ok [simp]:
  "outcome_bind r f = Ok y \<longleftrightarrow> (\<exists>x. r = Ok x \<and> f x = Ok y)"
  by (cases r) auto

lemma outcome_bind_eq_Panic:
  "outcome_bind r f = Panic \<longleftrightarrow> r = Panic \<or> (\<exists>x. r = Ok x \<and> f x = Panic)"
  by (cases r) auto

text \<open>
  \<open>or_return\<close> is the idiom \<^verbatim>\<open>x, err := f(); if err != nil { return err }\<close> on a state: go on with the
  value, or stop with the error and the state reached so far.
\<close>

fun or_return :: "'x outcome \<times> 's \<Rightarrow> ('x \<Rightarrow> 's \<Rightarrow> 'r outcome \<times> 's) \<Rightarrow> 'r outcome \<times> 's" where
  "or_return (Ok x, s) k = k x s"
| "or_return (Err e, s) k = (Err e, s)"
| "or_return (Panic, s) k = (Panic, s)"

lemma or_return_eq_Ok:
  "or_return r k = (Ok y, t) \<longleftrightarrow> (\<exists>x s. r = (Ok x, s) \<and> k x s = (Ok y, t))"
  by (cases "(r, k)" rule: or_return.cases) auto

lemma or_return_cases:
  assumes "or_return p k = (y, t)"
  obtains (go) x s where "p = (Ok x, s)" "k x s = (y, t)"
  | (stop) r where "p = (r, t)" "\<And>x. y \<noteq> Ok x"
  using assms by (cases "(p, k)" rule: or_return.cases) auto

lemma map_prod_id_eq: "map_prod id C p = (r, x) \<longleftrightarrow> (\<exists>y. p = (r, y) \<and> x = C y)"
  by (cases p) auto

section \<open>Collections of rewrite rules\<close>

named_theorems conv_simps \<open>equations of the message conversions\<close>
named_theorems connector_defs \<open>the operations of the connectors\<close>
named_theorems bridge_defs \<open>the operations of the bridge server\<close>

section \<open>Trimming and padding byte arrays\<close>

text \<open>\<open>trim_zero\<close> is \<^verbatim>\<open>bytes.Trim(data, "\x00")\<close>: zero bytes are cut off both ends.\<close>

definition trim_zero :: "bytes \<Rightarrow> bytes" where
  "trim_zero xs = rev (dropWhile ((=) 0) (rev (dropWhile ((=) 0) xs)))"

lemma trim_zero_Nil [simp]: "trim_zero [] = []"
  by (simp add: trim_zero_def)

lemma trim_zero_eq_Nil_iff: "trim_zero xs = [] \<longleftrightarrow> (\<forall>x\<in>set xs. x = 0)"
  unfolding trim_zero_def
  by (metis (mono_tags, lifting) dropWhile_eq_Nil_conv dropWhile_idem rev_is_Nil_conv set_dropWhileD
      set_rev)

lemma length_trim_zero: "length (trim_zero xs) \<le> length xs"
  unfolding trim_zero_def
  by (metis length_dropWhile_le length_rev order_trans)

text \<open>Cutting the trailing zeros and padding them back restores the array.\<close>

lemma rev_dropWhile_pad:
  "rev (dropWhile ((=) 0) (rev xs))
     @ replicate (length xs - length (dropWhile ((=) 0) (rev xs))) 0 = (xs :: bytes)"
proof -
  let ?t = "takeWhile ((=) 0) (rev xs)" and ?d = "dropWhile ((=) 0) (rev xs)"
  have split: "rev xs = ?t @ ?d" by simp
  have zeros: "?t = replicate (length ?t) 0"
    by (metis (mono_tags, lifting) replicate_eqI set_takeWhileD)
  have len: "length xs - length ?d = length ?t"
    by (metis add_diff_cancel_right' length_append length_rev split)
  have "xs = rev ?d @ rev ?t" by (metis rev_append rev_rev_ident split)
  then show ?thesis using zeros len by (metis rev_replicate)
qed

lemma trim_zero_no_leading:
  "xs \<noteq> [] \<Longrightarrow> hd xs \<noteq> 0 \<Longrightarrow> trim_zero xs = rev (dropWhile ((=) 0) (rev xs))"
  by (cases xs) (auto simp: trim_zero_def)

lemma hd_trim_zero: "trim_zero xs \<noteq> [] \<Longrightarrow> hd (trim_zero xs) \<noteq> 0"
proof -
  assume ne: "trim_zero xs \<noteq> []"
  let ?d = "dropWhile ((=) 0) xs"
  from ne have d: "?d \<noteq> []" by (metis dropWhile.simps(1) rev.simps(1) trim_zero_def)
  then have hd: "hd ?d \<noteq> 0" by (metis hd_dropWhile)
  have "?d = trim_zero xs @ replicate (length ?d - length (dropWhile ((=) 0) (rev ?d))) 0"
    using rev_dropWhile_pad [of ?d] by (simp add: trim_zero_def)
  then show ?thesis using hd ne by (metis hd_append2)
qed

section \<open>Tables\<close>

lemma map_of_tabulate: "map_of (map (\<lambda>n. (n, g n)) ns) x = (if x \<in> set ns then Some (g x) else None)"
  by (induction ns) auto

end
