(* ===== verification/Go_Float.thy ===== *)
theory Go_Float
  imports Prelude
begin

text \<open>
  Go's \<^verbatim>\<open>float32\<close> and \<^verbatim>\<open>float64\<close>. A finite float is the rational it stands for; every operation
  computes the exact rational and rounds it to the nearest representable one, ties to even
  (IEEE 754, which the Go specification prescribes). \<open>fround p emin\<close> is that rounding
  for a significand of \<open>p\<close> bits and a least exponent \<open>emin\<close>; \<open>f64\<close> and \<open>f32\<close> are
  its two instances. The overflow to an infinity is part of the conversion \<open>to_float32\<close>,
  the only conversion the bridge makes that can overflow; in the histogram all values are
  durations and counts far below the largest double.

  The locale \<open>rounding\<close> is the contract the statistics rely on: rounding is monotone and
  leaves the integers below \<open>2 ^ 53\<close> and their products with powers of two alone.
\<close>

section \<open>The binary logarithm and rounding to an integer\<close>

definition ilog2 :: "rat \<Rightarrow> int" where
  "ilog2 x =
     (if 1 \<le> x then int (floorlog 2 (nat \<lfloor>x\<rfloor>)) - 1
      else - int (floorlog 2 (nat (\<lceil>1 / x\<rceil> - 1))))"

definition rnd_even :: "rat \<Rightarrow> int" where
  "rnd_even r =
     (let f = \<lfloor>r\<rfloor>; d = r - of_int f
      in if d < 1 / 2 then f else if 1 / 2 < d then f + 1 else if even f then f else f + 1)"

definition ulp_exp :: "int \<Rightarrow> int \<Rightarrow> rat \<Rightarrow> int" where
  "ulp_exp p emin x = max (ilog2 \<bar>x\<bar> - (p - 1)) emin"

definition fround :: "int \<Rightarrow> int \<Rightarrow> rat \<Rightarrow> rat" where
  "fround p emin x =
     (if x = 0 then 0
      else let q = 2 powi ulp_exp p emin x in of_int (rnd_even (x / q)) * q)"

definition f64 :: "rat \<Rightarrow> rat" where
  "f64 = fround 53 (-1074)"

definition f32 :: "rat \<Rightarrow> rat" where
  "f32 = fround 24 (-149)"

text \<open>The float values that an \<^verbatim>\<open>interface{}\<close> can carry; a NaN's payload is not modelled.\<close>

datatype gfloat = NaN | Inf bool | NegZero | Fin rat

text \<open>The conversions \<^verbatim>\<open>float64(v)\<close> of a \<^verbatim>\<open>float32\<close> (exact) and \<^verbatim>\<open>float32(v)\<close> of a \<^verbatim>\<open>float64\<close>.\<close>

definition to_float64 :: "gfloat \<Rightarrow> gfloat" where
  "to_float64 v = v"

fun to_float32 :: "gfloat \<Rightarrow> gfloat" where
  "to_float32 (Fin x) =
     (let y = f32 x
      in if 2 ^ 128 \<le> \<bar>y\<bar> then Inf (x < 0)
         else if y = 0 \<and> x < 0 then NegZero
         else Fin y)"
| "to_float32 v = v"

definition is_float32 :: "gfloat \<Rightarrow> bool" where
  "is_float32 v \<longleftrightarrow> to_float32 v = v"

section \<open>Facts about the rounding\<close>

lemma ilog2_bounds:
  assumes "0 < x"
  shows "2 powi ilog2 x \<le> x \<and> x < 2 powi (ilog2 x + 1)"
proof (cases "1 \<le> x")
  case True
  define n where "n = nat \<lfloor>x\<rfloor>"
  define k where "k = floorlog 2 n"
  have n: "0 < n" "of_nat n \<le> x" "x < of_nat n + 1"
    using True by (auto simp: n_def) linarith
  have b: "2 ^ (k - 1) \<le> n" "n < 2 ^ k"
    using floorlog_bounds [of n 2] n(1) by (auto simp: k_def)
  have "k \<noteq> 0" using n(1) by (auto simp: k_def floorlog_eq_zero_iff)
  then have k: "ilog2 x = int (k - 1)" "ilog2 x + 1 = int k"
    using True by (auto simp: ilog2_def n_def k_def)
  have "(2 :: rat) ^ (k - 1) \<le> of_nat n"
    using b(1) by (metis of_nat_le_iff of_nat_numeral of_nat_power)
  moreover have "of_nat n + 1 \<le> (2 :: rat) ^ k"
    using b(2) by (metis Suc_eq_plus1 Suc_leI of_nat_Suc add.commute of_nat_le_iff of_nat_numeral
        of_nat_power)
  ultimately show ?thesis
    unfolding k(2) unfolding k(1) power_int_of_nat using n(2,3) by linarith
next
  case False
  define m where "m = nat (\<lceil>1 / x\<rceil> - 1)"
  define k where "k = floorlog 2 m"
  have "1 < 1 / x" using False assms by simp
  then have m: "0 < m" "of_nat m < 1 / x" "1 / x \<le> of_nat m + 1"
    by (auto simp: m_def) linarith+
  have b: "2 ^ (k - 1) \<le> m" "m < 2 ^ k"
    using floorlog_bounds [of m 2] m(1) by (auto simp: k_def)
  have "k \<noteq> 0" using m(1) by (auto simp: k_def floorlog_eq_zero_iff)
  then have k: "ilog2 x = - int k" "ilog2 x + 1 = - int (k - 1)"
    using False by (auto simp: ilog2_def m_def k_def)
  have "of_nat m + 1 \<le> (2 :: rat) ^ k"
    using b(2) by (metis Suc_eq_plus1 Suc_leI of_nat_Suc add.commute of_nat_le_iff of_nat_numeral
        of_nat_power)
  then have "1 / x \<le> 2 ^ k" using m(3) by simp
  then have 1: "inverse (2 ^ k) \<le> x" using assms by (simp add: field_simps)
  have "(2 :: rat) ^ (k - 1) \<le> of_nat m"
    using b(1) by (metis of_nat_le_iff of_nat_numeral of_nat_power)
  then have "2 ^ (k - 1) < 1 / x" using m(2) by (rule order_le_less_trans)
  then have 2: "x < inverse (2 ^ (k - 1))" using assms by (simp add: field_simps)
  show ?thesis
    unfolding k(2) unfolding k(1) power_int_minus power_int_of_nat using 1 2 by simp
qed

lemma powi2_le_iff: "(2 :: rat) powi a \<le> 2 powi b \<longleftrightarrow> a \<le> b"
  using power_int_strict_increasing [of b a "2 :: rat"] power_int_increasing [of a b "2 :: rat"]
  by fastforce

lemma powi2_less_iff: "(2 :: rat) powi a < 2 powi b \<longleftrightarrow> a < b"
  by (meson not_le powi2_le_iff)

lemma ilog2_less: "0 < x \<Longrightarrow> x < 2 powi e \<Longrightarrow> ilog2 x < e"
  using ilog2_bounds [of x] powi2_less_iff by (metis order_le_less_trans)

lemma ilog2_mono: "0 < x \<Longrightarrow> x \<le> y \<Longrightarrow> ilog2 x \<le> ilog2 y"
  using ilog2_bounds [of y] ilog2_less [of x "ilog2 y + 1"] by force

lemma rnd_even_of_int [simp]: "rnd_even (of_int n) = n"
  by (simp add: rnd_even_def)

lemma rnd_even_floor: "\<lfloor>r\<rfloor> \<le> rnd_even r \<and> rnd_even r \<le> \<lfloor>r\<rfloor> + 1"
  by (simp add: rnd_even_def Let_def)

lemma rnd_even_mono: "r \<le> s \<Longrightarrow> rnd_even r \<le> rnd_even s"
proof (cases "\<lfloor>r\<rfloor> = \<lfloor>s\<rfloor>")
  case True
  then show "r \<le> s \<Longrightarrow> rnd_even r \<le> rnd_even s"
    by (auto simp: rnd_even_def Let_def)
next
  case False
  assume "r \<le> s"
  with False have "\<lfloor>r\<rfloor> + 1 \<le> \<lfloor>s\<rfloor>" by (metis floor_mono less_le zless_imp_add1_zle)
  then show ?thesis using rnd_even_floor [of r] rnd_even_floor [of s] by linarith
qed

lemma rnd_even_le: "r \<le> of_int n \<Longrightarrow> rnd_even r \<le> n"
  using rnd_even_mono [of r "of_int n"] by simp

lemma rnd_even_ge: "of_int n \<le> r \<Longrightarrow> n \<le> rnd_even r"
  using rnd_even_mono [of "of_int n" r] by simp

lemma rnd_even_minus: "rnd_even (- r) = - rnd_even r"
proof (cases "r = of_int \<lfloor>r\<rfloor>")
  case True
  then show ?thesis by (metis of_int_minus rnd_even_of_int)
next
  case False
  then have "\<lfloor>- r\<rfloor> = - \<lfloor>r\<rfloor> - 1" by linarith
  then show ?thesis using False by (auto simp: rnd_even_def Let_def)
qed

lemma ulp_exp_minus [simp]: "ulp_exp p emin (- x) = ulp_exp p emin x"
  by (simp add: ulp_exp_def)

lemma fround_0 [simp]: "fround p emin 0 = 0"
  by (simp add: fround_def)

lemma fround_minus: "fround p emin (- x) = - fround p emin x"
  by (auto simp: fround_def Let_def rnd_even_minus simp flip: minus_divide_left)

text \<open>A power of two that is not below the spacing of the floats is a multiple of it.\<close>

lemma powi2_multiple: "a \<le> b \<Longrightarrow> \<exists>n. (2 :: rat) powi b / 2 powi a = of_int n"
proof -
  assume "a \<le> b"
  then have "(2 :: rat) powi b / 2 powi a = of_int (2 ^ nat (b - a))"
    by (simp add: power_int_diff [symmetric] power_int_nonneg_exp)
  then show ?thesis by blast
qed

lemma fround_le:
  assumes "0 < x" "x \<le> of_int m * 2 powi e" "ulp_exp p emin x \<le> e"
  shows "fround p emin x \<le> of_int m * 2 powi e"
proof -
  let ?q = "2 powi ulp_exp p emin x :: rat"
  obtain n where n: "2 powi e / ?q = of_int n" using powi2_multiple assms(3) by blast
  have "x / ?q \<le> of_int (m * n)"
    using assms(2) by (simp add: n [symmetric] divide_right_mono)
  then have "rnd_even (x / ?q) \<le> m * n" by (rule rnd_even_le)
  then have "of_int (rnd_even (x / ?q)) * ?q \<le> of_int (m * n) * ?q"
    by (intro mult_right_mono) (simp_all only: of_int_le_iff, simp)
  also have "\<dots> = of_int m * 2 powi e" by (simp add: n [symmetric])
  finally show ?thesis using assms(1) by (simp add: fround_def Let_def)
qed

lemma fround_ge:
  assumes "0 < x" "of_int m * 2 powi e \<le> x" "ulp_exp p emin x \<le> e"
  shows "of_int m * 2 powi e \<le> fround p emin x"
proof -
  let ?q = "2 powi ulp_exp p emin x :: rat"
  obtain n where n: "2 powi e / ?q = of_int n" using powi2_multiple assms(3) by blast
  have "of_int (m * n) \<le> x / ?q"
    using assms(2) by (simp add: n [symmetric] divide_right_mono)
  then have "m * n \<le> rnd_even (x / ?q)" by (rule rnd_even_ge)
  then have "of_int (m * n) * ?q \<le> of_int (rnd_even (x / ?q)) * ?q"
    by (intro mult_right_mono) (simp_all only: of_int_le_iff, simp)
  moreover have "of_int (m * n) * ?q = of_int m * 2 powi e" by (simp add: n [symmetric])
  ultimately show ?thesis using assms(1) by (simp only: fround_def Let_def) simp
qed

lemma fround_mono_pos:
  assumes "0 < x" "x \<le> y" "1 \<le> p"
  shows "fround p emin x \<le> fround p emin y"
proof (cases "ulp_exp p emin x = ulp_exp p emin y")
  case True
  let ?q = "2 powi ulp_exp p emin x :: rat"
  have "rnd_even (x / ?q) \<le> rnd_even (y / ?q)"
    by (intro rnd_even_mono divide_right_mono) (use assms in auto)
  then have "of_int (rnd_even (x / ?q)) * ?q \<le> of_int (rnd_even (y / ?q)) * ?q"
    by (intro mult_right_mono) (simp_all only: of_int_le_iff, simp)
  then show ?thesis using True assms by (simp add: fround_def Let_def)
next
  case False
  have "ilog2 x \<le> ilog2 y" using assms ilog2_mono by blast
  then have less: "ilog2 x < ilog2 y" "ulp_exp p emin x \<le> ilog2 y" "ulp_exp p emin y \<le> ilog2 y"
    using False assms by (auto simp: ulp_exp_def)
  have "x < 2 powi (ilog2 x + 1)" using ilog2_bounds assms by simp
  also have "\<dots> \<le> 2 powi ilog2 y" using less(1) by (simp only: powi2_le_iff)
  finally have "fround p emin x \<le> 2 powi ilog2 y"
    using fround_le [of x 1 "ilog2 y"] assms(1) less(2) by simp
  also have "\<dots> \<le> fround p emin y"
    using fround_ge [of y 1 "ilog2 y"] ilog2_bounds [of y] assms(1,2) less(3) by simp
  finally show ?thesis .
qed

lemma fround_pos: "0 \<le> x \<Longrightarrow> 0 \<le> fround p emin x"
  by (cases "x = 0") (auto simp: fround_def Let_def intro!: mult_nonneg_nonneg rnd_even_ge)

lemma fround_mono: "1 \<le> p \<Longrightarrow> x \<le> y \<Longrightarrow> fround p emin x \<le> fround p emin y"
proof -
  assume p: "1 \<le> p" and le: "x \<le> y"
  consider "0 < x" | "x \<le> 0" "0 \<le> y" | "y < 0" by linarith
  then show ?thesis
  proof cases
    case 1
    then show ?thesis using fround_mono_pos p le by blast
  next
    case 2
    then show ?thesis
      using fround_pos [of "- x" p emin] fround_pos [of y p emin] by (simp add: fround_minus)
  next
    case 3
    then show ?thesis
      using fround_mono_pos [of "- y" "- x" p emin] p le by (simp add: fround_minus)
  qed
qed

text \<open>A number that fits the format is not changed by rounding.\<close>

lemma fround_exact:
  assumes "\<bar>m\<bar> < 2 ^ nat p" "0 \<le> p" "emin \<le> e"
  shows "fround p emin (of_int m * 2 powi e) = of_int m * 2 powi e"
proof (cases "m = 0")
  case False
  let ?x = "of_int m * 2 powi e :: rat"
  have "\<bar>of_int m\<bar> < (2 :: rat) ^ nat p"
    using assms(1) by (metis of_int_abs of_int_less_iff of_int_numeral of_int_power)
  then have "\<bar>?x\<bar> < 2 powi (p + e)"
    using assms(2) by (simp add: abs_mult power_int_add power_int_nonneg_exp)
  then have "ilog2 \<bar>?x\<bar> < p + e" using ilog2_less [of "\<bar>?x\<bar>"] False by simp
  then have "ulp_exp p emin ?x \<le> e" using assms(3) by (simp add: ulp_exp_def)
  then obtain n where n: "2 powi e / 2 powi ulp_exp p emin ?x = (of_int n :: rat)"
    using powi2_multiple by blast
  have "?x / 2 powi ulp_exp p emin ?x = of_int (m * n)"
    by (simp add: n [symmetric])
  then have "rnd_even (?x / 2 powi ulp_exp p emin ?x) = m * n" by (metis rnd_even_of_int)
  then have "fround p emin ?x = of_int (m * n) * 2 powi ulp_exp p emin ?x"
    using False by (simp add: fround_def Let_def)
  then show ?thesis by (simp add: n [symmetric])
qed simp

section \<open>The contract of rounded arithmetic\<close>

locale rounding =
  fixes fl :: "rat \<Rightarrow> rat"
  assumes fl_mono: "x \<le> y \<Longrightarrow> fl x \<le> fl y"
    and fl_exact: "\<bar>n\<bar> < 2 ^ 53 \<Longrightarrow> fl (of_int n * 2 ^ k) = of_int n * 2 ^ k"
begin

lemma fl_int: "\<bar>n\<bar> < 2 ^ 53 \<Longrightarrow> fl (of_int n) = of_int n"
  using fl_exact [of n 0] by simp

lemma fl_0 [simp]: "fl 0 = 0"
  using fl_int [of 0] by simp

lemma fl_1 [simp]: "fl 1 = 1"
  using fl_int [of 1] by simp

lemma fl_nonneg: "0 \<le> x \<Longrightarrow> 0 \<le> fl x"
  using fl_mono [of 0 x] by simp

lemma fl_ge_1: "1 \<le> x \<Longrightarrow> 1 \<le> fl x"
  using fl_mono [of 1 x] by simp

lemma fl_bound: "\<bar>n\<bar> < 2 ^ 53 \<Longrightarrow> \<bar>x\<bar> \<le> of_int n * 2 ^ k \<Longrightarrow> \<bar>fl x\<bar> \<le> of_int n * 2 ^ k"
  using fl_mono [of x "of_int n * 2 ^ k"] fl_mono [of "of_int (- n) * 2 ^ k" x]
    fl_exact [of n k] fl_exact [of "- n" k]
  by (simp add: abs_le_iff)

lemma fl_nat: "n < 2 ^ 53 \<Longrightarrow> fl (of_nat n) = of_nat n"
  using fl_int [of "int n"] by simp

end

interpretation f64: rounding f64
proof
  show "f64 x \<le> f64 y" if "x \<le> y" for x y
    using that by (simp add: f64_def fround_mono)
  show "f64 (of_int n * 2 ^ k) = of_int n * 2 ^ k" if "\<bar>n\<bar> < 2 ^ 53" for n k
    using fround_exact [of n 53 "-1074" "int k"] that by (simp add: f64_def)
qed

text \<open>Exact arithmetic meets the contract too.\<close>

interpretation exact: rounding id
  by unfold_locales auto

lemma f32_exact: "\<bar>m\<bar> < 2 ^ 24 \<Longrightarrow> -149 \<le> e \<Longrightarrow> f32 (of_int m * 2 powi e) = of_int m * 2 powi e"
  using fround_exact [of m 24 "-149" e] by (simp add: f32_def)

end
