(* ===== verification/Message.thy ===== *)
theory Message
  imports Prelude Go_Float
begin

text \<open>
  The package \<^verbatim>\<open>message\<close> (\<^verbatim>\<open>src/message/message.go\<close>): the bridge message that travels on the
  NATS side, its header, its typed properties, and the operations on the properties. The
  msgpack codec is a third-party package and enters as the record \<open>codec\<close>.

  The interface \<open>property_store\<close> states what the conversions of the bridge rely on when they
  fill a message with properties and read them back; it is interpreted on \<open>SetProperty\<close> and
  \<open>GetTypedProperty\<close>.
\<close>

section \<open>Dynamic values\<close>

text \<open>
  What an \<^verbatim>\<open>interface{}\<close> can hold: nil or a value tagged with its dynamic type. \<open>VOther\<close>
  is a value of any type the source does not name, given by the type's name.
\<close>

datatype gvalue =
    VNil
  | VString string
  | VBool bool
  | VInt i64
  | VInt8 i8
  | VInt16 i16
  | VInt32 i32
  | VInt64 i64
  | VUint i64
  | VUint8 byte
  | VUint16 i16
  | VUint32 i32
  | VUint64 i64
  | VFloat32 gfloat
  | VFloat64 gfloat
  | VBytes bytes
  | VOther string

section \<open>Data\<close>

definition PropertyTypeString :: int where "PropertyTypeString = 0"
definition PropertyTypeInt8 :: int where "PropertyTypeInt8 = 1"
definition PropertyTypeInt16 :: int where "PropertyTypeInt16 = 2"
definition PropertyTypeInt32 :: int where "PropertyTypeInt32 = 3"
definition PropertyTypeInt64 :: int where "PropertyTypeInt64 = 4"
definition PropertyTypeFloat32 :: int where "PropertyTypeFloat32 = 5"
definition PropertyTypeFloat64 :: int where "PropertyTypeFloat64 = 6"
definition PropertyTypeBool :: int where "PropertyTypeBool = 7"
definition PropertyTypeBytes :: int where "PropertyTypeBytes = 8"
definition PropertyTypeNull :: int where "PropertyTypeNull = 9"

lemmas property_types = PropertyTypeString_def PropertyTypeInt8_def PropertyTypeInt16_def
  PropertyTypeInt32_def PropertyTypeInt64_def PropertyTypeFloat32_def PropertyTypeFloat64_def
  PropertyTypeBool_def PropertyTypeBytes_def PropertyTypeNull_def

record BridgeHeader =
  hdr_Version :: i32
  hdr_Report :: i32
  hdr_MsgType :: i32
  hdr_Expiry :: i32
  hdr_Feedback :: i32
  hdr_Encoding :: i32
  hdr_CodedCharSetID :: i32
  hdr_Format :: string
  hdr_Priority :: i32
  hdr_Persistence :: i32
  hdr_MsgID :: bytes
  hdr_CorrelID :: bytes
  hdr_BackoutCount :: i32
  hdr_ReplyToQ :: string
  hdr_ReplyToQMgr :: string
  hdr_UserIdentifier :: string
  hdr_AccountingToken :: bytes
  hdr_ApplIdentityData :: string
  hdr_PutApplType :: i32
  hdr_PutApplName :: string
  hdr_PutDate :: string
  hdr_PutTime :: string
  hdr_ApplOriginData :: string
  hdr_GroupID :: bytes
  hdr_MsgSeqNumber :: i32
  hdr_Offset :: i32
  hdr_MsgFlags :: i32
  hdr_OriginalLength :: i32
  hdr_ReplyToChannel :: string

text \<open>The zero value of the header, as Go initialises it.\<close>

definition zero_header :: BridgeHeader where
  "zero_header = \<lparr>
     hdr_Version = 0, hdr_Report = 0, hdr_MsgType = 0, hdr_Expiry = 0, hdr_Feedback = 0,
     hdr_Encoding = 0, hdr_CodedCharSetID = 0, hdr_Format = '''', hdr_Priority = 0,
     hdr_Persistence = 0, hdr_MsgID = [], hdr_CorrelID = [], hdr_BackoutCount = 0,
     hdr_ReplyToQ = '''', hdr_ReplyToQMgr = '''', hdr_UserIdentifier = '''',
     hdr_AccountingToken = [], hdr_ApplIdentityData = '''', hdr_PutApplType = 0,
     hdr_PutApplName = '''', hdr_PutDate = '''', hdr_PutTime = '''', hdr_ApplOriginData = '''',
     hdr_GroupID = [], hdr_MsgSeqNumber = 0, hdr_Offset = 0, hdr_MsgFlags = 0,
     hdr_OriginalLength = 0, hdr_ReplyToChannel = ''''\<rparr>"

record Property =
  prop_Type :: int
  prop_Value :: gvalue

text \<open>A Go map is nil (\<open>None\<close>: reads miss, a write panics) or a finite table.\<close>

type_synonym Properties = "(string \<rightharpoonup> Property) option"

record BridgeMessage =
  msg_Body :: bytes
  msg_Header :: BridgeHeader
  msg_Properties :: Properties

definition NewBridgeMessage :: "bytes \<Rightarrow> BridgeMessage" where
  "NewBridgeMessage body =
     \<lparr>msg_Body = body, msg_Header = zero_header, msg_Properties = Some Map.empty\<rparr>"

text \<open>The msgpack library: \<open>Encoder.Encode\<close> of a message, \<open>Decoder.Decode\<close> into one.\<close>

record codec =
  codec_encode :: "BridgeMessage \<Rightarrow> go_error + bytes"
  codec_decode :: "bytes \<Rightarrow> go_error + BridgeMessage"

definition DecodeBridgeMessage :: "codec \<Rightarrow> bytes option \<Rightarrow> BridgeMessage outcome" where
  "DecodeBridgeMessage c data =
     (case data of
        None \<Rightarrow> Err (Errorf ''attempt to decode bridge message of zero length'')
      | Some d \<Rightarrow> (case codec_decode c d of Inl e \<Rightarrow> Err e | Inr m \<Rightarrow> Ok m))"

definition Encode :: "codec \<Rightarrow> BridgeMessage \<Rightarrow> bytes outcome" where
  "Encode c msg = (case codec_encode c msg of Inl e \<Rightarrow> Err e | Inr b \<Rightarrow> Ok b)"

section \<open>Operations on the properties\<close>

definition prop_lookup :: "BridgeMessage \<Rightarrow> string \<Rightarrow> Property option" where
  "prop_lookup msg name = (case msg_Properties msg of None \<Rightarrow> None | Some f \<Rightarrow> f name)"

text \<open>The assignment \<^verbatim>\<open>msg.Properties[name] = Property{Type: t, Value: v}\<close>.\<close>

definition prop_assign :: "BridgeMessage \<Rightarrow> string \<Rightarrow> int \<Rightarrow> gvalue \<Rightarrow> BridgeMessage outcome" where
  "prop_assign msg name t v =
     (case msg_Properties msg of
        None \<Rightarrow> Panic
      | Some f \<Rightarrow> Ok (msg\<lparr>msg_Properties := Some (f(name \<mapsto> \<lparr>prop_Type = t, prop_Value = v\<rparr>))\<rparr>))"

definition SetProperty :: "BridgeMessage \<Rightarrow> string \<Rightarrow> gvalue \<Rightarrow> BridgeMessage outcome" where
  "SetProperty msg name value =
     (case value of
        VNil \<Rightarrow> prop_assign msg name PropertyTypeNull value
      | VString _ \<Rightarrow> prop_assign msg name PropertyTypeString value
      | VBool _ \<Rightarrow> prop_assign msg name PropertyTypeBool value
      | VInt8 _ \<Rightarrow> prop_assign msg name PropertyTypeInt8 value
      | VUint8 _ \<Rightarrow> prop_assign msg name PropertyTypeInt8 value
      | VInt16 _ \<Rightarrow> prop_assign msg name PropertyTypeInt16 value
      | VInt32 _ \<Rightarrow> prop_assign msg name PropertyTypeInt32 value
      | VInt64 _ \<Rightarrow> prop_assign msg name PropertyTypeInt64 value
      | VUint16 _ \<Rightarrow> prop_assign msg name PropertyTypeInt64 value
      | VUint32 _ \<Rightarrow> prop_assign msg name PropertyTypeInt64 value
      | VUint64 _ \<Rightarrow> prop_assign msg name PropertyTypeInt64 value
      | VInt _ \<Rightarrow> prop_assign msg name PropertyTypeInt64 value
      | VFloat32 _ \<Rightarrow> prop_assign msg name PropertyTypeFloat32 value
      | VFloat64 _ \<Rightarrow> prop_assign msg name PropertyTypeFloat64 value
      | VBytes _ \<Rightarrow> prop_assign msg name PropertyTypeBytes value
      | VUint _ \<Rightarrow> Err (Errorf ''can't set property of type uint'')
      | VOther t \<Rightarrow> Err (Errorf (''can't set property of type '' @ t)))"

definition GetStringProperty :: "BridgeMessage \<Rightarrow> string \<Rightarrow> string \<times> bool" where
  "GetStringProperty msg name =
     (case prop_lookup msg name of
        Some prop \<Rightarrow>
          if prop_Type prop = PropertyTypeString
          then (case prop_Value prop of VString s \<Rightarrow> (s, True) | _ \<Rightarrow> ('''', False))
          else ('''', False)
      | None \<Rightarrow> ('''', False))"

text \<open>
  \<^verbatim>\<open>parseInt\<close>: the signed integer types only; an unsigned value is not recognised. The
  intermediate \<^verbatim>\<open>int\<close> is 64 bits wide.
\<close>

definition parseInt :: "gvalue \<Rightarrow> i64 \<times> bool" where
  "parseInt v =
     (case v of
        VInt i \<Rightarrow> (i, True)
      | VInt8 i \<Rightarrow> (scast i, True)
      | VInt16 i \<Rightarrow> (scast i, True)
      | VInt32 i \<Rightarrow> (scast i, True)
      | VInt64 i \<Rightarrow> (i, True)
      | _ \<Rightarrow> (0, False))"

definition GetInt8Property :: "BridgeMessage \<Rightarrow> string \<Rightarrow> i8 \<times> bool" where
  "GetInt8Property msg name =
     (case prop_lookup msg name of
        Some prop \<Rightarrow>
          if prop_Type prop = PropertyTypeInt8
          then (case parseInt (prop_Value prop) of (i, ok) \<Rightarrow> if ok then (ucast i, True) else (0, False))
          else (0, False)
      | None \<Rightarrow> (0, False))"

definition GetInt16Property :: "BridgeMessage \<Rightarrow> string \<Rightarrow> i16 \<times> bool" where
  "GetInt16Property msg name =
     (case prop_lookup msg name of
        Some prop \<Rightarrow>
          if prop_Type prop = PropertyTypeInt16
          then (case parseInt (prop_Value prop) of (i, ok) \<Rightarrow> if ok then (ucast i, True) else (0, False))
          else (0, False)
      | None \<Rightarrow> (0, False))"

definition GetInt32Property :: "BridgeMessage \<Rightarrow> string \<Rightarrow> i32 \<times> bool" where
  "GetInt32Property msg name =
     (case prop_lookup msg name of
        Some prop \<Rightarrow>
          if prop_Type prop = PropertyTypeInt32
          then (case parseInt (prop_Value prop) of (i, ok) \<Rightarrow> if ok then (ucast i, True) else (0, False))
          else (0, False)
      | None \<Rightarrow> (0, False))"

definition GetInt64Property :: "BridgeMessage \<Rightarrow> string \<Rightarrow> i64 \<times> bool" where
  "GetInt64Property msg name =
     (case prop_lookup msg name of
        Some prop \<Rightarrow>
          if prop_Type prop = PropertyTypeInt64 then parseInt (prop_Value prop) else (0, False)
      | None \<Rightarrow> (0, False))"

definition parseFloat :: "gvalue \<Rightarrow> gfloat \<times> bool" where
  "parseFloat v =
     (case v of
        VFloat32 f \<Rightarrow> (to_float64 f, True)
      | VFloat64 f \<Rightarrow> (f, True)
      | _ \<Rightarrow> (Fin 0, False))"

definition GetFloat32Property :: "BridgeMessage \<Rightarrow> string \<Rightarrow> gfloat \<times> bool" where
  "GetFloat32Property msg name =
     (case prop_lookup msg name of
        Some prop \<Rightarrow>
          if prop_Type prop = PropertyTypeFloat32
          then (case parseFloat (prop_Value prop) of
                  (f, ok) \<Rightarrow> if ok then (to_float32 f, True) else (Fin 0, False))
          else (Fin 0, False)
      | None \<Rightarrow> (Fin 0, False))"

definition GetFloat64Property :: "BridgeMessage \<Rightarrow> string \<Rightarrow> gfloat \<times> bool" where
  "GetFloat64Property msg name =
     (case prop_lookup msg name of
        Some prop \<Rightarrow>
          if prop_Type prop = PropertyTypeFloat64 then parseFloat (prop_Value prop) else (Fin 0, False)
      | None \<Rightarrow> (Fin 0, False))"

text \<open>
  The getters for booleans and byte arrays assert the dynamic type of the value; the assertion
  \<^verbatim>\<open>prop.Value.(bool)\<close> panics when the value is of another type.
\<close>

definition GetBoolProperty :: "BridgeMessage \<Rightarrow> string \<Rightarrow> (bool \<times> bool) outcome" where
  "GetBoolProperty msg name =
     (case prop_lookup msg name of
        Some prop \<Rightarrow>
          if prop_Type prop = PropertyTypeBool
          then (case prop_Value prop of VBool b \<Rightarrow> Ok (b, True) | _ \<Rightarrow> Panic)
          else Ok (False, False)
      | None \<Rightarrow> Ok (False, False))"

definition GetBytesProperty :: "BridgeMessage \<Rightarrow> string \<Rightarrow> (bytes \<times> bool) outcome" where
  "GetBytesProperty msg name =
     (case prop_lookup msg name of
        Some prop \<Rightarrow>
          if prop_Type prop = PropertyTypeBytes
          then (case prop_Value prop of VBytes b \<Rightarrow> Ok (b, True) | _ \<Rightarrow> Panic)
          else Ok ([], False)
      | None \<Rightarrow> Ok ([], False))"

text \<open>\<open>GetTypedProperty\<close> wraps the result of the getter for the stored type in an \<^verbatim>\<open>interface{}\<close>.\<close>

definition GetTypedProperty :: "BridgeMessage \<Rightarrow> string \<Rightarrow> (gvalue \<times> bool) outcome" where
  "GetTypedProperty msg name =
     (case prop_lookup msg name of
        None \<Rightarrow> Ok (VNil, False)
      | Some prop \<Rightarrow>
          (let t = prop_Type prop in
           if t = PropertyTypeBool then
             outcome_bind (GetBoolProperty msg name) (\<lambda>(b, ok). Ok (VBool b, ok))
           else if t = PropertyTypeBytes then
             outcome_bind (GetBytesProperty msg name) (\<lambda>(b, ok). Ok (VBytes b, ok))
           else if t = PropertyTypeInt8 then Ok (map_prod VInt8 id (GetInt8Property msg name))
           else if t = PropertyTypeInt16 then Ok (map_prod VInt16 id (GetInt16Property msg name))
           else if t = PropertyTypeInt32 then Ok (map_prod VInt32 id (GetInt32Property msg name))
           else if t = PropertyTypeInt64 then Ok (map_prod VInt64 id (GetInt64Property msg name))
           else if t = PropertyTypeFloat32 then Ok (map_prod VFloat32 id (GetFloat32Property msg name))
           else if t = PropertyTypeFloat64 then Ok (map_prod VFloat64 id (GetFloat64Property msg name))
           else if t = PropertyTypeString then Ok (map_prod VString id (GetStringProperty msg name))
           else if t = PropertyTypeNull then Ok (VNil, True)
           else Ok (VNil, False)))"

definition HasProperty :: "BridgeMessage \<Rightarrow> string \<Rightarrow> bool" where
  "HasProperty msg name \<longleftrightarrow> prop_lookup msg name \<noteq> None"

definition DeleteProperty :: "BridgeMessage \<Rightarrow> string \<Rightarrow> gvalue \<times> BridgeMessage" where
  "DeleteProperty msg name =
     (let msg' = msg\<lparr>msg_Properties := map_option (\<lambda>f. f(name := None)) (msg_Properties msg)\<rparr>
      in case prop_lookup msg name of
           Some cur \<Rightarrow> (prop_Value cur, msg')
         | None \<Rightarrow> (VNil, msg'))"

section \<open>Facts about the operations\<close>

lemmas getter_defs = GetStringProperty_def GetInt8Property_def GetInt16Property_def
  GetInt32Property_def GetInt64Property_def GetFloat32Property_def GetFloat64Property_def
  GetBoolProperty_def GetBytesProperty_def parseInt_def parseFloat_def to_float64_def

lemma ucast_scast_8 [simp]: "ucast (scast (w :: i8) :: i64) = w"
  by (rule bit_word_eqI) (simp add: bit_simps)

lemma ucast_scast_16 [simp]: "ucast (scast (w :: i16) :: i64) = w"
  by (rule bit_word_eqI) (simp add: bit_simps)

lemma ucast_scast_32 [simp]: "ucast (scast (w :: i32) :: i64) = w"
  by (rule bit_word_eqI) (simp add: bit_simps)

lemma ucast_ucast_8 [simp]: "ucast (ucast (w :: byte) :: i64) = w"
  by (rule bit_word_eqI) (simp add: bit_simps)

lemma prop_lookup_NewBridgeMessage [simp]: "prop_lookup (NewBridgeMessage b) n = None"
  by (simp add: prop_lookup_def NewBridgeMessage_def)

lemma prop_lookup_table:
  "prop_lookup m = (case msg_Properties m of None \<Rightarrow> Map.empty | Some f \<Rightarrow> f)"
  by (auto simp: prop_lookup_def split: option.split)

lemma prop_lookup_header_update [simp]:
  "prop_lookup (m\<lparr>msg_Header := h\<rparr>) n = prop_lookup m n"
  by (simp add: prop_lookup_def)

lemma prop_assign_eq_Ok:
  "prop_assign m n t v = Ok m' \<longleftrightarrow>
     (\<exists>f. msg_Properties m = Some f \<and>
        m' = m\<lparr>msg_Properties := Some (f(n \<mapsto> \<lparr>prop_Type = t, prop_Value = v\<rparr>))\<rparr>)"
  by (auto simp: prop_assign_def split: option.splits)

text \<open>The type tag that \<open>SetProperty\<close> gives a value; \<open>None\<close> for the values it refuses.\<close>

fun tag_of :: "gvalue \<Rightarrow> int option" where
  "tag_of VNil = Some PropertyTypeNull"
| "tag_of (VString _) = Some PropertyTypeString"
| "tag_of (VBool _) = Some PropertyTypeBool"
| "tag_of (VInt8 _) = Some PropertyTypeInt8"
| "tag_of (VUint8 _) = Some PropertyTypeInt8"
| "tag_of (VInt16 _) = Some PropertyTypeInt16"
| "tag_of (VInt32 _) = Some PropertyTypeInt32"
| "tag_of (VInt64 _) = Some PropertyTypeInt64"
| "tag_of (VUint16 _) = Some PropertyTypeInt64"
| "tag_of (VUint32 _) = Some PropertyTypeInt64"
| "tag_of (VUint64 _) = Some PropertyTypeInt64"
| "tag_of (VInt _) = Some PropertyTypeInt64"
| "tag_of (VFloat32 _) = Some PropertyTypeFloat32"
| "tag_of (VFloat64 _) = Some PropertyTypeFloat64"
| "tag_of (VBytes _) = Some PropertyTypeBytes"
| "tag_of (VUint _) = None"
| "tag_of (VOther _) = None"

lemma SetProperty_tag: "tag_of v = Some t \<Longrightarrow> SetProperty m n v = prop_assign m n t v"
  by (cases v) (auto simp: SetProperty_def)

lemma SetProperty_refuse: "tag_of v = None \<Longrightarrow> \<exists>e. SetProperty m n v = Err e"
  by (cases v) (auto simp: SetProperty_def)

lemma SetProperty_eq_Ok:
  "SetProperty m n v = Ok m' \<longleftrightarrow>
     (\<exists>f t. msg_Properties m = Some f \<and> tag_of v = Some t \<and>
        m' = m\<lparr>msg_Properties := Some (f(n \<mapsto> \<lparr>prop_Type = t, prop_Value = v\<rparr>))\<rparr>)"
  by (cases "tag_of v") (use SetProperty_refuse [of v m n] in
      \<open>auto simp: SetProperty_tag prop_assign_eq_Ok\<close>)

lemma SetProperty_eq_Panic:
  "SetProperty m n v = Panic \<longleftrightarrow> msg_Properties m = None \<and> tag_of v \<noteq> None"
  by (cases "tag_of v") (use SetProperty_refuse [of v m n] in
      \<open>auto simp: SetProperty_tag prop_assign_def split: option.splits\<close>)

lemma SetProperty_lookup:
  "SetProperty m n v = Ok m' \<Longrightarrow>
     prop_lookup m' = (prop_lookup m)(n \<mapsto> \<lparr>prop_Type = the (tag_of v), prop_Value = v\<rparr>)"
  by (auto simp: SetProperty_eq_Ok prop_lookup_def)

text \<open>What a getter returns depends on the entry only.\<close>

lemma GetTypedProperty_cong:
  "prop_lookup m n = prop_lookup m' n' \<Longrightarrow> GetTypedProperty m n = GetTypedProperty m' n'"
  by (cases "prop_lookup m' n'") (simp_all add: GetTypedProperty_def getter_defs Let_def)

text \<open>
  The value a reader is meant to see for a value that was set: \<^verbatim>\<open>int\<close> and the unsigned types
  as an \<^verbatim>\<open>int64\<close>, a \<^verbatim>\<open>byte\<close> as an \<^verbatim>\<open>int8\<close>, everything else as it is.
\<close>

fun canonical :: "gvalue \<Rightarrow> gvalue" where
  "canonical (VInt i) = VInt64 i"
| "canonical (VUint8 b) = VInt8 b"
| "canonical (VUint16 i) = VInt64 (ucast i)"
| "canonical (VUint32 i) = VInt64 (ucast i)"
| "canonical (VUint64 i) = VInt64 i"
| "canonical v = v"

fun is_unsigned :: "gvalue \<Rightarrow> bool" where
  "is_unsigned (VUint8 _) = True"
| "is_unsigned (VUint16 _) = True"
| "is_unsigned (VUint32 _) = True"
| "is_unsigned (VUint64 _) = True"
| "is_unsigned _ = False"

text \<open>A dynamic \<^verbatim>\<open>float32\<close> holds a number that fits the format.\<close>

fun wf_value :: "gvalue \<Rightarrow> bool" where
  "wf_value (VFloat32 f) = is_float32 f"
| "wf_value _ = True"

definition retrievable :: "gvalue \<Rightarrow> bool" where
  "retrievable v \<longleftrightarrow> tag_of v \<noteq> None \<and> \<not> is_unsigned v \<and> wf_value v"

lemma GetTypedProperty_stored:
  assumes "prop_lookup m n = Some \<lparr>prop_Type = the (tag_of v), prop_Value = v\<rparr>" "retrievable v"
  shows "GetTypedProperty m n = Ok (canonical v, True)"
  using assms
  by (cases v) (simp_all add: retrievable_def GetTypedProperty_def getter_defs property_types
      is_float32_def)

lemma GetTypedProperty_unsigned:
  assumes "prop_lookup m n = Some \<lparr>prop_Type = the (tag_of v), prop_Value = v\<rparr>" "is_unsigned v"
  shows "\<exists>z. GetTypedProperty m n = Ok (z, False)"
  using assms
  by (cases v) (simp_all add: GetTypedProperty_def getter_defs property_types)

text \<open>
  What a value becomes when it travels through msgpack with \<^verbatim>\<open>SignedInteger\<close>, \<^verbatim>\<open>RawToString\<close> and
  \<^verbatim>\<open>WriteExt\<close> set and is decoded into an \<^verbatim>\<open>interface{}\<close>: integers come back as \<^verbatim>\<open>int64\<close>, floats
  as \<^verbatim>\<open>float64\<close>; strings, byte arrays, booleans and nil keep their type.
\<close>

fun wire_value :: "gvalue \<Rightarrow> gvalue" where
  "wire_value (VInt i) = VInt64 i"
| "wire_value (VInt8 i) = VInt64 (scast i)"
| "wire_value (VInt16 i) = VInt64 (scast i)"
| "wire_value (VInt32 i) = VInt64 (scast i)"
| "wire_value (VUint8 i) = VInt64 (ucast i)"
| "wire_value (VUint16 i) = VInt64 (ucast i)"
| "wire_value (VUint32 i) = VInt64 (ucast i)"
| "wire_value (VUint64 i) = VInt64 i"
| "wire_value (VFloat32 f) = VFloat64 (to_float64 f)"
| "wire_value v = v"

definition wire_prop :: "Property \<Rightarrow> Property" where
  "wire_prop p = p\<lparr>prop_Value := wire_value (prop_Value p)\<rparr>"

text \<open>The message that a decoder gives back for an encoded one.\<close>

definition wire_msg :: "BridgeMessage \<Rightarrow> BridgeMessage" where
  "wire_msg m = m\<lparr>msg_Properties :=
     map_option (\<lambda>f. map_option wire_prop \<circ> f) (msg_Properties m)\<rparr>"

lemma prop_lookup_wire_msg: "prop_lookup (wire_msg m) n = map_option wire_prop (prop_lookup m n)"
  by (simp add: prop_lookup_def wire_msg_def split: option.split)

lemma GetTypedProperty_wire:
  assumes "prop_lookup m n = Some \<lparr>prop_Type = the (tag_of v), prop_Value = v\<rparr>"
    and "tag_of v \<noteq> None" "wf_value v"
  shows "GetTypedProperty (wire_msg m) n = Ok (canonical v, True)"
  using assms
  by (cases v) (simp_all add: prop_lookup_wire_msg wire_prop_def GetTypedProperty_def getter_defs
      property_types is_float32_def)

section \<open>The invariant of a message built with \<open>SetProperty\<close>\<close>

definition wf_prop :: "Property \<Rightarrow> bool" where
  "wf_prop p \<longleftrightarrow> tag_of (prop_Value p) = Some (prop_Type p) \<and> wf_value (prop_Value p)"

definition wf_message :: "BridgeMessage \<Rightarrow> bool" where
  "wf_message m \<longleftrightarrow> msg_Properties m \<noteq> None \<and> (\<forall>n p. prop_lookup m n = Some p \<longrightarrow> wf_prop p)"

lemma wf_message_NewBridgeMessage [simp]: "wf_message (NewBridgeMessage b)"
  by (simp add: wf_message_def) (simp add: NewBridgeMessage_def)

lemma wf_message_header_update [simp]: "wf_message (m\<lparr>msg_Header := h\<rparr>) = wf_message m"
  by (simp add: wf_message_def)

lemma wf_message_SetProperty:
  assumes "wf_message m" "wf_value v" "SetProperty m n v = Ok m'"
  shows "wf_message m'"
  using assms SetProperty_lookup [OF assms(3)]
  by (auto simp: wf_message_def SetProperty_eq_Ok wf_prop_def)

lemma wf_message_DeleteProperty:
  assumes "wf_message m"
  shows "wf_message (snd (DeleteProperty m n))"
  using assms
  by (auto simp: wf_message_def DeleteProperty_def prop_lookup_def Let_def split: option.splits
      if_splits)

lemma wf_message_stored:
  "wf_message m \<Longrightarrow> prop_lookup m n = Some p \<Longrightarrow>
     p = \<lparr>prop_Type = the (tag_of (prop_Value p)), prop_Value = prop_Value p\<rparr>"
  by (auto simp: wf_message_def wf_prop_def)

section \<open>The interface of a property store\<close>

text \<open>
  \<open>set\<close> stores a value under a name, \<open>get\<close> reads the typed value back; \<open>can\<close> says which
  values can be stored and read, \<open>canon\<close> how a stored value reads, \<open>ready\<close> when the store
  accepts a write.
\<close>

locale property_store =
  fixes set :: "'m \<Rightarrow> string \<Rightarrow> 'v \<Rightarrow> 'm outcome"
    and get :: "'m \<Rightarrow> string \<Rightarrow> ('v \<times> bool) outcome"
    and can :: "'v \<Rightarrow> bool"
    and canon :: "'v \<Rightarrow> 'v"
    and ready :: "'m \<Rightarrow> bool"
  assumes set_ready: "ready m \<Longrightarrow> can v \<Longrightarrow> \<exists>m'. set m n v = Ok m' \<and> ready m'"
    and get_set_same: "can v \<Longrightarrow> set m n v = Ok m' \<Longrightarrow> get m' n = Ok (canon v, True)"
    and get_set_other: "set m n v = Ok m' \<Longrightarrow> k \<noteq> n \<Longrightarrow> get m' k = get m k"
begin

primrec set_all :: "'m \<Rightarrow> (string \<times> 'v) list \<Rightarrow> 'm outcome" where
  "set_all m [] = Ok m"
| "set_all m (p # ps) = outcome_bind (set m (fst p) (snd p)) (\<lambda>m'. set_all m' ps)"

text \<open>Storing a list of entries: all are there afterwards, a later entry wins, the rest is kept.\<close>

lemma set_all_ready:
  assumes "ready m" "\<forall>p\<in>List.set ps. can (snd p)"
  shows "\<exists>m'. set_all m ps = Ok m' \<and> ready m'"
  using assms
proof (induction ps arbitrary: m)
  case (Cons p ps)
  obtain m1 where m1: "set m (fst p) (snd p) = Ok m1" "ready m1"
    using set_ready [of m "snd p" "fst p"] Cons.prems by auto
  then show ?case using Cons.IH [of m1] Cons.prems by simp
qed simp

lemma get_set_all:
  assumes "set_all m ps = Ok m'" "\<forall>p\<in>List.set ps. can (snd p)"
  shows "get m' n =
    (case map_of (rev ps) n of Some v \<Rightarrow> Ok (canon v, True) | None \<Rightarrow> get m n)"
  using assms
proof (induction ps arbitrary: m)
  case (Cons p ps)
  from Cons.prems(1) obtain m1 where
    m1: "set m (fst p) (snd p) = Ok m1" "set_all m1 ps = Ok m'" by auto
  show ?case
    using Cons.IH [OF m1(2)] Cons.prems(2) get_set_same [OF _ m1(1)] get_set_other [OF m1(1)]
    by (cases p) (auto simp: map_add_def split: option.split)
qed simp

end

interpretation props: property_store SetProperty GetTypedProperty retrievable canonical
  "\<lambda>m. msg_Properties m \<noteq> None"
proof
  show "\<exists>m'. SetProperty m n v = Ok m' \<and> msg_Properties m' \<noteq> None"
    if "msg_Properties m \<noteq> None" "retrievable v" for m n v
    using that by (auto simp: SetProperty_eq_Ok retrievable_def)
  show "GetTypedProperty m' n = Ok (canonical v, True)"
    if "retrievable v" "SetProperty m n v = Ok m'" for m n v m'
    using that by (simp add: GetTypedProperty_stored SetProperty_lookup)
  show "GetTypedProperty m' k = GetTypedProperty m k"
    if "SetProperty m n v = Ok m'" "k \<noteq> n" for m n v m' k
    using that by (intro GetTypedProperty_cong) (simp add: SetProperty_lookup)
qed

text \<open>
  The same contract for a message that is read after it has been through the codec: then the
  unsigned integers can be read too.
\<close>

interpretation wire_props: property_store SetProperty "\<lambda>m. GetTypedProperty (wire_msg m)"
  "\<lambda>v. tag_of v \<noteq> None \<and> wf_value v" canonical "\<lambda>m. msg_Properties m \<noteq> None"
proof
  show "\<exists>m'. SetProperty m n v = Ok m' \<and> msg_Properties m' \<noteq> None"
    if "msg_Properties m \<noteq> None" "tag_of v \<noteq> None \<and> wf_value v" for m n v
    using that by (auto simp: SetProperty_eq_Ok)
  show "GetTypedProperty (wire_msg m') n = Ok (canonical v, True)"
    if "tag_of v \<noteq> None \<and> wf_value v" "SetProperty m n v = Ok m'" for m n v m'
    using that by (simp add: GetTypedProperty_wire SetProperty_lookup)
  show "GetTypedProperty (wire_msg m') k = GetTypedProperty (wire_msg m) k"
    if "SetProperty m n v = Ok m'" "k \<noteq> n" for m n v m' k
    using that by (intro GetTypedProperty_cong) (simp add: prop_lookup_wire_msg SetProperty_lookup)
qed

section \<open>Sequences of operations and the codec\<close>

datatype prop_op = OpSet string gvalue | OpDelete string

text \<open>A client changes a message; when \<open>SetProperty\<close> returns an error the message is as before.\<close>

fun prop_step :: "BridgeMessage \<Rightarrow> prop_op \<Rightarrow> BridgeMessage outcome" where
  "prop_step m (OpSet n v) = (case SetProperty m n v of Err _ \<Rightarrow> Ok m | r \<Rightarrow> r)"
| "prop_step m (OpDelete n) = Ok (snd (DeleteProperty m n))"

fun prop_run :: "BridgeMessage \<Rightarrow> prop_op list \<Rightarrow> BridgeMessage outcome" where
  "prop_run m [] = Ok m"
| "prop_run m (x # xs) = outcome_bind (prop_step m x) (\<lambda>m'. prop_run m' xs)"

fun wf_op :: "prop_op \<Rightarrow> bool" where
  "wf_op (OpSet _ v) = wf_value v"
| "wf_op (OpDelete _) = True"

text \<open>
  A client that sets a table of properties and gives up at the first error (the loop of
  \<^verbatim>\<open>src/message/interchange/main.go\<close>); the list is the order in which the table is ranged over.
\<close>

fun SetProperties :: "BridgeMessage \<Rightarrow> (string \<times> gvalue) list \<Rightarrow> BridgeMessage outcome" where
  "SetProperties m [] = Ok m"
| "SetProperties m ((n, v) # ps) =
     (case SetProperty m n v of
        Ok m' \<Rightarrow> SetProperties m' ps
      | Err e \<Rightarrow> Err e
      | Panic \<Rightarrow> Panic)"

lemma SetProperties_set_all: "SetProperties m ps = props.set_all m ps"
  by (induction ps arbitrary: m) (auto split: outcome.split)

lemma prop_step_wf:
  assumes "wf_message m" "wf_op x"
  shows "\<exists>m'. prop_step m x = Ok m' \<and> wf_message m'"
proof (cases x)
  case (OpSet n v)
  have "SetProperty m n v \<noteq> Panic"
    using assms(1) by (simp add: SetProperty_eq_Panic wf_message_def)
  then show ?thesis
    using OpSet assms wf_message_SetProperty [of m v n] by (auto split: outcome.split)
next
  case (OpDelete n)
  then show ?thesis using assms wf_message_DeleteProperty by auto
qed

lemma prop_run_wf:
  "wf_message m \<Longrightarrow> list_all wf_op xs \<Longrightarrow> \<exists>m'. prop_run m xs = Ok m' \<and> wf_message m'"
proof (induction xs arbitrary: m)
  case (Cons x xs)
  then obtain m1 where m1: "prop_step m x = Ok m1" "wf_message m1"
    using prop_step_wf [of m x] by auto
  then show ?case using Cons.IH [of m1] Cons.prems(2) by simp
qed simp

lemma GetTypedProperty_eq_Panic:
  "GetTypedProperty m n = Panic \<longleftrightarrow>
     (\<exists>p. prop_lookup m n = Some p \<and>
        (prop_Type p = PropertyTypeBool \<and> \<not> (\<exists>b. prop_Value p = VBool b) \<or>
         prop_Type p = PropertyTypeBytes \<and> \<not> (\<exists>b. prop_Value p = VBytes b)))"
  by (cases "prop_lookup m n")
    (auto simp: GetTypedProperty_def GetBoolProperty_def GetBytesProperty_def outcome_bind_eq_Panic
      property_types Let_def split: gvalue.splits if_splits)

lemma tag_of_bool_bytes:
  "tag_of v = Some PropertyTypeBool \<Longrightarrow> \<exists>b. v = VBool b"
  "tag_of v = Some PropertyTypeBytes \<Longrightarrow> \<exists>b. v = VBytes b"
  by (cases v; simp add: property_types)+

lemma wf_message_GetTypedProperty: "wf_message m \<Longrightarrow> GetTypedProperty m n \<noteq> Panic"
  using tag_of_bool_bytes unfolding GetTypedProperty_eq_Panic wf_message_def wf_prop_def by metis

text \<open>
  What the bridge relies on from the codec, for one message: encoding succeeds and decoding gives
  back the body, the header and every property with its type tag, its value widened by msgpack.
\<close>

definition codec_faithful :: "codec \<Rightarrow> BridgeMessage \<Rightarrow> bool" where
  "codec_faithful c m \<longleftrightarrow>
     (\<exists>b m2. codec_encode c m = Inr b \<and> codec_decode c b = Inr m2 \<and>
        msg_Body m2 = msg_Body m \<and> msg_Header m2 = msg_Header m \<and>
        (\<forall>n. prop_lookup m2 n = prop_lookup (wire_msg m) n))"

section \<open>Properties\<close>

text \<open>
  A property that is set with a value of a signed, float, string, boolean, byte-array or null
  type can be read back with its type: \<open>SetProperty\<close> succeeds, \<open>GetTypedProperty\<close> returns the
  value (an \<^verbatim>\<open>int\<close> as an \<^verbatim>\<open>int64\<close>), and nothing else in the message changes.
\<close>

theorem typed_property_roundtrip:
  assumes "retrievable v" and "msg_Properties m \<noteq> None"
  shows "\<exists>m'. SetProperty m n v = Ok m' \<and> GetTypedProperty m' n = Ok (canonical v, True)
    \<and> (\<forall>k. k = n \<or> GetTypedProperty m' k = GetTypedProperty m k)
    \<and> msg_Body m' = msg_Body m \<and> msg_Header m' = msg_Header m"
proof -
  obtain m' where m': "SetProperty m n v = Ok m'"
    using props.set_ready [OF assms(2,1), of n] by blast
  have "\<forall>k. k = n \<or> GetTypedProperty m' k = GetTypedProperty m k"
    using props.get_set_other [OF m'] by blast
  then show ?thesis
    using m' props.get_set_same [OF assms(1) m'] by (auto simp: SetProperty_eq_Ok)
qed

theorem typed_property_roundtrip_witness:
  "\<exists>m'. SetProperty (NewBridgeMessage [1]) ''n'' (VInt 7) = Ok m'
     \<and> GetTypedProperty m' ''n'' = Ok (VInt64 7, True)
     \<and> (\<forall>k. k = ''n'' \<or> GetTypedProperty m' k = GetTypedProperty (NewBridgeMessage [1]) k)
     \<and> msg_Body m' = [1] \<and> msg_Header m' = zero_header"
  using typed_property_roundtrip [of "VInt 7" "NewBridgeMessage [1]" "''n''"]
  by (simp add: retrievable_def NewBridgeMessage_def)

text \<open>
  C16. A message built from \<open>NewBridgeMessage\<close> by any sequence of \<open>SetProperty\<close> and
  \<open>DeleteProperty\<close> calls keeps the invariant that every stored tag is the tag of the stored
  value; none of the calls panics, and afterwards no typed read of any name panics.
\<close>

theorem message_operations_safe:
  assumes "list_all wf_op xs"
  shows "\<exists>m. prop_run (NewBridgeMessage b) xs = Ok m \<and> wf_message m
    \<and> (\<forall>n. GetTypedProperty m n \<noteq> Panic)"
  using prop_run_wf [OF wf_message_NewBridgeMessage assms] wf_message_GetTypedProperty by blast

theorem message_operations_safe_witness:
  "\<exists>m. prop_run (NewBridgeMessage []) [OpSet ''a'' (VBool True), OpSet ''a'' (VUint 3), OpDelete ''b''] = Ok m
     \<and> wf_message m \<and> (\<forall>n. GetTypedProperty m n \<noteq> Panic)"
  by (rule message_operations_safe) simp

text \<open>
  C25. Exactly when does a typed read panic: when the stored tag says boolean or byte array and the
  value is of another dynamic type. The documentation of the getters says such a read
  returns \<^verbatim>\<open>false\<close>; a message decoded from the network can have such an entry.
\<close>

theorem typed_read_panics_iff:
  "GetTypedProperty m n = Panic \<longleftrightarrow>
     (\<exists>p. prop_lookup m n = Some p \<and>
        (prop_Type p = PropertyTypeBool \<and> (\<forall>b. prop_Value p \<noteq> VBool b) \<or>
         prop_Type p = PropertyTypeBytes \<and> (\<forall>b. prop_Value p \<noteq> VBytes b)))"
  unfolding GetTypedProperty_eq_Panic by blast

text \<open>
  C27. A property set with an unsigned integer cannot be read back from the same message: the typed
  read returns \<^verbatim>\<open>false\<close>, although the comment on \<open>SetProperty\<close> says such values are converted
  to \<^verbatim>\<open>int64\<close> (a byte to \<^verbatim>\<open>int8\<close>).
\<close>

theorem unsigned_property_unreadable:
  assumes "is_unsigned v" and "SetProperty m n v = Ok m'"
  shows "HasProperty m' n \<and> (\<exists>z. GetTypedProperty m' n = Ok (z, False))"
  using GetTypedProperty_unsigned [OF _ assms(1)] SetProperty_lookup [OF assms(2)]
  by (simp add: HasProperty_def)

theorem unsigned_property_unreadable_witness:
  "\<exists>m'. SetProperty (NewBridgeMessage []) ''u'' (VUint16 9) = Ok m' \<and> HasProperty m' ''u''
     \<and> (\<exists>z. GetTypedProperty m' ''u'' = Ok (z, False))"
proof -
  obtain m' where m': "SetProperty (NewBridgeMessage []) ''u'' (VUint16 9) = Ok m'"
    by (simp add: SetProperty_def prop_assign_def NewBridgeMessage_def)
  then show ?thesis using unsigned_property_unreadable [OF _ m'] by simp
qed

text \<open>
  C15. Properties survive the wire: a new message is filled with supported values (a later value for
  the same name wins), encoded and decoded again. Every property then reads back with its type,
  the unsigned ones included, although msgpack widened the integers and floats; body and
  header are unchanged.
\<close>

theorem properties_survive_codec:
  assumes "\<forall>p\<in>set ps. tag_of (snd p) \<noteq> None \<and> wf_value (snd p)"
    and "SetProperties (NewBridgeMessage body) ps = Ok m"
    and "codec_faithful c m"
  shows "\<exists>d m2. Encode c m = Ok d \<and> DecodeBridgeMessage c (Some d) = Ok m2
    \<and> msg_Body m2 = msg_Body m \<and> msg_Header m2 = msg_Header m
    \<and> (\<forall>n. GetTypedProperty m2 n =
         (case map_of (rev ps) n of Some v \<Rightarrow> Ok (canonical v, True) | None \<Rightarrow> Ok (VNil, False)))"
proof -
  obtain d m2 where m2: "codec_encode c m = Inr d" "codec_decode c d = Inr m2"
    "msg_Body m2 = msg_Body m" "msg_Header m2 = msg_Header m"
    "\<And>n. prop_lookup m2 n = prop_lookup (wire_msg m) n"
    using assms(3) by (auto simp: codec_faithful_def)
  have "GetTypedProperty m2 n =
    (case map_of (rev ps) n of Some v \<Rightarrow> Ok (canonical v, True) | None \<Rightarrow> Ok (VNil, False))" for n
  proof -
    have "GetTypedProperty (wire_msg (NewBridgeMessage body)) n = Ok (VNil, False)"
      by (simp add: GetTypedProperty_def prop_lookup_wire_msg)
    then show ?thesis
      using wire_props.get_set_all [OF assms(2) [unfolded SetProperties_set_all] assms(1), of n] GetTypedProperty_cong [OF m2(5)]
      by (simp add: SetProperties_set_all split: option.split)
  qed
  then show ?thesis
    using m2 by (auto simp: Encode_def DecodeBridgeMessage_def)
qed

theorem properties_survive_codec_witness:
  "\<exists>m c d m2. SetProperties (NewBridgeMessage [5]) [(''k'', VUint8 200), (''k'', VInt16 3)] = Ok m
     \<and> Encode c m = Ok d \<and> DecodeBridgeMessage c (Some d) = Ok m2 \<and> msg_Body m2 = [5]
     \<and> GetTypedProperty m2 ''k'' = Ok (VInt16 3, True)"
proof -
  obtain m where m: "SetProperties (NewBridgeMessage [5]) [(''k'', VUint8 200), (''k'', VInt16 3)] = Ok m"
    "msg_Body m = [5]"
    by (simp add: SetProperty_def prop_assign_def NewBridgeMessage_def)
  define c where "c = \<lparr>codec_encode = \<lambda>_. Inr [7], codec_decode = \<lambda>_. Inr (wire_msg m)\<rparr>"
  have "codec_faithful c m" by (simp add: codec_faithful_def c_def) (simp add: wire_msg_def)
  from properties_survive_codec [OF _ m(1) this] m show ?thesis by fastforce
qed

end
