(* ===== verification/Conf.thy ===== *)
theory Conf
  imports Prelude
begin

text \<open>
  The configuration (\<^verbatim>\<open>src/nats-mq/conf/conf.go\<close>, \<^verbatim>\<open>src/nats-mq/logging/logging.go\<close>): the structs as
  records, with the field names of the source behind a short prefix, and the default
  configuration. Go's \<^verbatim>\<open>int\<close> and \<^verbatim>\<open>int64\<close> settings are integers here; they are compared and
  passed on, never computed with.
\<close>

section \<open>Connector types\<close>

definition Queue2NATS :: string where "Queue2NATS = ''Queue2NATS''"
definition Queue2Stan :: string where "Queue2Stan = ''Queue2Stan''"
definition Stan2Queue :: string where "Stan2Queue = ''Stan2Queue''"
definition NATS2Queue :: string where "NATS2Queue = ''NATS2Queue''"
definition Topic2NATS :: string where "Topic2NATS = ''Topic2NATS''"
definition Topic2Stan :: string where "Topic2Stan = ''Topic2Stan''"
definition Stan2Topic :: string where "Stan2Topic = ''Stan2Topic''"
definition NATS2Topic :: string where "NATS2Topic = ''NATS2Topic''"

lemmas connector_types = Queue2NATS_def Queue2Stan_def Stan2Queue_def NATS2Queue_def
  Topic2NATS_def Topic2Stan_def Stan2Topic_def NATS2Topic_def

section \<open>Configuration structs\<close>

record LoggingConfig =
  log_Time :: bool
  log_Debug :: bool
  log_Trace :: bool
  log_Colors :: bool
  log_PID :: bool

record TLSConf =
  tls_Key :: string
  tls_Cert :: string
  tls_Root :: string

record MonitoringConfig =
  mon_HTTPHost :: string
  mon_HTTPPort :: int
  mon_HTTPSPort :: int
  mon_TLS :: TLSConf

record MQConfig =
  mq_ConnectionName :: string
  mq_ChannelName :: string
  mq_QueueManager :: string
  mq_UserName :: string
  mq_Password :: string
  mq_KeyRepository :: string
  mq_CertificateLabel :: string
  mq_SSLPeerName :: string

record NATSConfig =
  nats_Servers :: "string list"
  nats_ConnectTimeout :: int
  nats_ReconnectWait :: int
  nats_MaxReconnects :: int
  nats_TLS :: TLSConf
  nats_Username :: string
  nats_Password :: string
  nats_CredsFile :: string

record NATSStreamingConfig =
  stan_ClusterID :: string
  stan_ClientID :: string
  stan_PubAckWait :: int
  stan_DiscoverPrefix :: string
  stan_MaxPubAcksInflight :: int
  stan_ConnectWait :: int

record ConnectorConfig =
  cfg_ID :: string
  cfg_Type :: string
  cfg_Channel :: string
  cfg_DurableName :: string
  cfg_StartAtSequence :: int
  cfg_StartAtTime :: int
  cfg_Subject :: string
  cfg_NatsQueue :: string
  cfg_MQ :: MQConfig
  cfg_Topic :: string
  cfg_Queue :: string
  cfg_UsePolling :: bool
  cfg_IncomingBufferSize :: int
  cfg_IncomingMessageWait :: int
  cfg_ExcludeHeaders :: bool

record BridgeConfig =
  cfg_ReconnectInterval :: int
  cfg_NATS :: NATSConfig
  cfg_STAN :: NATSStreamingConfig
  cfg_Logging :: LoggingConfig
  cfg_Monitoring :: MonitoringConfig
  cfg_Connect :: "ConnectorConfig list"

text \<open>The zero values of the structs.\<close>

definition zero_TLSConf :: TLSConf where
  "zero_TLSConf = \<lparr>tls_Key = '''', tls_Cert = '''', tls_Root = ''''\<rparr>"

definition zero_MQConfig :: MQConfig where
  "zero_MQConfig = \<lparr>mq_ConnectionName = '''', mq_ChannelName = '''', mq_QueueManager = '''',
     mq_UserName = '''', mq_Password = '''', mq_KeyRepository = '''', mq_CertificateLabel = '''',
     mq_SSLPeerName = ''''\<rparr>"

definition zero_ConnectorConfig :: ConnectorConfig where
  "zero_ConnectorConfig = \<lparr>cfg_ID = '''', cfg_Type = '''', cfg_Channel = '''', cfg_DurableName = '''',
     cfg_StartAtSequence = 0, cfg_StartAtTime = 0, cfg_Subject = '''', cfg_NatsQueue = '''',
     cfg_MQ = zero_MQConfig, cfg_Topic = '''', cfg_Queue = '''', cfg_UsePolling = False,
     cfg_IncomingBufferSize = 0, cfg_IncomingMessageWait = 0, cfg_ExcludeHeaders = False\<rparr>"

text \<open>The defaults of the streaming client are constants of that library, given as arguments.\<close>

definition DefaultBridgeConfig :: "string \<Rightarrow> int \<Rightarrow> BridgeConfig" where
  "DefaultBridgeConfig DefaultDiscoverPrefix DefaultMaxPubAcksInflight =
     \<lparr>cfg_ReconnectInterval = 5000,
      cfg_NATS = \<lparr>nats_Servers = [], nats_ConnectTimeout = 0, nats_ReconnectWait = 0,
        nats_MaxReconnects = 0, nats_TLS = zero_TLSConf, nats_Username = '''',
        nats_Password = '''', nats_CredsFile = ''''\<rparr>,
      cfg_STAN = \<lparr>stan_ClusterID = '''', stan_ClientID = '''', stan_PubAckWait = 5000,
        stan_DiscoverPrefix = DefaultDiscoverPrefix,
        stan_MaxPubAcksInflight = DefaultMaxPubAcksInflight, stan_ConnectWait = 2000\<rparr>,
      cfg_Logging = \<lparr>log_Time = True, log_Debug = False, log_Trace = False, log_Colors = True,
        log_PID = False\<rparr>,
      cfg_Monitoring = \<lparr>mon_HTTPHost = '''', mon_HTTPPort = 0, mon_HTTPSPort = 0,
        mon_TLS = zero_TLSConf\<rparr>,
      cfg_Connect = []\<rparr>"

end
