(* ===== verification/MsgConv.thy ===== *)
theory MsgConv
  imports Message Conf
begin

text \<open>
  The conversion between MQ messages and NATS messages (\<^verbatim>\<open>src/nats-mq/core/msgconv.go\<close>): header
  mapping in both directions, message properties, and the mapping of reply addresses through the
  bridge's table of connectors.

  The IBM MQ library is not part of the repository. \<open>MQMD\<close> is its message descriptor,
  \<open>mqlib\<close> collects what the conversion calls: the default descriptor \<^verbatim>\<open>NewMQMD()\<close>, the lengths
  of the identifier fields, the property inquiry \<^verbatim>\<open>InqMP\<close> (by handle and number of earlier
  inquiries: the first is made with \<^verbatim>\<open>MQIMPO_INQ_FIRST\<close>, the others with \<^verbatim>\<open>MQIMPO_INQ_NEXT\<close>),
  \<^verbatim>\<open>CrtMH\<close> and \<^verbatim>\<open>SetMP\<close>. A message handle is an opaque number, the zero value being 0.
\<close>

section \<open>The MQ library\<close>

record MQMD =
  md_Version :: i32
  md_Report :: i32
  md_MsgType :: i32
  md_Expiry :: i32
  md_Feedback :: i32
  md_Encoding :: i32
  md_CodedCharSetId :: i32
  md_Format :: string
  md_Priority :: i32
  md_Persistence :: i32
  md_MsgId :: bytes
  md_CorrelId :: bytes
  md_BackoutCount :: i32
  md_ReplyToQ :: string
  md_ReplyToQMgr :: string
  md_UserIdentifier :: string
  md_AccountingToken :: bytes
  md_ApplIdentityData :: string
  md_PutApplType :: i32
  md_PutApplName :: string
  md_PutDate :: string
  md_PutTime :: string
  md_ApplOriginData :: string
  md_GroupId :: bytes
  md_MsgSeqNumber :: i32
  md_Offset :: i32
  md_MsgFlags :: i32
  md_OriginalLength :: i32

type_synonym handle = nat

record mqlib =
  NewMQMD :: MQMD
  MQ_MSG_ID_LENGTH :: nat
  MQ_CORREL_ID_LENGTH :: nat
  MQ_ACCOUNTING_TOKEN_LENGTH :: nat
  MQ_GROUP_ID_LENGTH :: nat
  MQRC_PROPERTY_NOT_AVAILABLE :: i32
  InqMP :: "handle \<Rightarrow> nat \<Rightarrow> go_error + (string \<times> gvalue)"
  CrtMH :: "go_error + handle"
  SetMP :: "handle \<Rightarrow> string \<Rightarrow> gvalue \<Rightarrow> go_error option"

section \<open>Byte arrays\<close>

definition EmptyHandle :: handle where
  "EmptyHandle = 0"

definition copyByteArray :: "bytes \<Rightarrow> bytes" where
  "copyByteArray data = trim_zero data"

text \<open>
  \<^verbatim>\<open>copy\<close> moves at most \<open>sz\<close> bytes into the zeroed array. The sizes are positive constants of the
  MQ library.
\<close>

definition copyByteArrayIfNotEmpty :: "bytes \<Rightarrow> bytes \<Rightarrow> nat \<Rightarrow> bytes" where
  "copyByteArrayIfNotEmpty data def sz =
     (if data = [] then def else take sz data @ replicate (sz - length data) 0)"

section \<open>Headers\<close>

definition mapMQMDToHeader :: "MQMD \<Rightarrow> BridgeHeader" where
  "mapMQMDToHeader mqmd = \<lparr>
     hdr_Version = md_Version mqmd,
     hdr_Report = md_Report mqmd,
     hdr_MsgType = md_MsgType mqmd,
     hdr_Expiry = md_Expiry mqmd,
     hdr_Feedback = md_Feedback mqmd,
     hdr_Encoding = md_Encoding mqmd,
     hdr_CodedCharSetID = md_CodedCharSetId mqmd,
     hdr_Format = md_Format mqmd,
     hdr_Priority = md_Priority mqmd,
     hdr_Persistence = md_Persistence mqmd,
     hdr_MsgID = copyByteArray (md_MsgId mqmd),
     hdr_CorrelID = copyByteArray (md_CorrelId mqmd),
     hdr_BackoutCount = md_BackoutCount mqmd,
     hdr_ReplyToQ = md_ReplyToQ mqmd,
     hdr_ReplyToQMgr = md_ReplyToQMgr mqmd,
     hdr_UserIdentifier = md_UserIdentifier mqmd,
     hdr_AccountingToken = copyByteArray (md_AccountingToken mqmd),
     hdr_ApplIdentityData = md_ApplIdentityData mqmd,
     hdr_PutApplType = md_PutApplType mqmd,
     hdr_PutApplName = md_PutApplName mqmd,
     hdr_PutDate = md_PutDate mqmd,
     hdr_PutTime = md_PutTime mqmd,
     hdr_ApplOriginData = md_ApplOriginData mqmd,
     hdr_GroupID = copyByteArray (md_GroupId mqmd),
     hdr_MsgSeqNumber = md_MsgSeqNumber mqmd,
     hdr_Offset = md_Offset mqmd,
     hdr_MsgFlags = md_MsgFlags mqmd,
     hdr_OriginalLength = md_OriginalLength mqmd,
     hdr_ReplyToChannel = ''''\<rparr>"

definition mapHeaderToMQMD :: "mqlib \<Rightarrow> BridgeHeader \<Rightarrow> MQMD" where
  "mapHeaderToMQMD mq header =
     (let mqmd = NewMQMD mq in mqmd\<lparr>
        md_Report := hdr_Report header,
        md_Feedback := hdr_Feedback header,
        md_Encoding := hdr_Encoding header,
        md_CodedCharSetId := hdr_CodedCharSetID header,
        md_Format := hdr_Format header,
        md_Priority := hdr_Priority header,
        md_MsgId := copyByteArrayIfNotEmpty (hdr_MsgID header) (md_MsgId mqmd) (MQ_MSG_ID_LENGTH mq),
        md_CorrelId :=
          copyByteArrayIfNotEmpty (hdr_CorrelID header) (md_CorrelId mqmd) (MQ_CORREL_ID_LENGTH mq),
        md_ReplyToQ := hdr_ReplyToQ header,
        md_ReplyToQMgr := hdr_ReplyToQMgr header,
        md_UserIdentifier := hdr_UserIdentifier header,
        md_AccountingToken :=
          copyByteArrayIfNotEmpty (hdr_AccountingToken header) (md_AccountingToken mqmd)
            (MQ_ACCOUNTING_TOKEN_LENGTH mq),
        md_ApplIdentityData := hdr_ApplIdentityData header,
        md_PutApplType := hdr_PutApplType header,
        md_PutApplName := hdr_PutApplName header,
        md_ApplOriginData := hdr_ApplOriginData header,
        md_GroupId :=
          copyByteArrayIfNotEmpty (hdr_GroupID header) (md_GroupId mqmd) (MQ_GROUP_ID_LENGTH mq),
        md_MsgSeqNumber := hdr_MsgSeqNumber header,
        md_Offset := hdr_Offset header,
        md_MsgFlags := hdr_MsgFlags header,
        md_OriginalLength := hdr_OriginalLength header\<rparr>)"

section \<open>Properties\<close>

text \<open>
  The loop of \<^verbatim>\<open>copyMessageProperties\<close>. It ends when the library answers that no property is
  left; \<open>None\<close> is a loop that never ends. The type assertion on the error panics for an
  error that is not an MQ return code.
\<close>

partial_function (option) copyPropertiesLoop ::
  "mqlib \<Rightarrow> handle \<Rightarrow> nat \<Rightarrow> BridgeMessage \<Rightarrow> BridgeMessage outcome option" where
  "copyPropertiesLoop mq h k msg =
     (case InqMP mq h k of
        Inl e \<Rightarrow>
          (case e of
             MQReturn cc rc \<Rightarrow>
               if rc \<noteq> MQRC_PROPERTY_NOT_AVAILABLE mq then Some (Err e) else Some (Ok msg)
           | _ \<Rightarrow> Some Panic)
      | Inr (name, val) \<Rightarrow>
          (case SetProperty msg name val of
             Ok msg' \<Rightarrow> copyPropertiesLoop mq h (Suc k) msg'
           | Err e \<Rightarrow> Some (Err e)
           | Panic \<Rightarrow> Some Panic))"

definition copyMessageProperties ::
  "mqlib \<Rightarrow> handle \<Rightarrow> BridgeMessage \<Rightarrow> BridgeMessage outcome option" where
  "copyMessageProperties mq h msg =
     (if h = EmptyHandle then Some (Ok msg) else copyPropertiesLoop mq h 0 msg)"

text \<open>
  The loop over \<^verbatim>\<open>range props\<close>: the names come in the order the runtime chooses. The result
  is the list of \<^verbatim>\<open>SetMP\<close> calls made on the handle, in order.
\<close>

fun setHandleProperties ::
  "mqlib \<Rightarrow> handle \<Rightarrow> BridgeMessage \<Rightarrow> string list \<Rightarrow> (string \<times> gvalue) list outcome" where
  "setHandleProperties mq h msg [] = Ok []"
| "setHandleProperties mq h msg (name # names) =
     (case GetTypedProperty msg name of
        Ok (val, ok) \<Rightarrow>
          if \<not> ok then Err (Errorf (''broken message property '' @ name))
          else (case SetMP mq h name val of
                  Some e \<Rightarrow> Err e
                | None \<Rightarrow>
                    (case setHandleProperties mq h msg names of
                       Ok sets \<Rightarrow> Ok ((name, val) # sets)
                     | Err e \<Rightarrow> Err e
                     | Panic \<Rightarrow> Panic))
      | Err e \<Rightarrow> Err e
      | Panic \<Rightarrow> Panic)"

definition mapPropertiesToHandle ::
  "mqlib \<Rightarrow> (BridgeMessage \<Rightarrow> string list) \<Rightarrow> BridgeMessage \<Rightarrow> (handle \<times> (string \<times> gvalue) list) outcome" where
  "mapPropertiesToHandle mq ord msg =
     (case CrtMH mq of
        Inl e \<Rightarrow> Err e
      | Inr h \<Rightarrow>
          (case setHandleProperties mq h msg (ord msg) of
             Ok sets \<Rightarrow> Ok (h, sets)
           | Err e \<Rightarrow> Err e
           | Panic \<Rightarrow> Panic))"

section \<open>The table of reply addresses and the conversions\<close>

type_synonym replyToInfo = "string \<rightharpoonup> ConnectorConfig"

definition queue_key :: "string \<Rightarrow> string \<Rightarrow> string" where
  "queue_key q qmgr = ''Q:'' @ q @ ''@'' @ qmgr"

definition topic_key :: "string \<Rightarrow> string \<Rightarrow> string" where
  "topic_key t qmgr = ''T:'' @ t @ ''@'' @ qmgr"

definition subject_key :: "string \<Rightarrow> string" where
  "subject_key s = ''S:'' @ s"

definition channel_key :: "string \<Rightarrow> string" where
  "channel_key c = ''C:'' @ c"

text \<open>The reply subject and the reply channel for the reply queue of an MQ message.\<close>

definition replyAddress :: "replyToInfo \<Rightarrow> MQMD option \<Rightarrow> string \<times> string" where
  "replyAddress info mqmd =
     (let replyQ = (case mqmd of None \<Rightarrow> '''' | Some md \<Rightarrow> md_ReplyToQ md);
          replyQMgr = (case mqmd of None \<Rightarrow> '''' | Some md \<Rightarrow> md_ReplyToQMgr md)
      in if replyQ \<noteq> '''' \<and> replyQMgr \<noteq> '''' then
           (case info (queue_key replyQ replyQMgr) of
              Some connectTo \<Rightarrow>
                if cfg_Subject connectTo \<noteq> '''' then (cfg_Subject connectTo, '''')
                else ('''', cfg_Channel connectTo)
            | None \<Rightarrow> ('''', ''''))
         else ('''', ''''))"

text \<open>
  \<open>data\<close> is the buffer up to its capacity, so that the slice \<^verbatim>\<open>data[:length]\<close> panics exactly when
  \<open>len\<close> is past its end; \<open>qmgr\<close> says whether a queue manager was passed.
\<close>

definition MQToNATSMessage ::
  "mqlib \<Rightarrow> codec \<Rightarrow> replyToInfo \<Rightarrow> MQMD option \<Rightarrow> handle \<Rightarrow> bytes \<Rightarrow> nat \<Rightarrow> bool \<Rightarrow>
   (bytes \<times> string) outcome option" where
  "MQToNATSMessage mq c info mqmd h data len qmgr =
     (case replyAddress info mqmd of (replySubject, replyChannel) \<Rightarrow>
        if len > length data then Some Panic
        else if \<not> qmgr then Some (Ok (take len data, replySubject))
        else (case mqmd of
                None \<Rightarrow> Some Panic
              | Some md \<Rightarrow>
                  (let mqMsg = (NewBridgeMessage (take len data))
                         \<lparr>msg_Header := (mapMQMDToHeader md)\<lparr>hdr_ReplyToChannel := replyChannel\<rparr>\<rparr>
                   in case copyMessageProperties mq h mqMsg of
                        None \<Rightarrow> None
                      | Some (Ok mqMsg') \<Rightarrow>
                          Some (case Encode c mqMsg' of
                                  Ok encoded \<Rightarrow> Ok (encoded, replySubject)
                                | Err e \<Rightarrow> Err e
                                | Panic \<Rightarrow> Panic)
                      | Some (Err e) \<Rightarrow> Some (Err e)
                      | Some Panic \<Rightarrow> Some Panic)))"

text \<open>The reply queue for a reply subject (or channel name) of a NATS message.\<close>

definition replyQueue :: "replyToInfo \<Rightarrow> string \<Rightarrow> string \<times> string" where
  "replyQueue info replyTo =
     (if replyTo = '''' then ('''', '''')
      else (case (case info (subject_key replyTo) of
                    Some connectTo \<Rightarrow> Some connectTo
                  | None \<Rightarrow> info (channel_key replyTo)) of
              Some connectTo \<Rightarrow>
                if cfg_Queue connectTo \<noteq> '''' then
                  (cfg_Queue connectTo, mq_QueueManager (cfg_MQ connectTo))
                else ('''', '''')
            | None \<Rightarrow> ('''', '''')))"

text \<open>The header field \<^verbatim>\<open>ReplyToChannel\<close>, when it is set and known, overrides that.\<close>

definition replyQueueOfHeader :: "replyToInfo \<Rightarrow> BridgeHeader \<Rightarrow> string \<times> string \<Rightarrow> string \<times> string" where
  "replyQueueOfHeader info h reply =
     (if hdr_ReplyToChannel h = '''' then reply
      else (case info (channel_key (hdr_ReplyToChannel h)) of
              Some connectTo \<Rightarrow>
                if cfg_Queue connectTo \<noteq> '''' then
                  (cfg_Queue connectTo, mq_QueueManager (cfg_MQ connectTo))
                else reply
            | None \<Rightarrow> reply))"

definition setReply :: "string \<times> string \<Rightarrow> MQMD \<Rightarrow> MQMD" where
  "setReply reply mqmd =
     (case reply of (replyQ, replyQMgr) \<Rightarrow>
        if replyQ \<noteq> '''' then mqmd\<lparr>md_ReplyToQ := replyQ, md_ReplyToQMgr := replyQMgr\<rparr> else mqmd)"

text \<open>
  The result is the descriptor, the handle with the properties set on it, and the body.
\<close>

type_synonym mq_message = "MQMD \<times> handle \<times> (string \<times> gvalue) list \<times> bytes option"

definition NATSToMQMessage ::
  "mqlib \<Rightarrow> codec \<Rightarrow> (BridgeMessage \<Rightarrow> string list) \<Rightarrow> replyToInfo \<Rightarrow> bytes option \<Rightarrow> string \<Rightarrow> bool \<Rightarrow>
   mq_message outcome" where
  "NATSToMQMessage mq c ord info data replyTo qmgr =
     (let reply = replyQueue info replyTo in
      if \<not> qmgr then Ok (setReply reply (NewMQMD mq), EmptyHandle, [], data)
      else if data = None then Err (Errorf ''tried to convert empty message to BridgeMessage'')
      else (case DecodeBridgeMessage c data of
              Err e \<Rightarrow> Err e
            | Panic \<Rightarrow> Panic
            | Ok mqMsg \<Rightarrow>
                (let reply = replyQueueOfHeader info (msg_Header mqMsg) reply in
                 case mapPropertiesToHandle mq ord mqMsg of
                   Err e \<Rightarrow> Err e
                 | Panic \<Rightarrow> Panic
                 | Ok (h, sets) \<Rightarrow>
                     Ok (setReply reply (mapHeaderToMQMD mq (msg_Header mqMsg)), h, sets,
                         Some (msg_Body mqMsg)))))"

section \<open>Facts about the byte arrays\<close>

lemma pad_trim_no_leading:
  assumes "d \<noteq> []" "hd d \<noteq> 0"
  shows "copyByteArrayIfNotEmpty (copyByteArray d) def (length d) = d"
proof -
  have ne: "trim_zero d \<noteq> []"
    using assms trim_zero_eq_Nil_iff [of d] by (metis hd_in_set)
  have "take (length d) (trim_zero d) @ replicate (length d - length (trim_zero d)) 0 = d"
    using rev_dropWhile_pad [of d] length_trim_zero [of d] trim_zero_no_leading [OF assms] by simp
  then show ?thesis using ne by (simp add: copyByteArrayIfNotEmpty_def copyByteArray_def)
qed

lemma pad_trim_leading:
  assumes "trim_zero d \<noteq> []" "hd d = 0"
  shows "copyByteArrayIfNotEmpty (copyByteArray d) def (length d) \<noteq> d"
proof
  assume eq: "copyByteArrayIfNotEmpty (copyByteArray d) def (length d) = d"
  have "length d \<noteq> 0" using assms(1) by auto
  then have "hd (take (length d) (trim_zero d) @ replicate (length d - length (trim_zero d)) 0)
      = hd (trim_zero d)"
    using assms(1) by (simp add: hd_append)
  then have "hd d = hd (trim_zero d)"
    using eq assms(1) by (simp add: copyByteArrayIfNotEmpty_def copyByteArray_def)
  then show False using assms hd_trim_zero by metis
qed

text \<open>When a trimmed and padded identifier is what it was.\<close>

definition recoverable :: "bytes \<Rightarrow> bytes \<Rightarrow> bool" where
  "recoverable d def = (if list_all ((=) 0) d then def = d else hd d \<noteq> 0)"

lemma pad_trim_iff:
  "copyByteArrayIfNotEmpty (copyByteArray d) def (length d) = d \<longleftrightarrow> recoverable d def"
proof (cases "trim_zero d = []")
  case True
  moreover from True have "list_all ((=) 0) d"
    by (auto simp: trim_zero_eq_Nil_iff list_all_iff)
  ultimately show ?thesis
    by (simp add: copyByteArrayIfNotEmpty_def copyByteArray_def recoverable_def)
next
  case False
  moreover from False have "\<not> list_all ((=) 0) d"
    by (auto simp: trim_zero_eq_Nil_iff list_all_iff)
  moreover from False have "d \<noteq> []" by auto
  ultimately show ?thesis
    using pad_trim_no_leading pad_trim_leading by (auto simp: recoverable_def)
qed

section \<open>Facts about the property loops\<close>

text \<open>
  The documented behaviour of the property inquiry on a handle: it steps through the properties of
  the message and then answers \<^verbatim>\<open>MQRC_PROPERTY_NOT_AVAILABLE\<close>.
\<close>

definition holds_props :: "mqlib \<Rightarrow> handle \<Rightarrow> (string \<times> gvalue) list \<Rightarrow> bool" where
  "holds_props mq h ps \<longleftrightarrow>
     (\<forall>k<length ps. InqMP mq h k = Inr (ps ! k)) \<and>
     (\<exists>cc. InqMP mq h (length ps) = Inl (MQReturn cc (MQRC_PROPERTY_NOT_AVAILABLE mq)))"

lemma copyPropertiesLoop_eq:
  assumes "\<forall>i<length ps. InqMP mq h (k + i) = Inr (ps ! i)"
    and "InqMP mq h (k + length ps) = Inl (MQReturn cc (MQRC_PROPERTY_NOT_AVAILABLE mq))"
  shows "copyPropertiesLoop mq h k m = Some (SetProperties m ps)"
  using assms
proof (induction ps arbitrary: k m)
  case Nil
  then show ?case by (subst copyPropertiesLoop.simps) simp
next
  case (Cons p ps)
  obtain n v where p: "p = (n, v)" by (cases p)
  have first: "InqMP mq h k = Inr (n, v)" using Cons.prems(1) p by force
  have "\<forall>i<length ps. InqMP mq h (Suc k + i) = Inr (ps ! i)"
  proof (intro allI impI)
    fix i assume "i < length ps"
    then show "InqMP mq h (Suc k + i) = Inr (ps ! i)" using Cons.prems(1) [rule_format, of "Suc i"] by simp
  qed
  then have "copyPropertiesLoop mq h (Suc k) m' = Some (SetProperties m' ps)" for m'
    using Cons.IH [of "Suc k"] Cons.prems(2) by simp
  then show ?case
    by (subst copyPropertiesLoop.simps) (simp add: first p split: outcome.split)
qed

lemma copyMessageProperties_eq:
  assumes "holds_props mq h ps" "h \<noteq> EmptyHandle"
  shows "copyMessageProperties mq h m = Some (SetProperties m ps)"
  using assms copyPropertiesLoop_eq [of ps mq h 0]
  by (auto simp: holds_props_def copyMessageProperties_def)

lemma setHandleProperties_eq:
  assumes "list_all (\<lambda>n. GetTypedProperty m n = Ok (g n, True) \<and> SetMP mq h n (g n) = None) ns"
  shows "setHandleProperties mq h m ns = Ok (map (\<lambda>n. (n, g n)) ns)"
  using assms by (induction ns) auto

lemma SetProperties_frame:
  "SetProperties m ps = Ok m' \<Longrightarrow>
     msg_Body m' = msg_Body m \<and> msg_Header m' = msg_Header m \<and>
     (\<forall>n. prop_lookup m' n =
        (case map_of (rev ps) n of
           Some v \<Rightarrow> Some \<lparr>prop_Type = the (tag_of v), prop_Value = v\<rparr>
         | None \<Rightarrow> prop_lookup m n))"
proof (induction ps arbitrary: m)
  case (Cons p ps)
  obtain n v where p: "p = (n, v)" by (cases p)
  from Cons.prems p obtain m1 where m1: "SetProperty m n v = Ok m1" "SetProperties m1 ps = Ok m'"
    by (auto split: outcome.splits)
  show ?case
    using Cons.IH [OF m1(2)] SetProperty_lookup [OF m1(1)] m1(1) p
    by (auto simp: SetProperty_eq_Ok map_add_def split: option.splits)
qed simp

text \<open>
  What the round trip needs from the codec and the runtime for one message: the codec is faithful
  on it, and ranging over the properties of the decoded message visits each name once.
\<close>

definition transported :: "codec \<Rightarrow> (BridgeMessage \<Rightarrow> string list) \<Rightarrow> BridgeMessage \<Rightarrow> bytes \<Rightarrow> BridgeMessage \<Rightarrow> bool" where
  "transported c ord m d m2 \<longleftrightarrow>
     codec_encode c m = Inr d \<and> codec_decode c d = Inr m2 \<and>
     msg_Body m2 = msg_Body m \<and> msg_Header m2 = msg_Header m \<and>
     (\<forall>n. prop_lookup m2 n = prop_lookup (wire_msg m) n) \<and>
     distinct (ord m2) \<and> set (ord m2) = dom (prop_lookup m2)"

lemma mapPropertiesToHandle_transported:
  assumes t: "transported c ord m d m2"
    and m: "SetProperties (NewBridgeMessage b\<lparr>msg_Header := hdr\<rparr>) ps = Ok m"
    and ps: "\<forall>p\<in>set ps. tag_of (snd p) \<noteq> None \<and> wf_value (snd p)"
    and lib: "CrtMH mq = Inr h" "\<forall>n v. SetMP mq h n v = None"
  shows "\<exists>sets. mapPropertiesToHandle mq ord m2 = Ok (h, sets) \<and> distinct (map fst sets)
    \<and> map_of sets = (\<lambda>n. map_option canonical (map_of (rev ps) n))"
proof -
  define g where "g n = canonical (the (map_of (rev ps) n))" for n
  have lookup: "prop_lookup m n =
      map_option (\<lambda>v. \<lparr>prop_Type = the (tag_of v), prop_Value = v\<rparr>) (map_of (rev ps) n)" for n
    using SetProperties_frame [OF m] by (auto split: option.split)
  have dom: "dom (prop_lookup m2) = dom (map_of (rev ps))"
    using t lookup by (auto simp: transported_def prop_lookup_wire_msg dom_def)
  have get: "GetTypedProperty m2 n = Ok (g n, True)" if n: "n \<in> set (ord m2)" for n
  proof -
    obtain v where v: "map_of (rev ps) n = Some v"
      using n t dom by (auto simp: transported_def)
    then have "(n, v) \<in> set ps" by (auto dest: map_of_SomeD)
    then have "GetTypedProperty (wire_msg m) n = Ok (canonical v, True)"
      using GetTypedProperty_wire [of m n v] ps lookup [of n] v by force
    moreover have "GetTypedProperty m2 n = GetTypedProperty (wire_msg m) n"
      using t by (intro GetTypedProperty_cong) (simp add: transported_def)
    ultimately show ?thesis using v by (simp add: g_def)
  qed
  let ?sets = "map (\<lambda>n. (n, g n)) (ord m2)"
  have "setHandleProperties mq h m2 (ord m2) = Ok ?sets"
    using get lib(2) by (intro setHandleProperties_eq) (simp add: list_all_iff)
  then have "mapPropertiesToHandle mq ord m2 = Ok (h, ?sets)"
    using lib(1) by (simp add: mapPropertiesToHandle_def)
  moreover have "distinct (map fst ?sets)"
    using t by (simp add: transported_def comp_def)
  moreover have "map_of ?sets n = map_option canonical (map_of (rev ps) n)" for n
    using t dom by (cases "map_of (rev ps) n") (auto simp: transported_def map_of_tabulate g_def dom_def)
  ultimately show ?thesis by blast
qed

lemma NATSToMQMessage_transported:
  assumes t: "transported c ord m d m2"
    and m: "SetProperties (NewBridgeMessage b\<lparr>msg_Header := hdr\<rparr>) ps = Ok m"
    and ps: "\<forall>p\<in>set ps. tag_of (snd p) \<noteq> None \<and> wf_value (snd p)"
    and lib: "CrtMH mq = Inr h" "\<forall>n v. SetMP mq h n v = None"
  shows "\<exists>sets. NATSToMQMessage mq c ord info (Some d) replyTo True =
       Ok (setReply (replyQueueOfHeader info hdr (replyQueue info replyTo)) (mapHeaderToMQMD mq hdr), h, sets, Some b)
    \<and> distinct (map fst sets) \<and> map_of sets = (\<lambda>n. map_option canonical (map_of (rev ps) n))"
proof -
  have "DecodeBridgeMessage c (Some d) = Ok m2" using t by (simp add: transported_def DecodeBridgeMessage_def)
  moreover have "msg_Body m2 = b" "msg_Header m2 = hdr"
    using SetProperties_frame [OF m] t by (auto simp: transported_def NewBridgeMessage_def)
  ultimately show ?thesis
    using mapPropertiesToHandle_transported [OF t m ps lib] by (auto simp: NATSToMQMessage_def Let_def)
qed

lemma MQToNATSMessage_held:
  assumes "holds_props mq h ps" "h \<noteq> EmptyHandle" "len \<le> length data"
    and "SetProperties (NewBridgeMessage (take len data)\<lparr>msg_Header :=
           (mapMQMDToHeader md)\<lparr>hdr_ReplyToChannel := snd (replyAddress info (Some md))\<rparr>\<rparr>) ps = Ok m"
    and "codec_encode c m = Inr d"
  shows "MQToNATSMessage mq c info (Some md) h data len True = Some (Ok (d, fst (replyAddress info (Some md))))"
  using assms copyMessageProperties_eq [OF assms(1,2)]
  by (simp add: MQToNATSMessage_def Encode_def split_beta)

lemma mapHeaderToMQMD_channel [simp]:
  "mapHeaderToMQMD mq (h\<lparr>hdr_ReplyToChannel := x\<rparr>) = mapHeaderToMQMD mq h"
  by (simp add: mapHeaderToMQMD_def)

section \<open>Properties\<close>

text \<open>
  C1. A message that comes out of MQ and goes back in through the bridge: for any message handle with
  supported properties the conversion to NATS terminates and succeeds, the second conversion
  succeeds, the body is the same, and the properties set on the new handle are exactly those read
  from the old one, each once and with its type, whatever order the runtime visits them in. The new
  descriptor is the old one mapped to a header and back, with the reply queue that the second
  bridge's table gives.
\<close>

theorem mq_message_roundtrip:
  assumes "holds_props mq h ps" "h \<noteq> EmptyHandle"
    and "\<forall>p\<in>set ps. tag_of (snd p) \<noteq> None \<and> wf_value (snd p)"
    and "len \<le> length data"
    and "SetProperties (NewBridgeMessage (take len data)\<lparr>msg_Header :=
           (mapMQMDToHeader md)\<lparr>hdr_ReplyToChannel := snd (replyAddress info (Some md))\<rparr>\<rparr>) ps = Ok m"
    and "transported c ord m d m2"
    and "CrtMH mq = Inr h2" "\<forall>n v. SetMP mq h2 n v = None"
  shows "MQToNATSMessage mq c info (Some md) h data len True =
      Some (Ok (d, fst (replyAddress info (Some md)))) \<and>
    (\<exists>sets. NATSToMQMessage mq c ord info' (Some d) '''' True =
       Ok (setReply (replyQueueOfHeader info' (msg_Header m) ('''', ''''))
             (mapHeaderToMQMD mq (mapMQMDToHeader md)), h2, sets, Some (take len data)) \<and>
       distinct (map fst sets) \<and> map_of sets = (\<lambda>n. map_option canonical (map_of (rev ps) n)))"
proof -
  let ?hdr = "(mapMQMDToHeader md)\<lparr>hdr_ReplyToChannel := snd (replyAddress info (Some md))\<rparr>"
  have "msg_Header m = ?hdr" using SetProperties_frame [OF assms(5)] by simp
  moreover have "replyQueue info' '''' = ('''', '''')" by (simp add: replyQueue_def)
  ultimately show ?thesis
    using MQToNATSMessage_held [OF assms(1,2,4,5)] assms(6)
      NATSToMQMessage_transported [OF assms(6,5,3,7,8), of info' "''''"]
    by (simp add: transported_def)
qed

text \<open>
  C14. The descriptor after the trip through a bridge header: the fields a client may set are what
  they were; the seven fields that cannot be set have the library's default; an identifier field
  of the length MQ prescribes survives exactly when it is recoverable, that is when it does not
  start with a zero byte or is all zero like the default.
\<close>

theorem header_roundtrip:
  assumes "length (md_MsgId md) = MQ_MSG_ID_LENGTH mq"
    and "length (md_CorrelId md) = MQ_CORREL_ID_LENGTH mq"
    and "length (md_AccountingToken md) = MQ_ACCOUNTING_TOKEN_LENGTH mq"
    and "length (md_GroupId md) = MQ_GROUP_ID_LENGTH mq"
    and "md' = mapHeaderToMQMD mq (mapMQMDToHeader md)"
  shows "md_Report md' = md_Report md \<and> md_Feedback md' = md_Feedback md
    \<and> md_Encoding md' = md_Encoding md \<and> md_CodedCharSetId md' = md_CodedCharSetId md
    \<and> md_Format md' = md_Format md \<and> md_Priority md' = md_Priority md
    \<and> md_ReplyToQ md' = md_ReplyToQ md \<and> md_ReplyToQMgr md' = md_ReplyToQMgr md
    \<and> md_UserIdentifier md' = md_UserIdentifier md
    \<and> md_ApplIdentityData md' = md_ApplIdentityData md
    \<and> md_PutApplType md' = md_PutApplType md \<and> md_PutApplName md' = md_PutApplName md
    \<and> md_ApplOriginData md' = md_ApplOriginData md
    \<and> md_MsgSeqNumber md' = md_MsgSeqNumber md \<and> md_Offset md' = md_Offset md
    \<and> md_MsgFlags md' = md_MsgFlags md \<and> md_OriginalLength md' = md_OriginalLength md
    \<and> md_Version md' = md_Version (NewMQMD mq) \<and> md_MsgType md' = md_MsgType (NewMQMD mq)
    \<and> md_Expiry md' = md_Expiry (NewMQMD mq) \<and> md_BackoutCount md' = md_BackoutCount (NewMQMD mq)
    \<and> md_Persistence md' = md_Persistence (NewMQMD mq) \<and> md_PutDate md' = md_PutDate (NewMQMD mq)
    \<and> md_PutTime md' = md_PutTime (NewMQMD mq)
    \<and> (md_MsgId md' = md_MsgId md) = recoverable (md_MsgId md) (md_MsgId (NewMQMD mq))
    \<and> (md_CorrelId md' = md_CorrelId md) = recoverable (md_CorrelId md) (md_CorrelId (NewMQMD mq))
    \<and> (md_AccountingToken md' = md_AccountingToken md) =
        recoverable (md_AccountingToken md) (md_AccountingToken (NewMQMD mq))
    \<and> (md_GroupId md' = md_GroupId md) = recoverable (md_GroupId md) (md_GroupId (NewMQMD mq))"
  using assms(1-4) [symmetric]
  by (simp add: assms(5) mapHeaderToMQMD_def mapMQMDToHeader_def pad_trim_iff Let_def)

text \<open>
  An identifier field that starts with a zero byte and is not all zero is not restored by the trip
  through the bridge: \<open>copyByteArray\<close> cuts zero bytes off both ends and the padding only adds
  them at the right end.
\<close>

theorem leading_zero_identifier_lost:
  assumes "hd d = 0" and "\<not> list_all ((=) 0) d"
  shows "copyByteArrayIfNotEmpty (copyByteArray d) def (length d) \<noteq> d"
  using assms by (simp add: pad_trim_iff recoverable_def)

theorem leading_zero_identifier_lost_witness:
  "copyByteArrayIfNotEmpty (copyByteArray [0, 7, 8]) [0, 0, 0] 3 \<noteq> [0, 7, 8]"
  using leading_zero_identifier_lost [of "[0, 7, 8]" "[0, 0, 0]"]
  by (simp add: numeral_3_eq_3)

text \<open>
  Without headers the body is passed through unchanged in both directions, no property is read or
  set and no message handle is made; the reply address is still mapped both ways, although the
  documentation says request-reply does not work when headers are excluded.
\<close>

theorem exclude_headers_passthrough:
  "MQToNATSMessage mq c info (Some md) h data (length data) False =
     Some (Ok (data, fst (replyAddress info (Some md))))
   \<and> NATSToMQMessage mq c ord info' body replyTo False =
     Ok (setReply (replyQueue info' replyTo) (NewMQMD mq), EmptyHandle, [], body)"
  by (simp add: MQToNATSMessage_def NATSToMQMessage_def split_beta)


section \<open>Concrete instances\<close>

text \<open>
  A descriptor and a library with the documented lengths, one message property and a reason code for
  the end of the properties, on which the theorems above are applied.
\<close>

definition example_md :: MQMD where
  "example_md = \<lparr>
     md_Version = 1, md_Report = 0, md_MsgType = 8, md_Expiry = - 1, md_Feedback = 0, md_Encoding = 546,
     md_CodedCharSetId = 1208, md_Format = ''MQSTR'', md_Priority = 4, md_Persistence = 2,
     md_MsgId = 1 # replicate 23 0, md_CorrelId = replicate 24 0, md_BackoutCount = 0,
     md_ReplyToQ = ''R1'', md_ReplyToQMgr = ''QM1'', md_UserIdentifier = ''app'',
     md_AccountingToken = replicate 32 0, md_ApplIdentityData = '''', md_PutApplType = 28,
     md_PutApplName = '''', md_PutDate = '''', md_PutTime = '''', md_ApplOriginData = '''',
     md_GroupId = replicate 24 0, md_MsgSeqNumber = 1, md_Offset = 0, md_MsgFlags = 0,
     md_OriginalLength = - 1\<rparr>"

definition example_lib :: mqlib where
  "example_lib = \<lparr>
     NewMQMD = example_md\<lparr>md_MsgId := replicate 24 0, md_ReplyToQ := '''', md_ReplyToQMgr := ''''\<rparr>,
     MQ_MSG_ID_LENGTH = 24, MQ_CORREL_ID_LENGTH = 24, MQ_ACCOUNTING_TOKEN_LENGTH = 32,
     MQ_GROUP_ID_LENGTH = 24, MQRC_PROPERTY_NOT_AVAILABLE = 2471,
     InqMP = \<lambda>h k. if k = 0 then Inr (''p'', VInt8 3) else Inl (MQReturn 2 2471),
     CrtMH = Inr 2, SetMP = \<lambda>h n v. None\<rparr>"

lemma example_holds_props: "holds_props example_lib h [(''p'', VInt8 3)]"
  by (simp add: holds_props_def example_lib_def)

theorem mq_message_roundtrip_witness:
  "\<exists>c ord d sets. MQToNATSMessage example_lib c Map.empty (Some example_md) 1 [65, 66] 2 True =
       Some (Ok (d, ''''))
     \<and> NATSToMQMessage example_lib c ord Map.empty (Some d) '''' True =
       Ok (mapHeaderToMQMD example_lib (mapMQMDToHeader example_md), 2, sets, Some [65, 66])
     \<and> map_of sets ''p'' = Some (VInt8 3)"
proof -
  let ?reply = "replyAddress Map.empty (Some example_md)"
  let ?m0 = "NewBridgeMessage (take 2 [65, 66])\<lparr>msg_Header :=
    (mapMQMDToHeader example_md)\<lparr>hdr_ReplyToChannel := snd ?reply\<rparr>\<rparr>"
  have reply: "?reply = ('''', '''')" by (simp add: replyAddress_def)
  obtain m where m: "SetProperties ?m0 [(''p'', VInt8 3)] = Ok m"
    "dom (prop_lookup m) = {''p''}" "hdr_ReplyToChannel (msg_Header m) = ''''"
    by (simp add: SetProperty_def prop_assign_def NewBridgeMessage_def prop_lookup_table reply)
  define c where "c = \<lparr>codec_encode = \<lambda>_. Inr [7], codec_decode = \<lambda>_. Inr (wire_msg m)\<rparr>"
  have "dom (prop_lookup (wire_msg m)) = {''p''}"
    using m(2) by (auto simp: prop_lookup_wire_msg dom_def)
  then have t: "transported c (\<lambda>_. [''p'']) m [7] (wire_msg m)"
    by (simp add: transported_def c_def) (simp add: wire_msg_def)
  have h: "1 \<noteq> EmptyHandle" "CrtMH example_lib = Inr 2" "\<forall>n v. SetMP example_lib 2 n v = None"
    by (simp_all add: EmptyHandle_def example_lib_def)
  have r: "replyQueueOfHeader Map.empty (msg_Header m) ('''', '''') = ('''', '''')"
    using m(3) by (simp add: replyQueueOfHeader_def)
  have "setReply ('''', '''') md = md" for md by (simp add: setReply_def)
  with mq_message_roundtrip [OF example_holds_props h(1) _ _ m(1) t h(2,3), of Map.empty]
  show ?thesis by (force simp: reply r)
qed

theorem header_roundtrip_witness:
  "md_MsgId (mapHeaderToMQMD example_lib (mapMQMDToHeader example_md)) = 1 # replicate 23 0
   \<and> md_Report (mapHeaderToMQMD example_lib (mapMQMDToHeader example_md)) = 0"
  using header_roundtrip [of example_md example_lib
      "mapHeaderToMQMD example_lib (mapMQMDToHeader example_md)"]
  by (simp add: example_lib_def example_md_def recoverable_def)


section \<open>Termination of the property loop\<close>

text \<open>The message after \<open>j\<close> turns of the property loop; \<open>None\<close> if one of them leaves the loop.\<close>

fun after_turns :: "mqlib \<Rightarrow> handle \<Rightarrow> nat \<Rightarrow> BridgeMessage \<Rightarrow> nat \<Rightarrow> BridgeMessage option" where
  "after_turns mq h k msg 0 = Some msg"
| "after_turns mq h k msg (Suc j) =
     (case InqMP mq h k of
        Inl _ \<Rightarrow> None
      | Inr (name, val) \<Rightarrow>
          (case SetProperty msg name val of Ok msg' \<Rightarrow> after_turns mq h (Suc k) msg' j | _ \<Rightarrow> None))"

lemma loop_ends: "after_turns mq h k msg j = None \<Longrightarrow> copyPropertiesLoop mq h k msg \<noteq> None"
proof (induction j arbitrary: k msg)
  case (Suc j)
  then show ?case
    by (subst copyPropertiesLoop.simps) (auto split: sum.splits prod.splits outcome.splits go_error.splits)
qed simp

lemma loop_ended: "copyPropertiesLoop mq h k msg = Some r \<Longrightarrow> \<exists>j. after_turns mq h k msg j = None"
proof (induction rule: copyPropertiesLoop.raw_induct [rotated 1, consumes 1])
  case (1 loop mq h k msg r)
  show ?case
  proof (cases "InqMP mq h k")
    case (Inl e)
    then have "after_turns mq h k msg (Suc 0) = None" by simp
    then show ?thesis by blast
  next
    case (Inr p)
    obtain name val where p: "p = (name, val)" by (cases p)
    show ?thesis
    proof (cases "SetProperty msg name val")
      case (Ok m)
      have "loop mq h (Suc k) m = Some r" using 1(2) by (simp add: Inr p Ok)
      from 1(1) [OF this] obtain j where "after_turns mq h (Suc k) m j = None" by blast
      then have "after_turns mq h k msg (Suc j) = None" by (simp add: Inr p Ok)
      then show ?thesis by blast
    qed (use Inr p in \<open>intro exI [of _ "Suc 0"], simp\<close>)+
  qed
qed

text \<open>
  C22. Reading the properties of an MQ message ends exactly when the library does not go on answering with properties that
  can be set: at some inquiry it reports that none is left or an error, or a property is refused. Without a message handle it ends at
  once.
\<close>

theorem property_loop_terminates:
  "(\<exists>r. copyMessageProperties mq h msg = Some r) \<longleftrightarrow>
   h = EmptyHandle \<or> (\<exists>j. after_turns mq h 0 msg j = None)"
  using loop_ends [of mq h 0 msg] loop_ended [of mq h 0 msg] by (auto simp: copyMessageProperties_def)

end
