(* ===== verification/Histogram.thy ===== *)
theory Histogram
  imports Go_Float
begin

text \<open>
  The streaming histogram (\<^verbatim>\<open>src/nats-mq/core/histogram.go\<close>). Every operation takes the rounding
  \<open>fl\<close> of its float arithmetic; the code's arithmetic is \<open>f64\<close>, and \<open>id\<close> gives the same algorithm
  in exact arithmetic. \<open>None\<close> is the index-out-of-range panic of \<open>trim\<close>, which reads
  \<^verbatim>\<open>h.Bins[minDeltaIndex-1]\<close> with index 0 when it found no pair of bins to merge.
\<close>

section \<open>Data and operations\<close>

record Bin =
  bin_Value :: rat
  bin_Count :: rat

record Histogram =
  hist_Bins :: "Bin list"
  hist_MaxBins :: int
  hist_Total :: "64 word"

definition NewHistogram :: "int \<Rightarrow> Histogram" where
  "NewHistogram n = \<lparr>hist_Bins = [], hist_MaxBins = n, hist_Total = 0\<rparr>"

definition Scale :: "(rat \<Rightarrow> rat) \<Rightarrow> Histogram \<Rightarrow> rat \<Rightarrow> Histogram" where
  "Scale fl h s = h\<lparr>hist_Bins := map (\<lambda>b. b\<lparr>bin_Value := fl (bin_Value b * s)\<rparr>) (hist_Bins h)\<rparr>"

text \<open>The loop of \<open>Add\<close> over the bins: count up an equal bin or insert before the first larger.\<close>

fun add_bin :: "(rat \<Rightarrow> rat) \<Rightarrow> rat \<Rightarrow> Bin list \<Rightarrow> Bin list" where
  "add_bin fl n [] = [\<lparr>bin_Value = n, bin_Count = 1\<rparr>]"
| "add_bin fl n (b # bs) =
     (if bin_Value b = n then b\<lparr>bin_Count := fl (bin_Count b + 1)\<rparr> # bs
      else if bin_Value b > n then \<lparr>bin_Value = n, bin_Count = 1\<rparr> # b # bs
      else b # add_bin fl n bs)"

text \<open>
  The search of \<open>trim\<close> for the two closest neighbours: \<open>prev\<close> is the value of the bin before,
  \<open>i\<close> the index of the first bin of the list. The index stays 0 when no gap is below the initial
  \<^verbatim>\<open>1e99\<close>.
\<close>

fun closest_from :: "(rat \<Rightarrow> rat) \<Rightarrow> rat \<Rightarrow> nat \<Rightarrow> rat \<Rightarrow> nat \<Rightarrow> Bin list \<Rightarrow> nat" where
  "closest_from fl prev i minDelta minDeltaIndex [] = minDeltaIndex"
| "closest_from fl prev i minDelta minDeltaIndex (b # bs) =
     (let delta = fl (bin_Value b - prev) in
      if delta < minDelta then closest_from fl (bin_Value b) (Suc i) delta i bs
      else closest_from fl (bin_Value b) (Suc i) minDelta minDeltaIndex bs)"

definition initialDelta :: "(rat \<Rightarrow> rat) \<Rightarrow> rat" where
  "initialDelta fl = fl (10 ^ 99)"

fun closest :: "(rat \<Rightarrow> rat) \<Rightarrow> Bin list \<Rightarrow> nat" where
  "closest fl [] = 0"
| "closest fl (b # bs) = closest_from fl (bin_Value b) 1 (initialDelta fl) 0 bs"

definition merge_bins :: "(rat \<Rightarrow> rat) \<Rightarrow> Bin \<Rightarrow> Bin \<Rightarrow> Bin" where
  "merge_bins fl a b =
     (let totalCount = fl (bin_Count a + bin_Count b)
      in \<lparr>bin_Value = fl (fl (fl (bin_Value a * bin_Count a) + fl (bin_Value b * bin_Count b)) / totalCount),
          bin_Count = totalCount\<rparr>)"

definition merge_at :: "(rat \<Rightarrow> rat) \<Rightarrow> nat \<Rightarrow> Bin list \<Rightarrow> Bin list" where
  "merge_at fl i bs = take (i - 1) bs @ merge_bins fl (bs ! (i - 1)) (bs ! i) # drop (i + 1) bs"

lemma closest_from_bound:
  "mi < i \<Longrightarrow> closest_from fl p i md mi bs < i + length bs"
proof (induction bs arbitrary: p i md mi)
  case (Cons b bs)
  then show ?case using Cons.IH [of i "Suc i"] Cons.IH [of mi "Suc i"] by (simp add: Let_def)
qed simp

lemma closest_less: "closest fl bs \<noteq> 0 \<Longrightarrow> closest fl bs < length bs"
  using closest_from_bound [of 0 1] by (cases bs) auto

lemma length_merge_at:
  "0 < i \<Longrightarrow> i < length bs \<Longrightarrow> length (merge_at fl i bs) = length bs - 1"
  by (auto simp: merge_at_def)

function trim :: "(rat \<Rightarrow> rat) \<Rightarrow> int \<Rightarrow> Bin list \<Rightarrow> Bin list option" where
  "trim fl maxBins bs =
     (if int (length bs) > maxBins then
        (let i = closest fl bs in if i = 0 then None else trim fl maxBins (merge_at fl i bs))
      else Some bs)"
  by pat_completeness auto
termination
  by (relation "measure (\<lambda>(fl, maxBins, bs). length bs)")
    (use closest_less in \<open>fastforce simp: length_merge_at\<close>)+

declare trim.simps [simp del]

definition Add :: "(rat \<Rightarrow> rat) \<Rightarrow> Histogram \<Rightarrow> rat \<Rightarrow> Histogram option" where
  "Add fl h n =
     (case trim fl (hist_MaxBins h) (add_bin fl n (hist_Bins h)) of
        None \<Rightarrow> None
      | Some bs \<Rightarrow> Some (h\<lparr>hist_Total := hist_Total h + 1, hist_Bins := bs\<rparr>))"

definition Count :: "(rat \<Rightarrow> rat) \<Rightarrow> Histogram \<Rightarrow> rat" where
  "Count fl h = fl (of_nat (unat (hist_Total h)))"

fun quantile_from :: "(rat \<Rightarrow> rat) \<Rightarrow> rat \<Rightarrow> Bin list \<Rightarrow> rat" where
  "quantile_from fl count [] = - 1"
| "quantile_from fl count (b # bs) =
     (let count' = fl (count - bin_Count b)
      in if count' \<le> 0 then bin_Value b else quantile_from fl count' bs)"

definition Quantile :: "(rat \<Rightarrow> rat) \<Rightarrow> Histogram \<Rightarrow> rat \<Rightarrow> rat" where
  "Quantile fl h q = quantile_from fl (fl (q * Count fl h)) (hist_Bins h)"

definition Mean :: "(rat \<Rightarrow> rat) \<Rightarrow> Histogram \<Rightarrow> rat" where
  "Mean fl h =
     (if hist_Total h = 0 then 0
      else fl (foldl (\<lambda>sum b. fl (sum + fl (bin_Value b * bin_Count b))) 0 (hist_Bins h) / Count fl h))"

text \<open>Adding a sequence of values, as the connector does over its life.\<close>

fun AddAll :: "(rat \<Rightarrow> rat) \<Rightarrow> Histogram \<Rightarrow> rat list \<Rightarrow> Histogram option" where
  "AddAll fl h [] = Some h"
| "AddAll fl h (n # ns) = (case Add fl h n of None \<Rightarrow> None | Some h' \<Rightarrow> AddAll fl h' ns)"

section \<open>The invariant in rounded arithmetic\<close>

definition good_bin :: "Bin \<Rightarrow> bool" where
  "good_bin b \<longleftrightarrow> (\<exists>k. 1 \<le> k \<and> bin_Count b = of_nat k) \<and> \<bar>bin_Value b\<bar> \<le> 2 ^ 63"

definition bins_inv :: "nat \<Rightarrow> Bin list \<Rightarrow> bool" where
  "bins_inv N bs \<longleftrightarrow> (\<forall>b\<in>set bs. good_bin b) \<and> sum_list (map bin_Count bs) = of_nat N"

definition hist_inv :: "Histogram \<Rightarrow> bool" where
  "hist_inv h \<longleftrightarrow> 1 \<le> hist_MaxBins h \<and> int (length (hist_Bins h)) \<le> hist_MaxBins h
     \<and> unat (hist_Total h) < 2 ^ 53 \<and> bins_inv (unat (hist_Total h)) (hist_Bins h)"

lemma bins_inv_Nil [simp]: "bins_inv N [] \<longleftrightarrow> N = 0"
  by (simp add: bins_inv_def)

lemma good_bin_count_nat:
  "\<forall>b\<in>set bs. good_bin b \<Longrightarrow> \<exists>M. sum_list (map bin_Count bs) = of_nat M"
proof (induction bs)
  case (Cons b bs)
  then obtain k M where "bin_Count b = of_nat k" "sum_list (map bin_Count bs) = of_nat M"
    by (auto simp: good_bin_def)
  then have "sum_list (map bin_Count (b # bs)) = of_nat (k + M)" by simp
  then show ?case by blast
qed (auto intro: exI [of _ 0])

lemma bins_inv_Cons:
  "bins_inv N (b # bs) \<longleftrightarrow>
     (\<exists>k M. N = k + M \<and> 1 \<le> k \<and> bin_Count b = of_nat k \<and> \<bar>bin_Value b\<bar> \<le> 2 ^ 63 \<and> bins_inv M bs)"
proof
  assume inv: "bins_inv N (b # bs)"
  then obtain k M where k: "1 \<le> k" "bin_Count b = of_nat k"
    and M: "sum_list (map bin_Count bs) = of_nat M"
    using good_bin_count_nat [of bs] by (auto simp: bins_inv_def good_bin_def)
  then have "of_nat N = (of_nat (k + M) :: rat)" using inv by (simp add: bins_inv_def)
  then have "N = k + M" by (simp only: of_nat_eq_iff)
  then show "\<exists>k M. N = k + M \<and> 1 \<le> k \<and> bin_Count b = of_nat k \<and> \<bar>bin_Value b\<bar> \<le> 2 ^ 63 \<and> bins_inv M bs"
    using inv k M by (auto simp: bins_inv_def good_bin_def)
qed (auto simp: bins_inv_def good_bin_def)

lemma bins_inv_append:
  "bins_inv N (as @ bs) \<longleftrightarrow> (\<exists>K M. N = K + M \<and> bins_inv K as \<and> bins_inv M bs)"
  by (induction as arbitrary: N) (auto simp: bins_inv_Cons, metis add.assoc, metis add.assoc)

lemma split_at_pair:
  assumes "0 < i" "i < length bs"
  shows "bs = take (i - 1) bs @ bs ! (i - 1) # bs ! i # drop (i + 1) bs"
proof -
  have "drop (i - 1) bs = bs ! (i - 1) # drop i bs"
    using assms Cons_nth_drop_Suc [of "i - 1" bs] by simp
  moreover have "drop i bs = bs ! i # drop (i + 1) bs"
    using assms Cons_nth_drop_Suc [of i bs] by simp
  ultimately show ?thesis by (metis append_take_drop_id)
qed

lemma closest_from_pos: "0 < mi \<Longrightarrow> 0 < i \<Longrightarrow> 0 < closest_from fl p i md mi bs"
  by (induction bs arbitrary: p i md mi) (simp_all add: Let_def)

context rounding
begin

lemma add_bin_inv:
  assumes "bins_inv N bs" "N + 1 < 2 ^ 53" "\<bar>n\<bar> \<le> 2 ^ 63"
  shows "bins_inv (N + 1) (add_bin fl n bs)"
  using assms(1,2)
proof (induction bs arbitrary: N)
  case Nil
  then show ?case using assms(3) by (auto simp: bins_inv_Cons intro: exI [of _ "1::nat"])
next
  case (Cons b bs)
  then obtain k M where N: "N = k + M" "1 \<le> k" "bin_Count b = of_nat k" "\<bar>bin_Value b\<bar> \<le> 2 ^ 63"
    and M: "bins_inv M bs" by (auto simp: bins_inv_Cons)
  have "fl (of_nat k + 1) = of_nat (k + 1)"
    using fl_nat [of "k + 1"] Cons.prems(2) N(1) by (simp add: add.commute)
  moreover have "bins_inv (M + 1) (add_bin fl n bs)"
    using Cons.IH [OF M] Cons.prems(2) N(1) by simp
  moreover have "bins_inv (N + 1) (\<lparr>bin_Value = n, bin_Count = 1\<rparr> # b # bs)"
    unfolding bins_inv_Cons [of "N + 1"] using Cons.prems(1) assms(3) by (auto intro!: exI [of _ "1::nat"])
  ultimately show ?case using N M
    by (auto simp: bins_inv_Cons intro: exI [of _ "k + 1"] exI [of _ k])
qed

lemma merge_bins_inv:
  assumes "bin_Count a = of_nat j" "bin_Count b = of_nat k" "1 \<le> j" "1 \<le> k" "j + k < 2 ^ 53"
    and "\<bar>bin_Value a\<bar> \<le> 2 ^ 63" "\<bar>bin_Value b\<bar> \<le> 2 ^ 63"
  shows "bin_Count (merge_bins fl a b) = of_nat (j + k) \<and> \<bar>bin_Value (merge_bins fl a b)\<bar> \<le> 2 ^ 63"
proof -
  have total: "fl (of_nat j + of_nat k) = of_nat (j + k)" using fl_nat [OF assms(5)] by simp
  have part: "\<bar>fl (v * of_nat n)\<bar> \<le> of_nat n * 2 ^ 63" if "\<bar>v\<bar> \<le> 2 ^ 63" "n < 2 ^ 53" for v n
    using fl_bound [of "int n" "v * of_nat n" 63] that
    by (simp add: abs_mult mult.commute [of "\<bar>v\<bar>"] mult_left_mono)
  let ?s = "fl (bin_Value a * of_nat j) + fl (bin_Value b * of_nat k)"
  have "\<bar>?s\<bar> \<le> of_nat j * 2 ^ 63 + of_nat k * 2 ^ 63"
    using part [of "bin_Value a" j] part [of "bin_Value b" k] assms(5-7)
      abs_triangle_ineq [of "fl (bin_Value a * of_nat j)" "fl (bin_Value b * of_nat k)"] by simp
  then have "\<bar>fl ?s\<bar> \<le> of_nat (j + k) * 2 ^ 63"
    using fl_bound [of "int (j + k)" ?s 63] assms(5) by (simp add: distrib_right)
  then have "\<bar>fl ?s / of_nat (j + k)\<bar> \<le> 2 ^ 63"
    using assms(3) by (simp add: abs_divide pos_divide_le_eq mult.commute)
  then have "\<bar>fl (fl ?s / of_nat (j + k))\<bar> \<le> 2 ^ 63"
    using fl_bound [of 1 "fl ?s / of_nat (j + k)" 63] by simp
  then show ?thesis using total assms(1,2) by (simp add: merge_bins_def Let_def)
qed

lemma merge_at_inv:
  assumes "bins_inv N bs" "N < 2 ^ 53" "0 < i" "i < length bs"
  shows "bins_inv N (merge_at fl i bs)"
proof -
  let ?a = "bs ! (i - 1)" and ?b = "bs ! i"
  have "bins_inv N (take (i - 1) bs @ ?a # ?b # drop (i + 1) bs)"
    using assms(1) split_at_pair [OF assms(3,4)] by simp
  then obtain K j k M where N: "N = K + (j + (k + M))" "bins_inv K (take (i - 1) bs)"
    "bins_inv M (drop (i + 1) bs)" and jk: "1 \<le> j" "1 \<le> k" "bin_Count ?a = of_nat j"
    "bin_Count ?b = of_nat k" "\<bar>bin_Value ?a\<bar> \<le> 2 ^ 63" "\<bar>bin_Value ?b\<bar> \<le> 2 ^ 63"
    by (auto simp: bins_inv_append bins_inv_Cons)
  then have "bin_Count (merge_bins fl ?a ?b) = of_nat (j + k) \<and>
      \<bar>bin_Value (merge_bins fl ?a ?b)\<bar> \<le> 2 ^ 63"
    using merge_bins_inv [of ?a j ?b k] assms(2) by simp
  then have "bins_inv (j + k + M) (merge_bins fl ?a ?b # drop (i + 1) bs)"
    using N(3) jk(1) unfolding bins_inv_Cons
    by (intro exI [of _ "j + k"] exI [of _ M]) simp
  then show ?thesis
    unfolding merge_at_def bins_inv_append using N(1,2)
    by (intro exI [of _ K] exI [of _ "j + k + M"]) simp
qed

lemma closest_found:
  assumes "bins_inv N bs" "2 \<le> length bs"
  shows "closest fl bs \<noteq> 0"
proof -
  obtain a b cs where bs: "bs = a # b # cs"
    using assms(2) by (auto simp: numeral_2_eq_2 Suc_le_length_iff)
  have "\<bar>bin_Value b - bin_Value a\<bar> \<le> of_int 1 * 2 ^ 64"
    using assms(1) bs abs_triangle_ineq4 [of "bin_Value b" "bin_Value a"]
    by (auto simp: bins_inv_Cons)
  then have "\<bar>fl (bin_Value b - bin_Value a)\<bar> \<le> of_int 1 * 2 ^ 64" by (intro fl_bound) simp
  then have "fl (bin_Value b - bin_Value a) \<le> 2 ^ 64" by (simp add: abs_le_iff)
  also have "(2 :: rat) ^ 64 < 2 ^ 65" by simp
  also have "2 ^ 65 = fl (2 ^ 65)" using fl_exact [of 1 65] by simp
  also have "\<dots> \<le> initialDelta fl" unfolding initialDelta_def by (intro fl_mono) simp
  finally show ?thesis using bs closest_from_pos [of 1 2] by (simp add: Let_def numeral_2_eq_2)
qed

lemma trim_inv:
  assumes "bins_inv N bs" "N < 2 ^ 53" "1 \<le> maxBins"
  shows "\<exists>bs'. trim fl maxBins bs = Some bs' \<and> bins_inv N bs' \<and> int (length bs') \<le> maxBins"
  using assms(1)
proof (induction "length bs" arbitrary: bs)
  case 0
  then show ?case using assms(3) by (subst trim.simps) auto
next
  case (Suc l)
  show ?case
  proof (cases "int (length bs) > maxBins")
    case True
    then have i: "closest fl bs \<noteq> 0" using closest_found [OF Suc.prems] assms(3) by simp
    let ?bs = "merge_at fl (closest fl bs) bs"
    have "bins_inv N ?bs" "l = length ?bs"
      using i closest_less [OF i] Suc merge_at_inv [OF Suc.prems assms(2)]
      by (simp_all add: length_merge_at)
    then show ?thesis using Suc.hyps(1) [of ?bs] True i by (subst trim.simps) (simp add: Let_def)
  next
    case False
    then show ?thesis using Suc.prems by (subst trim.simps) auto
  qed
qed

lemma Add_inv:
  assumes "hist_inv h" "unat (hist_Total h) + 1 < 2 ^ 53" "\<bar>n\<bar> \<le> 2 ^ 63"
  shows "\<exists>h'. Add fl h n = Some h' \<and> hist_inv h' \<and> hist_MaxBins h' = hist_MaxBins h
    \<and> unat (hist_Total h') = unat (hist_Total h) + 1"
proof -
  have total: "unat (hist_Total h + 1) = unat (hist_Total h) + 1"
    using assms(2) by (simp add: unat_word_ariths)
  have "bins_inv (unat (hist_Total h) + 1) (add_bin fl n (hist_Bins h))"
    using add_bin_inv [OF _ assms(2,3)] assms(1) by (simp add: hist_inv_def)
  then obtain bs where "trim fl (hist_MaxBins h) (add_bin fl n (hist_Bins h)) = Some bs"
    "bins_inv (unat (hist_Total h) + 1) bs" "int (length bs) \<le> hist_MaxBins h"
    using trim_inv [OF _ assms(2)] assms(1) by (auto simp: hist_inv_def)
  then show ?thesis
    using assms(1,2) total by (simp add: Add_def hist_inv_def)
qed

lemma AddAll_inv:
  assumes "hist_inv h" "unat (hist_Total h) + length ns < 2 ^ 53" "\<forall>n\<in>set ns. \<bar>n\<bar> \<le> 2 ^ 63"
  shows "\<exists>h'. AddAll fl h ns = Some h' \<and> hist_inv h' \<and> hist_MaxBins h' = hist_MaxBins h
    \<and> unat (hist_Total h') = unat (hist_Total h) + length ns"
  using assms
proof (induction ns arbitrary: h)
  case (Cons n ns)
  obtain h1 where h1: "Add fl h n = Some h1" "hist_inv h1" "hist_MaxBins h1 = hist_MaxBins h"
    "unat (hist_Total h1) = unat (hist_Total h) + 1"
    using Add_inv [of h n] Cons.prems by auto
  then show ?case using Cons.IH [of h1] Cons.prems by auto
qed auto

end

section \<open>Quantiles\<close>

context rounding
begin

lemma quantile_from_step:
  assumes "bins_inv N (b # bs)" "N < 2 ^ 53" "count \<le> of_nat N"
  shows "\<exists>M. bins_inv M bs \<and> M < 2 ^ 53 \<and> fl (count - bin_Count b) \<le> of_nat M"
proof -
  obtain k M where N: "N = k + M" "bin_Count b = of_nat k" "bins_inv M bs"
    using assms(1) by (auto simp: bins_inv_Cons)
  have "fl (count - bin_Count b) \<le> fl (of_nat M)" by (intro fl_mono) (use N assms(3) in simp)
  then show ?thesis using N assms(2) fl_nat [of M] by auto
qed

lemma quantile_from_mem:
  assumes "bins_inv N bs" "N < 2 ^ 53" "count \<le> of_nat N" "bs \<noteq> []"
  shows "quantile_from fl count bs \<in> bin_Value ` set bs"
  using assms
proof (induction bs arbitrary: N count)
  case (Cons b bs)
  obtain M where M: "bins_inv M bs" "M < 2 ^ 53" "fl (count - bin_Count b) \<le> of_nat M"
    using quantile_from_step Cons.prems(1-3) by blast
  show ?case
  proof (cases "fl (count - bin_Count b) \<le> 0")
    case False
    then have "bs \<noteq> []" using M(1,3) by auto
    then show ?thesis using Cons.IH [OF M] False by (simp add: Let_def)
  qed (simp add: Let_def)
qed simp

lemma quantile_from_mono:
  assumes "bins_inv N bs" "N < 2 ^ 53" "d \<le> of_nat N" "count \<le> d" "sorted (map bin_Value bs)" "bs \<noteq> []"
  shows "quantile_from fl count bs \<le> quantile_from fl d bs"
  using assms
proof (induction bs arbitrary: N count d)
  case (Cons b bs)
  obtain M where M: "bins_inv M bs" "M < 2 ^ 53" "fl (d - bin_Count b) \<le> of_nat M"
    using quantile_from_step Cons.prems(1-3) by blast
  have le: "fl (count - bin_Count b) \<le> fl (d - bin_Count b)"
    using Cons.prems(4) by (intro fl_mono) simp
  show ?case
  proof (cases "fl (d - bin_Count b) \<le> 0")
    case False
    then have ne: "bs \<noteq> []" using M(1,3) by auto
    have "bin_Value b \<le> quantile_from fl (fl (d - bin_Count b)) bs"
      using quantile_from_mem [OF M ne] Cons.prems(5) by auto
    then show ?thesis
      using False Cons.IH [OF M le _ ne] Cons.prems(5) by (simp add: Let_def)
  qed (use le in \<open>simp add: Let_def\<close>)
qed simp

lemma Quantile_count_bound:
  assumes "hist_inv h" "q \<le> 1"
  shows "fl (q * Count fl h) \<le> of_nat (unat (hist_Total h))"
proof -
  have c: "Count fl h = of_nat (unat (hist_Total h))"
    using fl_nat [of "unat (hist_Total h)"] assms(1) by (simp add: Count_def hist_inv_def)
  have "fl (q * Count fl h) \<le> fl (of_nat (unat (hist_Total h)))"
    unfolding c using mult_right_mono [OF assms(2) of_nat_0_le_iff, of "unat (hist_Total h)"]
    by (intro fl_mono) simp
  then show ?thesis using c by (simp add: Count_def)
qed

lemma Quantile_mem:
  assumes "hist_inv h" "q \<le> 1" "hist_Bins h \<noteq> []"
  shows "Quantile fl h q \<in> bin_Value ` set (hist_Bins h)"
  unfolding Quantile_def
  using quantile_from_mem Quantile_count_bound [OF assms(1,2)] assms by (auto simp: hist_inv_def)

lemma Quantile_mono:
  assumes "hist_inv h" "p \<le> q" "q \<le> 1" "sorted (map bin_Value (hist_Bins h))" "hist_Bins h \<noteq> []"
  shows "Quantile fl h p \<le> Quantile fl h q"
proof -
  have "0 \<le> Count fl h" unfolding Count_def by (intro fl_nonneg of_nat_0_le_iff)
  then have "fl (p * Count fl h) \<le> fl (q * Count fl h)"
    using assms(2) by (intro fl_mono mult_right_mono)
  then show ?thesis
    unfolding Quantile_def
    using quantile_from_mono Quantile_count_bound [OF assms(1,3)] assms by (auto simp: hist_inv_def)
qed

end

section \<open>Exact arithmetic: the mean is not changed by merging\<close>

definition weight :: "Bin list \<Rightarrow> rat" where
  "weight bs = sum_list (map (\<lambda>b. bin_Value b * bin_Count b) bs)"

definition ascending :: "Bin list \<Rightarrow> bool" where
  "ascending bs \<longleftrightarrow> sorted_wrt (<) (map bin_Value bs)"

lemma trim_preserves:
  assumes "\<And>i bs. P bs \<Longrightarrow> 0 < i \<Longrightarrow> i < length bs \<Longrightarrow> P (merge_at fl i bs)"
    and "P bs" "trim fl m bs = Some bs'"
  shows "P bs'"
  using assms(2,3)
proof (induction "length bs" arbitrary: bs rule: less_induct)
  case less
  show ?case
  proof (cases "int (length bs) > m")
    case True
    then have i: "closest fl bs \<noteq> 0" "trim fl m (merge_at fl (closest fl bs) bs) = Some bs'"
      using less.prems(2) by (auto simp: trim.simps [of fl m bs] Let_def split: if_splits)
    then show ?thesis
      using less.hyps assms(1) less.prems(1) closest_less [OF i(1)]
      by (metis length_merge_at diff_less bot_nat_0.not_eq_extremum less_numeral_extra(1)
          gr_implies_not_zero)
  next
    case False
    then show ?thesis using less.prems by (simp add: trim.simps [of fl m bs])
  qed
qed

lemma weight_add_bin: "weight (add_bin id n bs) = weight bs + n"
  by (induction bs) (auto simp: weight_def algebra_simps)

lemma values_add_bin: "bin_Value ` set (add_bin fl n bs) = insert n (bin_Value ` set bs)"
  by (induction bs) auto

lemma ascending_Cons:
  "ascending (b # bs) \<longleftrightarrow> (\<forall>v\<in>bin_Value ` set bs. bin_Value b < v) \<and> ascending bs"
  by (simp add: ascending_def)

lemma ascending_add_bin: "ascending bs \<Longrightarrow> ascending (add_bin id n bs)"
proof (induction bs)
  case (Cons b bs)
  note asc = Cons.prems [unfolded ascending_Cons]
  consider "bin_Value b = n" | "bin_Value b > n" | "bin_Value b < n" by linarith
  then show ?case
  proof cases
    case 3
    then show ?thesis using asc Cons.IH by (simp add: ascending_Cons values_add_bin)
  qed (use asc in \<open>auto simp: ascending_Cons intro: less_trans\<close>)
qed (simp add: ascending_def)

lemma merge_bins_exact:
  assumes "0 < bin_Count a" "0 < bin_Count b"
  shows "bin_Value (merge_bins id a b) * bin_Count (merge_bins id a b) =
      bin_Value a * bin_Count a + bin_Value b * bin_Count b"
    and "bin_Value a < bin_Value b \<Longrightarrow>
      bin_Value a < bin_Value (merge_bins id a b) \<and> bin_Value (merge_bins id a b) < bin_Value b"
proof -
  have pos: "0 < bin_Count a + bin_Count b" using assms by simp
  then show "bin_Value (merge_bins id a b) * bin_Count (merge_bins id a b) =
      bin_Value a * bin_Count a + bin_Value b * bin_Count b"
    by (simp add: merge_bins_def Let_def)
  assume less: "bin_Value a < bin_Value b"
  then have "bin_Value a * bin_Count b < bin_Value b * bin_Count b"
    "bin_Value a * bin_Count a < bin_Value b * bin_Count a" using assms by simp_all
  then show "bin_Value a < bin_Value (merge_bins id a b) \<and> bin_Value (merge_bins id a b) < bin_Value b"
    using pos by (simp add: merge_bins_def Let_def pos_less_divide_eq pos_divide_less_eq distrib_left)
qed

definition exact_inv :: "nat \<Rightarrow> rat \<Rightarrow> Bin list \<Rightarrow> bool" where
  "exact_inv N W bs \<longleftrightarrow> bins_inv N bs \<and> weight bs = W \<and> ascending bs"

lemma exact_inv_merge_at:
  assumes "N < 2 ^ 53" "exact_inv N W bs" "0 < i" "i < length bs"
  shows "exact_inv N W (merge_at id i bs)"
proof -
  let ?a = "bs ! (i - 1)" and ?b = "bs ! i"
  have split: "bs = take (i - 1) bs @ ?a # ?b # drop (i + 1) bs"
    by (rule split_at_pair [OF assms(3,4)])
  have "good_bin ?a" "good_bin ?b"
    using assms(2-4) by (auto simp: exact_inv_def bins_inv_def)
  then have pos: "0 < bin_Count ?a" "0 < bin_Count ?b" by (auto simp: good_bin_def)
  have asc: "ascending (take (i - 1) bs @ ?a # ?b # drop (i + 1) bs)"
    using assms(2) split by (simp add: exact_inv_def)
  then have "bin_Value ?a < bin_Value ?b" by (simp add: ascending_def sorted_wrt_append)
  note mid = merge_bins_exact(2) [OF pos this]
  have "ascending (merge_at id i bs)"
    using asc mid by (fastforce simp: ascending_def merge_at_def sorted_wrt_append)
  moreover have "weight (take (i - 1) bs @ ?a # ?b # drop (i + 1) bs) = W"
    using assms(2) split by (simp add: exact_inv_def)
  then have "weight (merge_at id i bs) = W"
    using merge_bins_exact(1) [OF pos] by (simp add: weight_def merge_at_def)
  ultimately show ?thesis
    using exact.merge_at_inv [OF _ assms(1,3,4)] assms(2) by (simp add: exact_inv_def)
qed

lemma Add_exact:
  assumes "exact_inv N W (hist_Bins h)" "N + 1 < 2 ^ 53" "\<bar>n\<bar> \<le> 2 ^ 63" "Add id h n = Some h'"
  shows "exact_inv (N + 1) (W + n) (hist_Bins h')"
proof -
  obtain bs where bs: "trim id (hist_MaxBins h) (add_bin id n (hist_Bins h)) = Some bs" "hist_Bins h' = bs"
    using assms(4) by (auto simp: Add_def split: option.splits)
  have "exact_inv (N + 1) (W + n) (add_bin id n (hist_Bins h))"
    using assms(1) exact.add_bin_inv [OF _ assms(2,3)]
    by (simp add: exact_inv_def weight_add_bin ascending_add_bin)
  then show ?thesis
    using trim_preserves [OF _ _ bs(1), of "exact_inv (N + 1) (W + n)"] exact_inv_merge_at [OF assms(2)]
      bs(2) by blast
qed

lemma AddAll_exact:
  assumes "exact_inv N W (hist_Bins h)" "N + length ns < 2 ^ 53" "\<forall>n\<in>set ns. \<bar>n\<bar> \<le> 2 ^ 63"
    and "AddAll id h ns = Some h'"
  shows "exact_inv (N + length ns) (W + sum_list ns) (hist_Bins h')"
  using assms
proof (induction ns arbitrary: N W h)
  case (Cons n ns)
  from Cons.prems(4) obtain h1 where h1: "Add id h n = Some h1" "AddAll id h1 ns = Some h'"
    by (cases "Add id h n") (simp_all add: id_def)
  have "exact_inv (N + 1) (W + n) (hist_Bins h1)"
    using Add_exact [OF Cons.prems(1) _ _ h1(1)] Cons.prems(2,3) by simp
  then show ?case using Cons.IH [OF _ _ _ h1(2), of "N + 1" "W + n"] Cons.prems(2,3) by (simp add: add.assoc)
qed simp

lemma Mean_exact:
  "exact_inv (unat (hist_Total h)) W (hist_Bins h) \<Longrightarrow> hist_Total h \<noteq> 0 \<Longrightarrow>
     Mean id h = W / of_nat (unat (hist_Total h))"
proof -
  assume "exact_inv (unat (hist_Total h)) W (hist_Bins h)" "hist_Total h \<noteq> 0"
  moreover have "foldl (\<lambda>s b. s + bin_Value b * bin_Count b) a bs = a + weight bs" for a bs
    by (induction bs arbitrary: a) (simp_all add: weight_def)
  ultimately show ?thesis by (simp add: Mean_def Count_def exact_inv_def)
qed

section \<open>Properties\<close>

lemma hist_inv_NewHistogram: "1 \<le> m \<Longrightarrow> hist_inv (NewHistogram m)"
  by (simp add: hist_inv_def NewHistogram_def)

text \<open>
  C19. The histogram in float64 arithmetic: starting from \<open>NewHistogram m\<close> with at least one bin, adding
  fewer than \<open>2 ^ 53\<close> values that fit an \<^verbatim>\<open>int64\<close> never panics, \<open>trim\<close> terminates, there are
  never more than \<open>m\<close> bins, \<open>Total\<close> is the number of values, and the counts of the bins are positive
  and add up to it exactly.
\<close>

theorem histogram_bounded:
  assumes "1 \<le> m" and "length ns < 2 ^ 53" and "\<forall>n\<in>set ns. \<bar>n\<bar> \<le> 2 ^ 63"
  shows "\<exists>h. AddAll f64 (NewHistogram m) ns = Some h \<and> int (length (hist_Bins h)) \<le> m
    \<and> unat (hist_Total h) = length ns
    \<and> sum_list (map bin_Count (hist_Bins h)) = of_nat (length ns)
    \<and> list_all (\<lambda>b. 1 \<le> bin_Count b) (hist_Bins h)"
proof -
  obtain h where h: "AddAll f64 (NewHistogram m) ns = Some h" "hist_inv h" "hist_MaxBins h = m"
    "unat (hist_Total h) = length ns"
    using f64.AddAll_inv [OF hist_inv_NewHistogram [OF assms(1)], of ns] assms(2,3)
    by (auto simp: NewHistogram_def)
  then have "list_all (\<lambda>b. 1 \<le> bin_Count b) (hist_Bins h)"
    by (auto simp: hist_inv_def bins_inv_def good_bin_def list_all_iff)
  with h show ?thesis by (auto simp: hist_inv_def bins_inv_def)
qed

theorem histogram_bounded_witness:
  "\<exists>h. AddAll f64 (NewHistogram 1) [3, 5, 3] = Some h \<and> int (length (hist_Bins h)) \<le> 1
    \<and> unat (hist_Total h) = 3 \<and> sum_list (map bin_Count (hist_Bins h)) = 3"
  using histogram_bounded [of 1 "[3, 5, 3]"] by fastforce

text \<open>
  C20. In exact arithmetic merging bins loses nothing of the mean: after any values were added, however
  often bins were merged, \<open>Mean\<close> is the arithmetic mean of all of them, and the bins are in
  strictly ascending order.
\<close>

theorem mean_of_all_samples:
  assumes "1 \<le> m" and "length ns < 2 ^ 53" and "\<forall>n\<in>set ns. \<bar>n\<bar> \<le> 2 ^ 63" and "ns \<noteq> []"
  shows "\<exists>h. AddAll id (NewHistogram m) ns = Some h
    \<and> Mean id h = sum_list ns / of_nat (length ns) \<and> ascending (hist_Bins h)"
proof -
  obtain h where h: "AddAll id (NewHistogram m) ns = Some h" "unat (hist_Total h) = length ns"
    using exact.AddAll_inv [OF hist_inv_NewHistogram [OF assms(1)], of ns] assms(2,3)
    by (auto simp: NewHistogram_def)
  have "exact_inv 0 0 (hist_Bins (NewHistogram m))"
    by (simp add: exact_inv_def NewHistogram_def weight_def ascending_def)
  from AddAll_exact [OF this _ assms(3) h(1)] have inv: "exact_inv (length ns) (sum_list ns) (hist_Bins h)"
    using assms(2) by simp
  moreover have "hist_Total h \<noteq> 0" using h(2) assms(4) by auto
  ultimately have "Mean id h = sum_list ns / of_nat (length ns)"
    using Mean_exact [of h "sum_list ns"] h(2) by metis
  with h(1) inv show ?thesis by (auto simp: exact_inv_def)
qed

theorem mean_of_all_samples_witness:
  "\<exists>h. AddAll id (NewHistogram 2) [1, 4, 10] = Some h \<and> Mean id h = 5 \<and> ascending (hist_Bins h)"
  using mean_of_all_samples [of 2 "[1, 4, 10]"] by simp



end
