(* ===== verification/Stats.thy ===== *)
theory Stats
  imports Histogram
begin

text \<open>
  The statistics of a connector (\<^verbatim>\<open>src/nats-mq/core/stats.go\<close>). The counters are \<^verbatim>\<open>int64\<close>; the moving
  average and the quantiles are floats, computed with the rounding \<open>fl\<close> that the operations take
  (\<open>f64\<close> is the code's). A duration is its number of nanoseconds, an \<^verbatim>\<open>int64\<close>.
\<close>

section \<open>Data and operations\<close>

record ConnectorStats =
  st_Name :: string
  st_ID :: string
  st_Connected :: bool
  st_Connects :: i64
  st_Disconnects :: i64
  st_BytesIn :: i64
  st_BytesOut :: i64
  st_MessagesIn :: i64
  st_MessagesOut :: i64
  st_RequestCount :: i64
  st_MovingAverage :: rat
  st_Quintile50 :: rat
  st_Quintile75 :: rat
  st_Quintile90 :: rat
  st_Quintile95 :: rat
  st_histogram :: Histogram

definition NewConnectorStats :: ConnectorStats where
  "NewConnectorStats = \<lparr>st_Name = '''', st_ID = '''', st_Connected = False, st_Connects = 0,
     st_Disconnects = 0, st_BytesIn = 0, st_BytesOut = 0, st_MessagesIn = 0, st_MessagesOut = 0,
     st_RequestCount = 0, st_MovingAverage = 0, st_Quintile50 = 0, st_Quintile75 = 0,
     st_Quintile90 = 0, st_Quintile95 = 0, st_histogram = NewHistogram 60\<rparr>"

definition AddMessageIn :: "ConnectorStats \<Rightarrow> i64 \<Rightarrow> ConnectorStats" where
  "AddMessageIn s n = s\<lparr>st_MessagesIn := st_MessagesIn s + 1, st_BytesIn := st_BytesIn s + n\<rparr>"

definition AddMessageOut :: "ConnectorStats \<Rightarrow> i64 \<Rightarrow> ConnectorStats" where
  "AddMessageOut s n = s\<lparr>st_MessagesOut := st_MessagesOut s + 1, st_BytesOut := st_BytesOut s + n\<rparr>"

definition AddDisconnect :: "ConnectorStats \<Rightarrow> ConnectorStats" where
  "AddDisconnect s = s\<lparr>st_Disconnects := st_Disconnects s + 1, st_Connected := False\<rparr>"

definition AddConnect :: "ConnectorStats \<Rightarrow> ConnectorStats" where
  "AddConnect s = s\<lparr>st_Connects := st_Connects s + 1, st_Connected := True\<rparr>"

definition AddRequestTime :: "(rat \<Rightarrow> rat) \<Rightarrow> ConnectorStats \<Rightarrow> i64 \<Rightarrow> ConnectorStats option" where
  "AddRequestTime fl s reqTime =
     (let reqns = fl (of_int (sint reqTime));
          n = st_RequestCount s + 1;
          avg = fl (fl (fl (fl (of_int (sint (n - 1))) * st_MovingAverage s) + reqns) / fl (of_int (sint n)))
      in case Add fl (st_histogram s) reqns of
           None \<Rightarrow> None
         | Some h \<Rightarrow> Some (s\<lparr>st_RequestCount := n, st_MovingAverage := avg, st_histogram := h\<rparr>))"

definition UpdateQuintiles :: "(rat \<Rightarrow> rat) \<Rightarrow> ConnectorStats \<Rightarrow> ConnectorStats" where
  "UpdateQuintiles fl s = s\<lparr>
     st_Quintile50 := Quantile fl (st_histogram s) (fl (1 / 2)),
     st_Quintile75 := Quantile fl (st_histogram s) (fl (3 / 4)),
     st_Quintile90 := Quantile fl (st_histogram s) (fl (9 / 10)),
     st_Quintile95 := Quantile fl (st_histogram s) (fl (19 / 20))\<rparr>"

fun AddRequestTimes :: "(rat \<Rightarrow> rat) \<Rightarrow> ConnectorStats \<Rightarrow> i64 list \<Rightarrow> ConnectorStats option" where
  "AddRequestTimes fl s [] = Some s"
| "AddRequestTimes fl s (t # ts) =
     (case AddRequestTime fl s t of None \<Rightarrow> None | Some s' \<Rightarrow> AddRequestTimes fl s' ts)"

section \<open>Facts\<close>

lemmas stats_defs = AddMessageIn_def AddMessageOut_def AddDisconnect_def AddConnect_def

text \<open>The histogram and the request counter move together.\<close>

definition stats_inv :: "ConnectorStats \<Rightarrow> bool" where
  "stats_inv s \<longleftrightarrow> hist_inv (st_histogram s) \<and> hist_MaxBins (st_histogram s) = 60
     \<and> st_RequestCount s = hist_Total (st_histogram s)"

lemma stats_inv_NewConnectorStats: "stats_inv NewConnectorStats"
  by (simp add: stats_inv_def NewConnectorStats_def hist_inv_NewHistogram)
    (simp add: NewHistogram_def)

lemma sint_bound: "\<bar>of_int (sint (t :: i64)) :: rat\<bar> \<le> 2 ^ 63"
proof -
  have "\<bar>sint t\<bar> \<le> 2 ^ 63" using sint_lt [of t] sint_ge [of t] by simp
  then have "of_int \<bar>sint t\<bar> \<le> (of_int (2 ^ 63) :: rat)" by (simp only: of_int_le_iff)
  then show ?thesis by simp
qed

lemma sint_small: "unat (w :: i64) < 2 ^ 53 \<Longrightarrow> sint w = int (unat w)"
proof -
  assume "unat w < 2 ^ 53"
  then have "int (unat w) < int (2 ^ 53)" by (simp only: of_nat_less_iff)
  then have "uint w < 2 ^ 63" by simp
  moreover have "- (2 ^ 63) \<le> uint w" by (rule order_trans [OF _ uint_ge_0]) simp
  ultimately have "signed_take_bit 63 (uint w) = uint w" by (intro signed_take_bit_int_eq_self)
  then show ?thesis by (simp add: sint_uint)
qed

context rounding
begin

lemma fl_int64_bound: "\<bar>fl (of_int (sint (t :: i64)))\<bar> \<le> 2 ^ 63"
  using fl_bound [of 1 "of_int (sint t)" 63] sint_bound [of t] by simp

lemma AddRequestTime_inv:
  assumes "stats_inv s" "unat (st_RequestCount s) + 1 < 2 ^ 53"
  shows "\<exists>s'. AddRequestTime fl s t = Some s' \<and> stats_inv s'
    \<and> unat (st_RequestCount s') = unat (st_RequestCount s) + 1"
proof -
  obtain h where h: "Add fl (st_histogram s) (fl (of_int (sint t))) = Some h" "hist_inv h"
    "hist_MaxBins h = 60" "unat (hist_Total h) = unat (st_RequestCount s) + 1"
    using Add_inv [OF _ _ fl_int64_bound, of "st_histogram s" t] assms by (auto simp: stats_inv_def)
  have "hist_Total h = st_RequestCount s + 1"
    using h(1) assms(1) by (auto simp: Add_def stats_inv_def split: option.splits)
  then show ?thesis using h by (auto simp: AddRequestTime_def stats_inv_def Let_def)
qed

lemma AddRequestTimes_inv:
  assumes "stats_inv s" "unat (st_RequestCount s) + length ts < 2 ^ 53"
  shows "\<exists>s'. AddRequestTimes fl s ts = Some s' \<and> stats_inv s'
    \<and> unat (st_RequestCount s') = unat (st_RequestCount s) + length ts"
  using assms
proof (induction ts arbitrary: s)
  case (Cons t ts)
  obtain s1 where s1: "AddRequestTime fl s t = Some s1" "stats_inv s1"
    "unat (st_RequestCount s1) = unat (st_RequestCount s) + 1"
    using AddRequestTime_inv [of s t] Cons.prems by auto
  then show ?case using Cons.IH [of s1] Cons.prems by auto
qed auto

lemma Quantile_chain:
  assumes "hist_inv h" "sorted (map bin_Value (hist_Bins h))" "hist_Bins h \<noteq> []"
  shows "Quantile fl h (fl (1 / 2)) \<le> Quantile fl h (fl (3 / 4))
    \<and> Quantile fl h (fl (3 / 4)) \<le> Quantile fl h (fl (9 / 10))
    \<and> Quantile fl h (fl (9 / 10)) \<le> Quantile fl h (fl (19 / 20))
    \<and> Quantile fl h (fl (19 / 20)) \<in> bin_Value ` set (hist_Bins h)"
proof -
  have le1: "fl x \<le> 1" if "x \<le> 1" for x using fl_mono [OF that] by simp
  show ?thesis
    using Quantile_mono [OF assms(1) fl_mono le1 assms(2,3)] Quantile_mem [OF assms(1) le1 assms(3)]
    by simp
qed

end

lemma AddRequestTime_average:
  assumes "AddRequestTime id s t = Some s'" "unat (st_RequestCount s) + 1 < 2 ^ 53"
    and "st_MovingAverage s * of_nat (unat (st_RequestCount s)) = S"
  shows "st_MovingAverage s' * of_nat (unat (st_RequestCount s')) = S + of_int (sint t)"
proof -
  let ?n = "st_RequestCount s"
  define N where "N = unat ?n"
  have u: "unat (?n + 1) = N + 1" using assms(2) by (simp add: unat_word_ariths N_def)
  have c: "sint ?n = int N" "sint (?n + 1) = int (N + 1)"
    using sint_small [of ?n] sint_small [of "?n + 1"] u assms(2) by (simp_all add: N_def)
  have "st_MovingAverage s' = (of_int (sint ?n) * st_MovingAverage s + of_int (sint t)) / of_int (sint (?n + 1))"
    and n: "st_RequestCount s' = ?n + 1"
    using assms(1) by (auto simp: AddRequestTime_def Let_def split: option.splits)
  then have "st_MovingAverage s' = (of_nat N * st_MovingAverage s + of_int (sint t)) / of_nat (N + 1)"
    by (simp only: c of_int_of_nat_eq)
  then have "st_MovingAverage s' * of_nat (N + 1) = of_nat N * st_MovingAverage s + of_int (sint t)"
    by (simp add: nonzero_divide_eq_eq del: of_nat_add)
  then show ?thesis unfolding n u assms(3) [symmetric] N_def [symmetric] by (simp add: mult.commute)
qed

lemma AddRequestTimes_average:
  assumes "AddRequestTimes id s ts = Some s'" "stats_inv s"
    and "unat (st_RequestCount s) + length ts < 2 ^ 53"
    and "st_MovingAverage s * of_nat (unat (st_RequestCount s)) = S"
  shows "st_MovingAverage s' * of_nat (unat (st_RequestCount s')) =
    S + sum_list (map (\<lambda>t. of_int (sint t)) ts)"
  using assms
proof (induction ts arbitrary: s S)
  case (Cons t ts)
  obtain s1 where s1: "AddRequestTime id s t = Some s1" "stats_inv s1"
    "unat (st_RequestCount s1) = unat (st_RequestCount s) + 1"
    using exact.AddRequestTime_inv [of s t] Cons.prems(2,3) by auto
  have rest: "AddRequestTimes id s1 ts = Some s'" using Cons.prems(1) s1(1) by (simp add: id_def)
  show ?case
    using Cons.IH [OF rest s1(2) _ AddRequestTime_average [OF s1(1) _ Cons.prems(4)]] Cons.prems(3) s1(3)
    by (simp add: add.assoc)
qed simp

section \<open>Properties\<close>

text \<open>
  C29. Request times in float64: a connector can register fewer than \<open>2 ^ 53\<close> request times of any
  \<^verbatim>\<open>int64\<close> length; it never panics, the request count is exact and equals the histogram's total,
  and the histogram stays at 60 bins or fewer.
\<close>

theorem request_times_safe:
  assumes "length ts < 2 ^ 53"
  shows "\<exists>s. AddRequestTimes f64 NewConnectorStats ts = Some s
    \<and> unat (st_RequestCount s) = length ts \<and> st_RequestCount s = hist_Total (st_histogram s)
    \<and> length (hist_Bins (st_histogram s)) \<le> 60"
  using f64.AddRequestTimes_inv [OF stats_inv_NewConnectorStats, of ts] assms
  by (auto simp: NewConnectorStats_def stats_inv_def hist_inv_def)

theorem request_times_safe_witness:
  "\<exists>s. AddRequestTimes f64 NewConnectorStats [5, - 1] = Some s \<and> unat (st_RequestCount s) = 2
    \<and> length (hist_Bins (st_histogram s)) \<le> 60"
  using request_times_safe [of "[5, - 1]"] by auto

text \<open>
  C30. The running average that \<open>AddRequestTime\<close> keeps is, in exact arithmetic, the mean of all request
  times registered so far.
\<close>

theorem moving_average_is_mean:
  assumes "length ts < 2 ^ 53" and "ts \<noteq> []"
  shows "\<exists>s. AddRequestTimes id NewConnectorStats ts = Some s
    \<and> st_MovingAverage s = sum_list (map (\<lambda>t. of_int (sint t)) ts) / of_nat (length ts)"
proof -
  obtain s where s: "AddRequestTimes id NewConnectorStats ts = Some s"
    "unat (st_RequestCount s) = length ts"
    using exact.AddRequestTimes_inv [OF stats_inv_NewConnectorStats, of ts] assms(1)
    by (auto simp: NewConnectorStats_def)
  have "st_MovingAverage s * of_nat (unat (st_RequestCount s)) =
      0 + sum_list (map (\<lambda>t. of_int (sint t)) ts)"
    by (rule AddRequestTimes_average [OF s(1) stats_inv_NewConnectorStats])
      (use assms(1) in \<open>simp_all add: NewConnectorStats_def\<close>)
  then have "st_MovingAverage s * of_nat (length ts) = sum_list (map (\<lambda>t. of_int (sint t)) ts)"
    unfolding s(2) by simp
  then have "st_MovingAverage s = sum_list (map (\<lambda>t. of_int (sint t)) ts) / of_nat (length ts)"
    using assms(2) by (simp add: eq_divide_eq)
  with s(1) show ?thesis by blast
qed

theorem moving_average_is_mean_witness:
  "\<exists>s. AddRequestTimes id NewConnectorStats [2, 6] = Some s \<and> st_MovingAverage s = 4"
  using moving_average_is_mean [of "[2, 6]"] by simp

text \<open>
  The published quantiles are ordered: in float64, when the histogram has a value and its bins are in
  order, \<^verbatim>\<open>q50 <= q75 <= q90 <= q95\<close>, and \<^verbatim>\<open>q95\<close> is the value of a bin (never the -1 that \<open>Quantile\<close>
  returns when it runs past the last bin).
\<close>

theorem quintiles_ordered:
  assumes "hist_inv (st_histogram s)" and "hist_Bins (st_histogram s) \<noteq> []"
    and "sorted (map bin_Value (hist_Bins (st_histogram s)))"
    and "u = UpdateQuintiles f64 s"
  shows "st_Quintile50 u \<le> st_Quintile75 u \<and> st_Quintile75 u \<le> st_Quintile90 u
    \<and> st_Quintile90 u \<le> st_Quintile95 u
    \<and> st_Quintile95 u \<in> bin_Value ` set (hist_Bins (st_histogram s))"
  using f64.Quantile_chain [OF assms(1,3,2)] by (simp add: assms(4) UpdateQuintiles_def)

theorem quintiles_ordered_witness:
  "\<exists>s. st_Quintile50 (UpdateQuintiles f64 s) \<le> st_Quintile75 (UpdateQuintiles f64 s)
     \<and> st_Quintile95 (UpdateQuintiles f64 s) = 5"
proof -
  define h where "h = \<lparr>hist_Bins = [\<lparr>bin_Value = 5, bin_Count = 1\<rparr>], hist_MaxBins = 60, hist_Total = 1\<rparr>"
  define s where "s = NewConnectorStats\<lparr>st_histogram := h\<rparr>"
  have "hist_inv (st_histogram s)"
    by (auto simp: s_def h_def hist_inv_def bins_inv_Cons intro: exI [of _ "1::nat"])
  then have "st_Quintile50 (UpdateQuintiles f64 s) \<le> st_Quintile75 (UpdateQuintiles f64 s)
     \<and> st_Quintile95 (UpdateQuintiles f64 s) = 5"
    using quintiles_ordered [of s "UpdateQuintiles f64 s"] by (simp add: s_def h_def)
  then show ?thesis by blast
qed

end
