(* ===== verification/Connector.thy ===== *)
theory Connector
  imports MsgConv Stats
begin

text \<open>
  What all connectors share: the connection to the queue manager (\<^verbatim>\<open>src/nats-mq/core/connect.go\<close>) and
  the base type \<^verbatim>\<open>BridgeConnector\<close> with its helpers (\<^verbatim>\<open>src/nats-mq/core/connector.go\<close>).

  A connector drives three libraries (IBM MQ, NATS, NATS streaming). The model keeps the list of the
  calls a connector has made, oldest first, in the field \<open>bc_calls\<close>; the record \<open>env\<close> answers each call
  and may look at all calls made before, so a library may fail at any point and in any pattern. A
  resource is named by the position in the list of the call that created it: no two resources share
  a name. The record \<open>bridge_view\<close> is what a connector reads of the bridge server.
\<close>

section \<open>Calls to the libraries\<close>

datatype open_mode = MQOO_OUTPUT | MQOO_INPUT_SHARED

datatype mqobj = QueueObj nat | TopicObj nat | SubObj nat

datatype start_option =
    DurableName string
  | StartAtTime int
  | StartWithLastReceived
  | StartAtSequence i64
  | DeliverAllAvailable
  | SetManualAckMode

text \<open>
  One constructor per library call; the flag says whether the call succeeded. \<open>Ctl\<close> starts and stops
  the delivery of callbacks, \<open>Poll\<close> is the goroutine that polls.
\<close>

datatype call =
    Connx string bool
  | Disc nat
  | CrtMH_call bool
  | DltMH handle
  | OpenQueue string open_mode bool
  | OpenTopic string bool
  | SubTopic string bool
  | Close mqobj
  | RegisterCB mqobj bool
  | CtlStart nat bool
  | CtlStop nat
  | PollStart mqobj int i32
  | PollStop
  | NatsSubscribe string string bool
  | NatsUnsubscribe nat
  | StanSubscribe string "start_option list" bool
  | StanUnsubscribe nat

section \<open>Connection options\<close>

record MQCD =
  cd_ChannelName :: string
  cd_ConnectionName :: string
  cd_SSLCipherSpec :: string
  cd_SSLPeerName :: string
  cd_CertificateLabel :: string
  cd_SSLClientAuthRequired :: bool

text \<open>User and password, and key repository and certificate label, are there or not.\<close>

record MQCNO =
  cno_SecurityParms :: "(string \<times> string) option"
  cno_SSLConfig :: "(string \<times> string) option"
  cno_ClientConn :: MQCD

text \<open>
  The environment: the MQ library for the conversions as it is after the given calls, and the answer
  of every other call. MQ calls answer with a completion code and a reason code when they fail;
  \<open>ext_nats_sub\<close> and \<open>ext_stan_sub\<close> are the subscription calls.
\<close>

record env =
  ext_mqlib :: "call list \<Rightarrow> mqlib"
  ext_Connx :: "call list \<Rightarrow> string \<Rightarrow> MQCNO \<Rightarrow> (i32 \<times> i32) option"
  ext_Open :: "call list \<Rightarrow> call \<Rightarrow> go_error option"
  ext_Close :: "call list \<Rightarrow> mqobj \<Rightarrow> go_error option"
  ext_Ctl :: "call list \<Rightarrow> go_error option"
  ext_CB :: "call list \<Rightarrow> mqobj \<Rightarrow> go_error option"
  ext_nats_sub :: "call list \<Rightarrow> string \<Rightarrow> string \<Rightarrow> go_error option"
  ext_stan_sub :: "call list \<Rightarrow> string \<Rightarrow> start_option list \<Rightarrow> go_error option"
  MQCC_WARNING :: i32
  MQRC_SSL_ALREADY_INITIALIZED :: i32
  MQRC_NO_MSG_AVAILABLE :: i32
  MQCC_OK :: i32

record bridge_view =
  bv_CheckNATS :: bool
  bv_CheckStan :: bool
  bv_Stan :: bool
  bv_replyToInfo :: replyToInfo

definition connectionOptions :: "MQConfig \<Rightarrow> MQCNO" where
  "connectionOptions c =
     (let tls = (mq_KeyRepository c \<noteq> '''') in
      \<lparr>cno_SecurityParms =
         (if mq_UserName c \<noteq> '''' then Some (mq_UserName c, mq_Password c) else None),
       cno_SSLConfig = (if tls then Some (mq_KeyRepository c, mq_CertificateLabel c) else None),
       cno_ClientConn =
         \<lparr>cd_ChannelName = mq_ChannelName c,
          cd_ConnectionName = mq_ConnectionName c,
          cd_SSLCipherSpec = (if tls then ''TLS_RSA_WITH_AES_128_CBC_SHA256'' else ''''),
          cd_SSLPeerName = (if tls then mq_SSLPeerName c else ''''),
          cd_CertificateLabel = (if tls then mq_CertificateLabel c else ''''),
          cd_SSLClientAuthRequired = tls\<rparr>\<rparr>)"

text \<open>
  A warning that the TLS environment was set up before is not an error if the connection works, which
  the code tests by making a message handle.
\<close>

definition ConnectToQueueManager :: "env \<Rightarrow> MQConfig \<Rightarrow> call list \<Rightarrow> nat outcome \<times> call list" where
  "ConnectToQueueManager ev c calls =
     (case ext_Connx ev calls (mq_QueueManager c) (connectionOptions c) of
        None \<Rightarrow> (Ok (length calls), calls @ [Connx (mq_QueueManager c) True])
      | Some (cc, rc) \<Rightarrow>
          if cc = MQCC_WARNING ev \<and> rc = MQRC_SSL_ALREADY_INITIALIZED ev then
            (let calls' = calls @ [Connx (mq_QueueManager c) True] in
             case CrtMH (ext_mqlib ev calls') of
               Inl _ \<Rightarrow> (Err (MQReturn cc rc), calls' @ [CrtMH_call False])
             | Inr mh \<Rightarrow> (Ok (length calls), calls' @ [CrtMH_call True, DltMH mh]))
          else (Err (MQReturn cc rc), calls @ [Connx (mq_QueueManager c) False]))"

section \<open>The base connector\<close>

datatype ShutdownCallback = StopCallbacks handle | StopPolling handle

record BridgeConnector =
  bc_config :: ConnectorConfig
  bc_stats :: ConnectorStats
  bc_qMgr :: "nat option"
  bc_calls :: "call list"

text \<open>\<^verbatim>\<open>String\<close> and \<^verbatim>\<open>ID\<close> of a connector.\<close>

definition connector_String :: "'a BridgeConnector_scheme \<Rightarrow> string" where
  "connector_String mq = st_Name (bc_stats mq)"

definition connector_ID :: "'a BridgeConnector_scheme \<Rightarrow> string" where
  "connector_ID mq = st_ID (bc_stats mq)"

text \<open>\<open>nuid\<close> is the fresh identifier that \<^verbatim>\<open>nuid.Next()\<close> would give.\<close>

definition init_connector :: "ConnectorConfig \<Rightarrow> string \<Rightarrow> string \<Rightarrow> BridgeConnector" where
  "init_connector config name nuid =
     \<lparr>bc_config = config,
      bc_stats = NewConnectorStats\<lparr>st_Name := name,
        st_ID := if cfg_ID config = '''' then nuid else cfg_ID config\<rparr>,
      bc_qMgr = None, bc_calls = []\<rparr>"

definition add_call :: "call \<Rightarrow> 'a BridgeConnector_scheme \<Rightarrow> 'a BridgeConnector_scheme" where
  "add_call c mq = mq\<lparr>bc_calls := bc_calls mq @ [c]\<rparr>"

definition upd_stats :: "(ConnectorStats \<Rightarrow> ConnectorStats) \<Rightarrow> 'a BridgeConnector_scheme \<Rightarrow> 'a BridgeConnector_scheme" where
  "upd_stats f mq = mq\<lparr>bc_stats := f (bc_stats mq)\<rparr>"

text \<open>A library call that answers with an error or creates the resource named \<open>mk n\<close>.\<close>

definition call_new ::
  "go_error option \<Rightarrow> (bool \<Rightarrow> call) \<Rightarrow> (nat \<Rightarrow> 'r) \<Rightarrow> 'a BridgeConnector_scheme \<Rightarrow>
   'r outcome \<times> 'a BridgeConnector_scheme" where
  "call_new answer c mk mq =
     (case answer of
        Some e \<Rightarrow> (Err e, add_call (c False) mq)
      | None \<Rightarrow> (Ok (mk (length (bc_calls mq))), add_call (c True) mq))"

definition connectToMQ :: "env \<Rightarrow> 'a BridgeConnector_scheme \<Rightarrow> unit outcome \<times> 'a BridgeConnector_scheme" where
  "connectToMQ ev mq =
     (case ConnectToQueueManager ev (cfg_MQ (bc_config mq)) (bc_calls mq) of
        (r, calls) \<Rightarrow>
          or_return (r, mq\<lparr>bc_calls := calls\<rparr>) (\<lambda>qMgr mq. (Ok (), mq\<lparr>bc_qMgr := Some qMgr\<rparr>)))"

definition connectToQueue ::
  "env \<Rightarrow> string \<Rightarrow> open_mode \<Rightarrow> 'a BridgeConnector_scheme \<Rightarrow> mqobj outcome \<times> 'a BridgeConnector_scheme" where
  "connectToQueue ev queueName openOptions mq =
     call_new (ext_Open ev (bc_calls mq) (OpenQueue queueName openOptions True))
       (OpenQueue queueName openOptions) QueueObj mq"

text \<open>Subscribing to a topic gives the managed object to read from and the subscription.\<close>

definition subscribeToTopic ::
  "env \<Rightarrow> string \<Rightarrow> 'a BridgeConnector_scheme \<Rightarrow> (mqobj \<times> mqobj) outcome \<times> 'a BridgeConnector_scheme" where
  "subscribeToTopic ev topicName mq =
     call_new (ext_Open ev (bc_calls mq) (SubTopic topicName True))
       (SubTopic topicName) (\<lambda>n. (TopicObj n, SubObj n)) mq"

definition connectToTopic ::
  "env \<Rightarrow> string \<Rightarrow> 'a BridgeConnector_scheme \<Rightarrow> mqobj outcome \<times> 'a BridgeConnector_scheme" where
  "connectToTopic ev topicName mq =
     call_new (ext_Open ev (bc_calls mq) (OpenTopic topicName True)) (OpenTopic topicName) TopicObj mq"

section \<open>Listening to MQ\<close>

definition createHandle :: "env \<Rightarrow> 'a BridgeConnector_scheme \<Rightarrow> handle outcome \<times> 'a BridgeConnector_scheme" where
  "createHandle ev mq =
     (case CrtMH (ext_mqlib ev (bc_calls mq)) of
        Inl e \<Rightarrow> (Err e, add_call (CrtMH_call False) mq)
      | Inr h \<Rightarrow> (Ok h, add_call (CrtMH_call True) mq))"

definition setUpCallback ::
  "env \<Rightarrow> mqobj \<Rightarrow> 'a BridgeConnector_scheme \<Rightarrow> ShutdownCallback outcome \<times> 'a BridgeConnector_scheme" where
  "setUpCallback ev target mq =
     or_return (createHandle ev mq) (\<lambda>propsMsgHandle mq.
     or_return (call_new (ext_CB ev (bc_calls mq) target) (RegisterCB target) id mq) (\<lambda>_ mq.
     or_return (call_new (ext_Ctl ev (bc_calls mq)) (CtlStart (the (bc_qMgr mq))) id mq) (\<lambda>_ mq.
     (Ok (StopCallbacks propsMsgHandle), mq))))"

text \<open>
  Making the buffer panics for a negative size. The wait time is cut to 32 bits, and the default is
  taken when the result is 0.
\<close>

definition setUpPolling ::
  "env \<Rightarrow> mqobj \<Rightarrow> 'a BridgeConnector_scheme \<Rightarrow> ShutdownCallback outcome \<times> 'a BridgeConnector_scheme" where
  "setUpPolling ev target mq =
     (let bufferSize = (if cfg_IncomingBufferSize (bc_config mq) = 0 then 1024 * 8
            else cfg_IncomingBufferSize (bc_config mq));
          wait = (word_of_int (cfg_IncomingMessageWait (bc_config mq)) :: i32);
          waitTimeout = (if wait = 0 then 500 else wait)
      in if bufferSize < 0 then (Panic, mq)
         else or_return (createHandle ev mq) (\<lambda>propsMsgHandle mq.
           (Ok (StopPolling propsMsgHandle), add_call (PollStart target bufferSize waitTimeout) mq)))"

definition setUpListener ::
  "env \<Rightarrow> mqobj \<Rightarrow> 'a BridgeConnector_scheme \<Rightarrow> ShutdownCallback outcome \<times> 'a BridgeConnector_scheme" where
  "setUpListener ev target mq =
     (if cfg_UsePolling (bc_config mq) then setUpPolling ev target mq else setUpCallback ev target mq)"

text \<open>
  Running the shutdown callback: it stops the delivery and deletes the handle, or tells the polling
  goroutine to stop, which deletes the handle when it ends. It never reports an error.
\<close>

definition runShutdownCallback :: "ShutdownCallback \<Rightarrow> 'a BridgeConnector_scheme \<Rightarrow> 'a BridgeConnector_scheme" where
  "runShutdownCallback cb mq =
     (case cb of
        StopCallbacks h \<Rightarrow> add_call (DltMH h) (add_call (CtlStop (the (bc_qMgr mq))) mq)
      | StopPolling h \<Rightarrow> add_call (DltMH h) (add_call PollStop mq))"

section \<open>Listening to NATS and NATS streaming\<close>

definition subscribeToNATS ::
  "env \<Rightarrow> string \<Rightarrow> string \<Rightarrow> 'a BridgeConnector_scheme \<Rightarrow> nat outcome \<times> 'a BridgeConnector_scheme" where
  "subscribeToNATS ev subject natsQueue mq =
     call_new (ext_nats_sub ev (bc_calls mq) subject natsQueue) (NatsSubscribe subject natsQueue) id mq"

definition subscriptionOptions :: "ConnectorConfig \<Rightarrow> start_option list" where
  "subscriptionOptions c =
     (if cfg_DurableName c \<noteq> '''' then [DurableName (cfg_DurableName c)] else []) @
     [if cfg_StartAtTime c \<noteq> 0 then StartAtTime (cfg_StartAtTime c)
      else if cfg_StartAtSequence c = - 1 then StartWithLastReceived
      else if cfg_StartAtSequence c > 0 then StartAtSequence (word_of_int (cfg_StartAtSequence c))
      else DeliverAllAvailable] @
     [SetManualAckMode]"

definition subscribeToChannel ::
  "env \<Rightarrow> bridge_view \<Rightarrow> 'a BridgeConnector_scheme \<Rightarrow> nat outcome \<times> 'a BridgeConnector_scheme" where
  "subscribeToChannel ev bv mq =
     (if \<not> bv_Stan bv then (Err (Errorf ''bridge not configured to use NATS streaming''), mq)
      else (let options = subscriptionOptions (bc_config mq) in
        call_new (ext_stan_sub ev (bc_calls mq) (cfg_Channel (bc_config mq)) options)
          (StanSubscribe (cfg_Channel (bc_config mq)) options) id mq))"

section \<open>Closing\<close>

definition closeObject :: "env \<Rightarrow> mqobj \<Rightarrow> 'a BridgeConnector_scheme \<Rightarrow> go_error option \<times> 'a BridgeConnector_scheme" where
  "closeObject ev x mq = (ext_Close ev (bc_calls mq) x, add_call (Close x) mq)"

text \<open>\<^verbatim>\<open>if mq.qMgr != nil { mq.qMgr.Disc(); mq.qMgr = nil }\<close>; the error of \<open>Disc\<close> is only logged.\<close>

definition disconnect :: "'a BridgeConnector_scheme \<Rightarrow> 'a BridgeConnector_scheme" where
  "disconnect mq =
     (case bc_qMgr mq of
        None \<Rightarrow> mq
      | Some q \<Rightarrow> (add_call (Disc q) mq)\<lparr>bc_qMgr := None\<rparr>)"

section \<open>Facts about the helpers\<close>

lemmas connector_helpers [connector_defs] = connectToMQ_def ConnectToQueueManager_def connectToQueue_def
  subscribeToTopic_def connectToTopic_def createHandle_def setUpCallback_def setUpPolling_def
  setUpListener_def subscribeToNATS_def subscribeToChannel_def call_new_def add_call_def
  closeObject_def disconnect_def runShutdownCallback_def upd_stats_def Let_def

section \<open>Accounting for resources\<close>

text \<open>
  The calls that give back what a call created, given the call's position. Message handles are not
  accounted for.
\<close>

fun release_of :: "nat \<Rightarrow> call \<Rightarrow> call set" where
  "release_of i (Connx _ True) = {Disc i}"
| "release_of i (OpenQueue _ _ True) = {Close (QueueObj i)}"
| "release_of i (OpenTopic _ True) = {Close (TopicObj i)}"
| "release_of i (SubTopic _ True) = {Close (TopicObj i), Close (SubObj i)}"
| "release_of i (CtlStart q True) = {CtlStop q}"
| "release_of i (PollStart _ _ _) = {PollStop}"
| "release_of i (NatsSubscribe _ _ True) = {NatsUnsubscribe i}"
| "release_of i (StanSubscribe _ _ True) = {StanUnsubscribe i}"
| "release_of i _ = {}"

text \<open>The calls still owed: those that would give back a resource and have not been made.\<close>

definition owed :: "call list \<Rightarrow> call set" where
  "owed cs = (\<Union>i<length cs. release_of i (cs ! i)) - set cs"

lemma owed_Nil [simp]: "owed [] = {}"
  by (simp add: owed_def)

fun release_from :: "nat \<Rightarrow> call list \<Rightarrow> call set" where
  "release_from i [] = {}"
| "release_from i (c # cs) = release_of i c \<union> release_from (Suc i) cs"

lemma release_from_nth: "release_from k cs = (\<Union>i<length cs. release_of (k + i) (cs ! i))"
  by (induction cs arbitrary: k) (simp_all add: lessThan_Suc_eq_insert_0)

lemma release_from_append:
  "release_from k (cs @ ds) = release_from k cs \<union> release_from (k + length cs) ds"
  by (induction cs arbitrary: k) auto

lemma owed_append: "owed (cs @ ds) = (owed cs \<union> (release_from (length cs) ds - set cs)) - set ds"
  using release_from_append [of 0 cs ds] by (auto simp: owed_def release_from_nth)

text \<open>The library never answers with the warning that TLS was initialised before.\<close>

definition no_tls_warning :: "env \<Rightarrow> bool" where
  "no_tls_warning ev \<longleftrightarrow> (\<forall>cs n opts. ext_Connx ev cs n opts \<noteq>
     Some (MQCC_WARNING ev, MQRC_SSL_ALREADY_INITIALIZED ev))"

lemma connectToMQ_cases:
  assumes "connectToMQ ev mq = (r, mq')" "no_tls_warning ev"
  obtains (connected) n where "r = Ok ()" "mq' = mq\<lparr>bc_calls := bc_calls mq @ [Connx n True],
      bc_qMgr := Some (length (bc_calls mq))\<rparr>"
  | (failed) n e where "r = Err e" "mq' = mq\<lparr>bc_calls := bc_calls mq @ [Connx n False]\<rparr>"
  using assms that
  by (auto simp: no_tls_warning_def connectToMQ_def ConnectToQueueManager_def Let_def
      split: option.splits if_splits)

lemma call_new_cases:
  assumes "call_new answer c mk mq = (r, mq')"
  obtains (created) "r = Ok (mk (length (bc_calls mq)))" "mq' = mq\<lparr>bc_calls := bc_calls mq @ [c True]\<rparr>"
  | (failed) e where "r = Err e" "mq' = mq\<lparr>bc_calls := bc_calls mq @ [c False]\<rparr>"
  using assms that by (auto simp: call_new_def add_call_def split: option.splits)

text \<open>What the shutdown callback will give back.\<close>

fun stop_calls :: "nat option \<Rightarrow> ShutdownCallback \<Rightarrow> call set" where
  "stop_calls q (StopCallbacks _) = {CtlStop (the q)}"
| "stop_calls q (StopPolling _) = {PollStop}"

fun stops :: "nat option \<Rightarrow> ShutdownCallback outcome \<Rightarrow> call set" where
  "stops q (Ok cb) = stop_calls q cb"
| "stops q _ = {}"

lemma createHandle_cases:
  assumes "createHandle ev mq = (r, mq')"
  obtains b where "mq' = mq\<lparr>bc_calls := bc_calls mq @ [CrtMH_call b]\<rparr>"
  using assms that by (auto simp: createHandle_def add_call_def split: sum.splits)

lemma setUpPolling_owed:
  assumes "setUpPolling ev target mq = (r, mq')"
  shows "mq' = mq\<lparr>bc_calls := bc_calls mq'\<rparr> \<and>
    owed (bc_calls mq') \<subseteq> owed (bc_calls mq) \<union> stops (bc_qMgr mq) r"
  using assms
  by (auto simp: setUpPolling_def createHandle_def add_call_def Let_def owed_append
      split: sum.splits if_splits)

lemma setUpCallback_owed:
  assumes "setUpCallback ev target mq = (r, mq')"
  shows "mq' = mq\<lparr>bc_calls := bc_calls mq'\<rparr> \<and>
    owed (bc_calls mq') \<subseteq> owed (bc_calls mq) \<union> stops (bc_qMgr mq) r"
  using assms
  by (auto simp: setUpCallback_def createHandle_def call_new_def add_call_def owed_append
      split: sum.splits option.splits)

lemma setUpListener_owed:
  assumes "setUpListener ev target mq = (r, mq')"
  obtains cs where "mq' = mq\<lparr>bc_calls := cs\<rparr>"
    "owed cs \<subseteq> owed (bc_calls mq) \<union> stops (bc_qMgr mq) r"
  using assms setUpPolling_owed [of ev target mq r mq'] setUpCallback_owed [of ev target mq r mq']
  by (auto simp: setUpListener_def split: if_splits)

section \<open>The helpers leave configuration and statistics alone\<close>

definition same_base :: "'a BridgeConnector_scheme \<Rightarrow> 'b BridgeConnector_scheme \<Rightarrow> bool" where
  "same_base c c' \<longleftrightarrow> bc_config c' = bc_config c \<and> bc_stats c' = bc_stats c"

lemma same_base_helpers:
  "connectToMQ ev mq = (r1, mq') \<Longrightarrow> same_base mq mq'"
  "connectToQueue ev q om mq = (r2, mq') \<Longrightarrow> same_base mq mq'"
  "connectToTopic ev q mq = (r2, mq') \<Longrightarrow> same_base mq mq'"
  "subscribeToTopic ev q mq = (r3, mq') \<Longrightarrow> same_base mq mq'"
  "subscribeToNATS ev x y mq = (r4, mq') \<Longrightarrow> same_base mq mq'"
  "subscribeToChannel ev bv mq = (r4, mq') \<Longrightarrow> same_base mq mq'"
  "setUpListener ev t mq = (r5, mq') \<Longrightarrow> same_base mq mq'"
  by (auto simp: same_base_def connector_helpers split: option.splits sum.splits if_splits
      elim!: or_return_cases)

section \<open>Properties\<close>

text \<open>
  The options of a streaming subscription: exactly one start position is given, a start time takes
  precedence over a sequence, messages are always acknowledged by hand, and the durable name is
  passed exactly when it is configured.
\<close>

theorem subscription_options_complete:
  "length (filter (\<lambda>x. x \<in> {StartAtTime (cfg_StartAtTime c), StartWithLastReceived,
       StartAtSequence (word_of_int (cfg_StartAtSequence c)), DeliverAllAvailable})
     (subscriptionOptions c)) = 1
   \<and> SetManualAckMode \<in> set (subscriptionOptions c)
   \<and> (StartAtTime (cfg_StartAtTime c) \<in> set (subscriptionOptions c)) = (cfg_StartAtTime c \<noteq> 0)
   \<and> (StartWithLastReceived \<in> set (subscriptionOptions c)) =
       (cfg_StartAtTime c = 0 \<and> cfg_StartAtSequence c = - 1)
   \<and> (DurableName d \<in> set (subscriptionOptions c)) = (d = cfg_DurableName c \<and> d \<noteq> '''')"
  by (auto simp: subscriptionOptions_def)

end
