(* ===== verification/Connectors.thy ===== *)
theory Connectors
  imports Connector
begin

text \<open>
  The eight connector types (\<^verbatim>\<open>src/nats-mq/core/queue2nats.go\<close>, \<^verbatim>\<open>queue2stan.go\<close>, \<^verbatim>\<open>topic2nats.go\<close>,
  \<^verbatim>\<open>topic2stan.go\<close>, \<^verbatim>\<open>nats2queue.go\<close>, \<^verbatim>\<open>nats2topic.go\<close>, \<^verbatim>\<open>stan2queue.go\<close>, \<^verbatim>\<open>stan2topic.go\<close>): each with its
  constructor, \<open>Start\<close>, \<open>Shutdown\<close> and \<open>CheckConnections\<close>, and the interface \<^verbatim>\<open>Connector\<close> as a
  datatype that dispatches on the type (\<^verbatim>\<open>connector.go\<close>). The structs extend the base connector: four
  shapes of fields, each shared by a NATS and a streaming variant.

  The locale \<open>connector\<close> is the contract the bridge server relies on; it is interpreted for the
  interface, and every connector type is shown to meet it.
\<close>

section \<open>The structs\<close>

record QueueListener = BridgeConnector +
  ql_queue :: "mqobj option"
  ql_shutdownCB :: "ShutdownCallback option"

record TopicListener = BridgeConnector +
  tl_topic :: "mqobj option"
  tl_sub :: "mqobj option"
  tl_shutdownCB :: "ShutdownCallback option"

record QueuePublisher = BridgeConnector +
  qp_queue :: "mqobj option"
  qp_sub :: "nat option"

record TopicPublisher = BridgeConnector +
  tp_topic :: "mqobj option"
  tp_sub :: "nat option"

definition natsRequired :: "'a BridgeConnector_scheme \<Rightarrow> go_error" where
  "natsRequired mq = Errorf (connector_String mq @ '' connector requires nats to be available'')"

definition stanRequired :: "'a BridgeConnector_scheme \<Rightarrow> go_error" where
  "stanRequired mq = Errorf (connector_String mq @ '' connector requires nats streaming to be available'')"

section \<open>Queue2NATS\<close>

definition NewQueue2NATSConnector :: "ConnectorConfig \<Rightarrow> string \<Rightarrow> QueueListener" where
  "NewQueue2NATSConnector config nuid =
     BridgeConnector.extend
       (init_connector config (''Queue:'' @ cfg_Queue config @ '' to NATS:'' @ cfg_Subject config) nuid)
       (QueueListener.fields None None)"

definition Queue2NATS_Start :: "env \<Rightarrow> bridge_view \<Rightarrow> QueueListener \<Rightarrow> unit outcome \<times> QueueListener" where
  "Queue2NATS_Start ev bv mq =
     (if \<not> bv_CheckNATS bv then (Err (natsRequired mq), mq)
      else or_return (connectToMQ ev mq) (\<lambda>_ mq.
        or_return (connectToQueue ev (cfg_Queue (bc_config mq)) MQOO_INPUT_SHARED mq) (\<lambda>qObject mq.
        let mq = mq\<lparr>ql_queue := Some qObject\<rparr> in
        or_return (setUpListener ev qObject mq) (\<lambda>cb mq.
        let mq = mq\<lparr>ql_shutdownCB := Some cb\<rparr> in
        (Ok (), upd_stats AddConnect mq)))))"

definition Queue2NATS_Shutdown :: "env \<Rightarrow> QueueListener \<Rightarrow> go_error option \<times> QueueListener" where
  "Queue2NATS_Shutdown ev mq =
     (let mq = upd_stats AddDisconnect mq;
          mq = (case ql_shutdownCB mq of
                  None \<Rightarrow> mq
                | Some cb \<Rightarrow> (runShutdownCallback cb mq)\<lparr>ql_shutdownCB := None\<rparr>);
          queue = ql_queue mq;
          mq = mq\<lparr>ql_queue := None\<rparr>;
          mq = (case queue of None \<Rightarrow> mq | Some q \<Rightarrow> snd (closeObject ev q mq))
      in (None, disconnect mq))"

definition Queue2NATS_CheckConnections :: "bridge_view \<Rightarrow> QueueListener \<Rightarrow> go_error option" where
  "Queue2NATS_CheckConnections bv mq = (if \<not> bv_CheckNATS bv then Some (natsRequired mq) else None)"

section \<open>Queue2STAN\<close>

definition NewQueue2STANConnector :: "ConnectorConfig \<Rightarrow> string \<Rightarrow> QueueListener" where
  "NewQueue2STANConnector config nuid =
     BridgeConnector.extend
       (init_connector config (''Queue:'' @ cfg_Queue config @ '' to STAN:'' @ cfg_Channel config) nuid)
       (QueueListener.fields None None)"

definition Queue2STAN_Start :: "env \<Rightarrow> bridge_view \<Rightarrow> QueueListener \<Rightarrow> unit outcome \<times> QueueListener" where
  "Queue2STAN_Start ev bv mq =
     (if \<not> bv_CheckStan bv then (Err (stanRequired mq), mq)
      else or_return (connectToMQ ev mq) (\<lambda>_ mq.
        or_return (connectToQueue ev (cfg_Queue (bc_config mq)) MQOO_INPUT_SHARED mq) (\<lambda>qObject mq.
        let mq = mq\<lparr>ql_queue := Some qObject\<rparr> in
        or_return (setUpListener ev qObject mq) (\<lambda>cb mq.
        let mq = mq\<lparr>ql_shutdownCB := Some cb\<rparr> in
        (Ok (), upd_stats AddConnect mq)))))"

definition Queue2STAN_Shutdown :: "env \<Rightarrow> QueueListener \<Rightarrow> go_error option \<times> QueueListener" where
  "Queue2STAN_Shutdown ev mq =
     (let mq = upd_stats AddDisconnect mq;
          mq = (case ql_shutdownCB mq of
                  None \<Rightarrow> mq
                | Some cb \<Rightarrow> (runShutdownCallback cb mq)\<lparr>ql_shutdownCB := None\<rparr>);
          queue = ql_queue mq;
          mq = mq\<lparr>ql_queue := None\<rparr>;
          mq = (case queue of None \<Rightarrow> mq | Some q \<Rightarrow> snd (closeObject ev q mq))
      in (None, disconnect mq))"

definition Queue2STAN_CheckConnections :: "bridge_view \<Rightarrow> QueueListener \<Rightarrow> go_error option" where
  "Queue2STAN_CheckConnections bv mq = (if \<not> bv_CheckStan bv then Some (stanRequired mq) else None)"

section \<open>Topic2NATS\<close>

definition NewTopic2NATSConnector :: "ConnectorConfig \<Rightarrow> string \<Rightarrow> TopicListener" where
  "NewTopic2NATSConnector config nuid =
     BridgeConnector.extend
       (init_connector config (''MQ:'' @ cfg_Topic config @ '' to NATS:'' @ cfg_Subject config) nuid)
       (TopicListener.fields None None None)"

definition Topic2NATS_Start :: "env \<Rightarrow> bridge_view \<Rightarrow> TopicListener \<Rightarrow> unit outcome \<times> TopicListener" where
  "Topic2NATS_Start ev bv mq =
     (if \<not> bv_CheckNATS bv then (Err (natsRequired mq), mq)
      else or_return (connectToMQ ev mq) (\<lambda>_ mq.
        or_return (subscribeToTopic ev (cfg_Topic (bc_config mq)) mq) (\<lambda>(topic, sub) mq.
        let mq = mq\<lparr>tl_topic := Some topic, tl_sub := Some sub\<rparr> in
        or_return (setUpListener ev topic mq) (\<lambda>cb mq.
        let mq = mq\<lparr>tl_shutdownCB := Some cb\<rparr> in
        (Ok (), upd_stats AddConnect mq)))))"

definition Topic2NATS_Shutdown :: "env \<Rightarrow> TopicListener \<Rightarrow> go_error option \<times> TopicListener" where
  "Topic2NATS_Shutdown ev mq =
     (let mq = upd_stats AddDisconnect mq in
      case tl_topic mq of
        None \<Rightarrow> (None, mq)
      | Some topic \<Rightarrow>
          (let sub = tl_sub mq;
               mq = mq\<lparr>tl_topic := None, tl_sub := None\<rparr>;
               mq = (case tl_shutdownCB mq of
                       None \<Rightarrow> mq
                     | Some cb \<Rightarrow> (runShutdownCallback cb mq)\<lparr>tl_shutdownCB := None\<rparr>);
               mq = (case sub of None \<Rightarrow> mq | Some s \<Rightarrow> snd (closeObject ev s mq));
               mq = snd (closeObject ev topic mq)
           in (None, disconnect mq)))"

definition Topic2NATS_CheckConnections :: "bridge_view \<Rightarrow> TopicListener \<Rightarrow> go_error option" where
  "Topic2NATS_CheckConnections bv mq = (if \<not> bv_CheckNATS bv then Some (natsRequired mq) else None)"

section \<open>Topic2Stan\<close>

definition NewTopic2StanConnector :: "ConnectorConfig \<Rightarrow> string \<Rightarrow> TopicListener" where
  "NewTopic2StanConnector config nuid =
     BridgeConnector.extend
       (init_connector config (''MQ:'' @ cfg_Topic config @ '' to Stan:'' @ cfg_Channel config) nuid)
       (TopicListener.fields None None None)"

definition Topic2Stan_Start :: "env \<Rightarrow> bridge_view \<Rightarrow> TopicListener \<Rightarrow> unit outcome \<times> TopicListener" where
  "Topic2Stan_Start ev bv mq =
     (if \<not> bv_CheckStan bv then (Err (stanRequired mq), mq)
      else or_return (connectToMQ ev mq) (\<lambda>_ mq.
        or_return (subscribeToTopic ev (cfg_Topic (bc_config mq)) mq) (\<lambda>(topic, sub) mq.
        let mq = mq\<lparr>tl_topic := Some topic, tl_sub := Some sub\<rparr> in
        or_return (setUpListener ev topic mq) (\<lambda>cb mq.
        let mq = mq\<lparr>tl_shutdownCB := Some cb\<rparr> in
        (Ok (), upd_stats AddConnect mq)))))"

definition Topic2Stan_Shutdown :: "env \<Rightarrow> TopicListener \<Rightarrow> go_error option \<times> TopicListener" where
  "Topic2Stan_Shutdown ev mq =
     (let mq = upd_stats AddDisconnect mq in
      case tl_topic mq of
        None \<Rightarrow> (None, mq)
      | Some topic \<Rightarrow>
          (let sub = tl_sub mq;
               mq = mq\<lparr>tl_topic := None, tl_sub := None\<rparr>;
               mq = (case tl_shutdownCB mq of
                       None \<Rightarrow> mq
                     | Some cb \<Rightarrow> (runShutdownCallback cb mq)\<lparr>tl_shutdownCB := None\<rparr>);
               mq = (case sub of None \<Rightarrow> mq | Some s \<Rightarrow> snd (closeObject ev s mq));
               mq = snd (closeObject ev topic mq)
           in (None, disconnect mq)))"

definition Topic2Stan_CheckConnections :: "bridge_view \<Rightarrow> TopicListener \<Rightarrow> go_error option" where
  "Topic2Stan_CheckConnections bv mq = (if \<not> bv_CheckStan bv then Some (stanRequired mq) else None)"

section \<open>NATS2Queue\<close>

definition NewNATS2QueueConnector :: "ConnectorConfig \<Rightarrow> string \<Rightarrow> QueuePublisher" where
  "NewNATS2QueueConnector config nuid =
     BridgeConnector.extend
       (init_connector config (''NATS:'' @ cfg_Subject config @ '' to Queue:'' @ cfg_Queue config) nuid)
       (QueuePublisher.fields None None)"

definition NATS2Queue_Start :: "env \<Rightarrow> bridge_view \<Rightarrow> QueuePublisher \<Rightarrow> unit outcome \<times> QueuePublisher" where
  "NATS2Queue_Start ev bv mq =
     (if \<not> bv_CheckNATS bv then (Err (natsRequired mq), mq)
      else or_return (connectToMQ ev mq) (\<lambda>_ mq.
        or_return (connectToQueue ev (cfg_Queue (bc_config mq)) MQOO_OUTPUT mq) (\<lambda>object mq.
        let mq = mq\<lparr>qp_queue := Some object\<rparr> in
        or_return (subscribeToNATS ev (cfg_Subject (bc_config mq)) (cfg_NatsQueue (bc_config mq)) mq) (\<lambda>sub mq.
        let mq = mq\<lparr>qp_sub := Some sub\<rparr> in
        (Ok (), upd_stats AddConnect mq)))))"

definition NATS2Queue_Shutdown :: "env \<Rightarrow> QueuePublisher \<Rightarrow> go_error option \<times> QueuePublisher" where
  "NATS2Queue_Shutdown ev mq =
     (let mq = upd_stats AddDisconnect mq;
          mq = (case qp_sub mq of
                  None \<Rightarrow> mq
                | Some sub \<Rightarrow> (add_call (NatsUnsubscribe sub) mq)\<lparr>qp_sub := None\<rparr>);
          object = qp_queue mq;
          mq = mq\<lparr>qp_queue := None\<rparr>;
          (err, mq) = (case object of None \<Rightarrow> (None, mq) | Some x \<Rightarrow> closeObject ev x mq)
      in (err, disconnect mq))"

definition NATS2Queue_CheckConnections :: "bridge_view \<Rightarrow> QueuePublisher \<Rightarrow> go_error option" where
  "NATS2Queue_CheckConnections bv mq = (if \<not> bv_CheckNATS bv then Some (natsRequired mq) else None)"

section \<open>NATS2Topic\<close>

definition NewNATS2TopicConnector :: "ConnectorConfig \<Rightarrow> string \<Rightarrow> TopicPublisher" where
  "NewNATS2TopicConnector config nuid =
     BridgeConnector.extend
       (init_connector config (''NATS:'' @ cfg_Subject config @ '' to Topic:'' @ cfg_Topic config) nuid)
       (TopicPublisher.fields None None)"

definition NATS2Topic_Start :: "env \<Rightarrow> bridge_view \<Rightarrow> TopicPublisher \<Rightarrow> unit outcome \<times> TopicPublisher" where
  "NATS2Topic_Start ev bv mq =
     (if \<not> bv_CheckNATS bv then (Err (natsRequired mq), mq)
      else or_return (connectToMQ ev mq) (\<lambda>_ mq.
        or_return (connectToTopic ev (cfg_Topic (bc_config mq)) mq) (\<lambda>object mq.
        let mq = mq\<lparr>tp_topic := Some object\<rparr> in
        or_return (subscribeToNATS ev (cfg_Subject (bc_config mq)) (cfg_NatsQueue (bc_config mq)) mq) (\<lambda>sub mq.
        let mq = mq\<lparr>tp_sub := Some sub\<rparr> in
        (Ok (), upd_stats AddConnect mq)))))"

definition NATS2Topic_Shutdown :: "env \<Rightarrow> TopicPublisher \<Rightarrow> go_error option \<times> TopicPublisher" where
  "NATS2Topic_Shutdown ev mq =
     (let mq = upd_stats AddDisconnect mq;
          mq = (case tp_sub mq of
                  None \<Rightarrow> mq
                | Some sub \<Rightarrow> (add_call (NatsUnsubscribe sub) mq)\<lparr>tp_sub := None\<rparr>);
          object = tp_topic mq;
          mq = mq\<lparr>tp_topic := None\<rparr>;
          (err, mq) = (case object of None \<Rightarrow> (None, mq) | Some x \<Rightarrow> closeObject ev x mq)
      in (err, disconnect mq))"

definition NATS2Topic_CheckConnections :: "bridge_view \<Rightarrow> TopicPublisher \<Rightarrow> go_error option" where
  "NATS2Topic_CheckConnections bv mq = (if \<not> bv_CheckNATS bv then Some (natsRequired mq) else None)"

section \<open>Stan2Queue\<close>

definition NewStan2QueueConnector :: "ConnectorConfig \<Rightarrow> string \<Rightarrow> QueuePublisher" where
  "NewStan2QueueConnector config nuid =
     BridgeConnector.extend
       (init_connector config (''STAN:'' @ cfg_Channel config @ '' to Queue:'' @ cfg_Queue config) nuid)
       (QueuePublisher.fields None None)"

definition Stan2Queue_Start :: "env \<Rightarrow> bridge_view \<Rightarrow> QueuePublisher \<Rightarrow> unit outcome \<times> QueuePublisher" where
  "Stan2Queue_Start ev bv mq =
     (if \<not> bv_CheckStan bv then (Err (stanRequired mq), mq)
      else or_return (connectToMQ ev mq) (\<lambda>_ mq.
        or_return (connectToQueue ev (cfg_Queue (bc_config mq)) MQOO_OUTPUT mq) (\<lambda>object mq.
        let mq = mq\<lparr>qp_queue := Some object\<rparr> in
        or_return (subscribeToChannel ev bv mq) (\<lambda>sub mq.
        let mq = mq\<lparr>qp_sub := Some sub\<rparr> in
        (Ok (), upd_stats AddConnect mq)))))"

definition Stan2Queue_Shutdown :: "env \<Rightarrow> QueuePublisher \<Rightarrow> go_error option \<times> QueuePublisher" where
  "Stan2Queue_Shutdown ev mq =
     (let mq = upd_stats AddDisconnect mq;
          mq = (case qp_sub mq of
                  None \<Rightarrow> mq
                | Some sub \<Rightarrow> if cfg_DurableName (bc_config mq) = [] then (add_call (StanUnsubscribe sub) mq)\<lparr>qp_sub := None\<rparr> else mq);
          object = qp_queue mq;
          mq = mq\<lparr>qp_queue := None\<rparr>;
          (err, mq) = (case object of None \<Rightarrow> (None, mq) | Some x \<Rightarrow> closeObject ev x mq)
      in (err, disconnect mq))"

definition Stan2Queue_CheckConnections :: "bridge_view \<Rightarrow> QueuePublisher \<Rightarrow> go_error option" where
  "Stan2Queue_CheckConnections bv mq = (if \<not> bv_CheckStan bv then Some (stanRequired mq) else None)"

section \<open>Stan2Topic\<close>

definition NewStan2TopicConnector :: "ConnectorConfig \<Rightarrow> string \<Rightarrow> TopicPublisher" where
  "NewStan2TopicConnector config nuid =
     BridgeConnector.extend
       (init_connector config (''STAN:'' @ cfg_Channel config @ '' to Topic:'' @ cfg_Topic config) nuid)
       (TopicPublisher.fields None None)"

definition Stan2Topic_Start :: "env \<Rightarrow> bridge_view \<Rightarrow> TopicPublisher \<Rightarrow> unit outcome \<times> TopicPublisher" where
  "Stan2Topic_Start ev bv mq =
     (if \<not> bv_CheckStan bv then (Err (stanRequired mq), mq)
      else or_return (connectToMQ ev mq) (\<lambda>_ mq.
        or_return (connectToTopic ev (cfg_Topic (bc_config mq)) mq) (\<lambda>object mq.
        let mq = mq\<lparr>tp_topic := Some object\<rparr> in
        or_return (subscribeToChannel ev bv mq) (\<lambda>sub mq.
        let mq = mq\<lparr>tp_sub := Some sub\<rparr> in
        (Ok (), upd_stats AddConnect mq)))))"

definition Stan2Topic_Shutdown :: "env \<Rightarrow> TopicPublisher \<Rightarrow> go_error option \<times> TopicPublisher" where
  "Stan2Topic_Shutdown ev mq =
     (let mq = upd_stats AddDisconnect mq;
          mq = (case tp_sub mq of
                  None \<Rightarrow> mq
                | Some sub \<Rightarrow> if cfg_DurableName (bc_config mq) = [] then (add_call (StanUnsubscribe sub) mq)\<lparr>tp_sub := None\<rparr> else mq);
          object = tp_topic mq;
          mq = mq\<lparr>tp_topic := None\<rparr>;
          (err, mq) = (case object of None \<Rightarrow> (None, mq) | Some x \<Rightarrow> closeObject ev x mq)
      in (err, disconnect mq))"

definition Stan2Topic_CheckConnections :: "bridge_view \<Rightarrow> TopicPublisher \<Rightarrow> go_error option" where
  "Stan2Topic_CheckConnections bv mq = (if \<not> bv_CheckStan bv then Some (stanRequired mq) else None)"

section \<open>The interface\<close>

datatype Connector =
    Queue2NATSConnector QueueListener
  | Queue2STANConnector QueueListener
  | Topic2NATSConnector TopicListener
  | Topic2StanConnector TopicListener
  | NATS2QueueConnector QueuePublisher
  | NATS2TopicConnector TopicPublisher
  | Stan2QueueConnector QueuePublisher
  | Stan2TopicConnector TopicPublisher

fun Connector_Start :: "env \<Rightarrow> bridge_view \<Rightarrow> Connector \<Rightarrow> unit outcome \<times> Connector" where
  "Connector_Start ev bv (Queue2NATSConnector c) = map_prod id Queue2NATSConnector (Queue2NATS_Start ev bv c)"
| "Connector_Start ev bv (Queue2STANConnector c) = map_prod id Queue2STANConnector (Queue2STAN_Start ev bv c)"
| "Connector_Start ev bv (Topic2NATSConnector c) = map_prod id Topic2NATSConnector (Topic2NATS_Start ev bv c)"
| "Connector_Start ev bv (Topic2StanConnector c) = map_prod id Topic2StanConnector (Topic2Stan_Start ev bv c)"
| "Connector_Start ev bv (NATS2QueueConnector c) = map_prod id NATS2QueueConnector (NATS2Queue_Start ev bv c)"
| "Connector_Start ev bv (NATS2TopicConnector c) = map_prod id NATS2TopicConnector (NATS2Topic_Start ev bv c)"
| "Connector_Start ev bv (Stan2QueueConnector c) = map_prod id Stan2QueueConnector (Stan2Queue_Start ev bv c)"
| "Connector_Start ev bv (Stan2TopicConnector c) = map_prod id Stan2TopicConnector (Stan2Topic_Start ev bv c)"

fun Connector_Shutdown :: "env \<Rightarrow> Connector \<Rightarrow> go_error option \<times> Connector" where
  "Connector_Shutdown ev (Queue2NATSConnector c) = map_prod id Queue2NATSConnector (Queue2NATS_Shutdown ev c)"
| "Connector_Shutdown ev (Queue2STANConnector c) = map_prod id Queue2STANConnector (Queue2STAN_Shutdown ev c)"
| "Connector_Shutdown ev (Topic2NATSConnector c) = map_prod id Topic2NATSConnector (Topic2NATS_Shutdown ev c)"
| "Connector_Shutdown ev (Topic2StanConnector c) = map_prod id Topic2StanConnector (Topic2Stan_Shutdown ev c)"
| "Connector_Shutdown ev (NATS2QueueConnector c) = map_prod id NATS2QueueConnector (NATS2Queue_Shutdown ev c)"
| "Connector_Shutdown ev (NATS2TopicConnector c) = map_prod id NATS2TopicConnector (NATS2Topic_Shutdown ev c)"
| "Connector_Shutdown ev (Stan2QueueConnector c) = map_prod id Stan2QueueConnector (Stan2Queue_Shutdown ev c)"
| "Connector_Shutdown ev (Stan2TopicConnector c) = map_prod id Stan2TopicConnector (Stan2Topic_Shutdown ev c)"

fun Connector_CheckConnections :: "bridge_view \<Rightarrow> Connector \<Rightarrow> go_error option" where
  "Connector_CheckConnections bv (Queue2NATSConnector c) = Queue2NATS_CheckConnections bv c"
| "Connector_CheckConnections bv (Queue2STANConnector c) = Queue2STAN_CheckConnections bv c"
| "Connector_CheckConnections bv (Topic2NATSConnector c) = Topic2NATS_CheckConnections bv c"
| "Connector_CheckConnections bv (Topic2StanConnector c) = Topic2Stan_CheckConnections bv c"
| "Connector_CheckConnections bv (NATS2QueueConnector c) = NATS2Queue_CheckConnections bv c"
| "Connector_CheckConnections bv (NATS2TopicConnector c) = NATS2Topic_CheckConnections bv c"
| "Connector_CheckConnections bv (Stan2QueueConnector c) = Stan2Queue_CheckConnections bv c"
| "Connector_CheckConnections bv (Stan2TopicConnector c) = Stan2Topic_CheckConnections bv c"

text \<open>The embedded base connector of a connector.\<close>

fun base :: "Connector \<Rightarrow> BridgeConnector" where
  "base (Queue2NATSConnector c) = BridgeConnector.truncate c"
| "base (Queue2STANConnector c) = BridgeConnector.truncate c"
| "base (Topic2NATSConnector c) = BridgeConnector.truncate c"
| "base (Topic2StanConnector c) = BridgeConnector.truncate c"
| "base (NATS2QueueConnector c) = BridgeConnector.truncate c"
| "base (NATS2TopicConnector c) = BridgeConnector.truncate c"
| "base (Stan2QueueConnector c) = BridgeConnector.truncate c"
| "base (Stan2TopicConnector c) = BridgeConnector.truncate c"

text \<open>Which of the shared connections a connector needs.\<close>

fun needs_stan :: "Connector \<Rightarrow> bool" where
  "needs_stan (Queue2NATSConnector c) = False"
| "needs_stan (Queue2STANConnector c) = True"
| "needs_stan (Topic2NATSConnector c) = False"
| "needs_stan (Topic2StanConnector c) = True"
| "needs_stan (NATS2QueueConnector c) = False"
| "needs_stan (NATS2TopicConnector c) = False"
| "needs_stan (Stan2QueueConnector c) = True"
| "needs_stan (Stan2TopicConnector c) = True"

section \<open>Facts about single connectors\<close>

lemmas start_defs [connector_defs] = Queue2NATS_Start_def Queue2STAN_Start_def Topic2NATS_Start_def
  Topic2Stan_Start_def NATS2Queue_Start_def NATS2Topic_Start_def Stan2Queue_Start_def
  Stan2Topic_Start_def

lemmas shutdown_defs [connector_defs] = Queue2NATS_Shutdown_def Queue2STAN_Shutdown_def
  Topic2NATS_Shutdown_def Topic2Stan_Shutdown_def NATS2Queue_Shutdown_def NATS2Topic_Shutdown_def
  Stan2Queue_Shutdown_def Stan2Topic_Shutdown_def

lemmas new_defs = NewQueue2NATSConnector_def NewQueue2STANConnector_def NewTopic2NATSConnector_def
  NewTopic2StanConnector_def NewNATS2QueueConnector_def NewNATS2TopicConnector_def
  NewStan2QueueConnector_def NewStan2TopicConnector_def init_connector_def

lemmas check_defs = Queue2NATS_CheckConnections_def Queue2STAN_CheckConnections_def
  Topic2NATS_CheckConnections_def Topic2Stan_CheckConnections_def NATS2Queue_CheckConnections_def
  NATS2Topic_CheckConnections_def Stan2Queue_CheckConnections_def Stan2Topic_CheckConnections_def

section \<open>What a connector holds\<close>

text \<open>The calls that would give back what the fields of a connector refer to.\<close>

definition held_ql :: "QueueListener \<Rightarrow> call set" where
  "held_ql c = Disc ` set_option (bc_qMgr c) \<union> Close ` set_option (ql_queue c)
     \<union> (\<Union>cb\<in>set_option (ql_shutdownCB c). stop_calls (bc_qMgr c) cb)"

definition held_tl :: "TopicListener \<Rightarrow> call set" where
  "held_tl c = Disc ` set_option (bc_qMgr c) \<union> Close ` set_option (tl_topic c)
     \<union> Close ` set_option (tl_sub c)
     \<union> (\<Union>cb\<in>set_option (tl_shutdownCB c). stop_calls (bc_qMgr c) cb)"

definition held_qp :: "(nat \<Rightarrow> call) \<Rightarrow> QueuePublisher \<Rightarrow> call set" where
  "held_qp unsub c = Disc ` set_option (bc_qMgr c) \<union> Close ` set_option (qp_queue c)
     \<union> unsub ` set_option (qp_sub c)"

definition held_tp :: "(nat \<Rightarrow> call) \<Rightarrow> TopicPublisher \<Rightarrow> call set" where
  "held_tp unsub c = Disc ` set_option (bc_qMgr c) \<union> Close ` set_option (tp_topic c)
     \<union> unsub ` set_option (tp_sub c)"

lemmas held_defs = held_ql_def held_tl_def held_qp_def held_tp_def

text \<open>The common part of \<open>Start\<close> for each shape, after the check of the shared connection.\<close>

definition ql_start :: "env \<Rightarrow> QueueListener \<Rightarrow> unit outcome \<times> QueueListener" where
  "ql_start ev mq =
     or_return (connectToMQ ev mq) (\<lambda>_ mq.
     or_return (connectToQueue ev (cfg_Queue (bc_config mq)) MQOO_INPUT_SHARED mq) (\<lambda>qObject mq.
     let mq = mq\<lparr>ql_queue := Some qObject\<rparr> in
     or_return (setUpListener ev qObject mq) (\<lambda>cb mq.
     let mq = mq\<lparr>ql_shutdownCB := Some cb\<rparr> in (Ok (), upd_stats AddConnect mq))))"

definition tl_start :: "env \<Rightarrow> TopicListener \<Rightarrow> unit outcome \<times> TopicListener" where
  "tl_start ev mq =
     or_return (connectToMQ ev mq) (\<lambda>_ mq.
     or_return (subscribeToTopic ev (cfg_Topic (bc_config mq)) mq) (\<lambda>(topic, sub) mq.
     let mq = mq\<lparr>tl_topic := Some topic, tl_sub := Some sub\<rparr> in
     or_return (setUpListener ev topic mq) (\<lambda>cb mq.
     let mq = mq\<lparr>tl_shutdownCB := Some cb\<rparr> in (Ok (), upd_stats AddConnect mq))))"

definition qp_start ::
  "env \<Rightarrow> (QueuePublisher \<Rightarrow> nat outcome \<times> QueuePublisher) \<Rightarrow> QueuePublisher \<Rightarrow> unit outcome \<times> QueuePublisher" where
  "qp_start ev subscribe mq =
     or_return (connectToMQ ev mq) (\<lambda>_ mq.
     or_return (connectToQueue ev (cfg_Queue (bc_config mq)) MQOO_OUTPUT mq) (\<lambda>object mq.
     let mq = mq\<lparr>qp_queue := Some object\<rparr> in
     or_return (subscribe mq) (\<lambda>sub mq.
     let mq = mq\<lparr>qp_sub := Some sub\<rparr> in (Ok (), upd_stats AddConnect mq))))"

definition tp_start ::
  "env \<Rightarrow> (TopicPublisher \<Rightarrow> nat outcome \<times> TopicPublisher) \<Rightarrow> TopicPublisher \<Rightarrow> unit outcome \<times> TopicPublisher" where
  "tp_start ev subscribe mq =
     or_return (connectToMQ ev mq) (\<lambda>_ mq.
     or_return (connectToTopic ev (cfg_Topic (bc_config mq)) mq) (\<lambda>object mq.
     let mq = mq\<lparr>tp_topic := Some object\<rparr> in
     or_return (subscribe mq) (\<lambda>sub mq.
     let mq = mq\<lparr>tp_sub := Some sub\<rparr> in (Ok (), upd_stats AddConnect mq))))"

abbreviation nats_subscribe :: "env \<Rightarrow> 'a BridgeConnector_scheme \<Rightarrow> nat outcome \<times> 'a BridgeConnector_scheme" where
  "nats_subscribe ev mq \<equiv> subscribeToNATS ev (cfg_Subject (bc_config mq)) (cfg_NatsQueue (bc_config mq)) mq"

lemma start_shapes:
  "Queue2NATS_Start ev bv ql = (if bv_CheckNATS bv then ql_start ev ql else (Err (natsRequired ql), ql))"
  "Queue2STAN_Start ev bv ql = (if bv_CheckStan bv then ql_start ev ql else (Err (stanRequired ql), ql))"
  "Topic2NATS_Start ev bv tls = (if bv_CheckNATS bv then tl_start ev tls else (Err (natsRequired tls), tls))"
  "Topic2Stan_Start ev bv tls = (if bv_CheckStan bv then tl_start ev tls else (Err (stanRequired tls), tls))"
  "NATS2Queue_Start ev bv qp =
     (if bv_CheckNATS bv then qp_start ev (nats_subscribe ev) qp else (Err (natsRequired qp), qp))"
  "NATS2Topic_Start ev bv tp =
     (if bv_CheckNATS bv then tp_start ev (nats_subscribe ev) tp else (Err (natsRequired tp), tp))"
  "Stan2Queue_Start ev bv qp =
     (if bv_CheckStan bv then qp_start ev (subscribeToChannel ev bv) qp else (Err (stanRequired qp), qp))"
  "Stan2Topic_Start ev bv tp =
     (if bv_CheckStan bv then tp_start ev (subscribeToChannel ev bv) tp else (Err (stanRequired tp), tp))"
  by (simp_all add: start_defs ql_start_def tl_start_def qp_start_def tp_start_def)

fun unsubs :: "(nat \<Rightarrow> call) \<Rightarrow> nat outcome \<Rightarrow> call set" where
  "unsubs unsub (Ok n) = {unsub n}"
| "unsubs unsub _ = {}"

text \<open>A subscription either fails without a trace but its call, or creates what \<open>unsub\<close> gives back.\<close>

definition subscribes :: "('a BridgeConnector_scheme \<Rightarrow> nat outcome \<times> 'a BridgeConnector_scheme) \<Rightarrow> (nat \<Rightarrow> call) \<Rightarrow> bool" where
  "subscribes subscribe unsub \<longleftrightarrow>
     (\<forall>mq r mq'. subscribe mq = (r, mq') \<longrightarrow>
        mq' = mq\<lparr>bc_calls := bc_calls mq'\<rparr> \<and>
        owed (bc_calls mq') \<subseteq> owed (bc_calls mq) \<union> unsubs unsub r)"

lemma subscribes_nats: "subscribes (nats_subscribe ev) NatsUnsubscribe"
  by (auto simp: subscribes_def subscribeToNATS_def call_new_def add_call_def owed_append
      split: option.splits)

lemma subscribes_stan: "subscribes (subscribeToChannel ev bv) StanUnsubscribe"
  by (auto simp: subscribes_def subscribeToChannel_def call_new_def add_call_def owed_append Let_def
      split: option.splits if_splits)

lemma subscribesE:
  assumes "subscribes subscribe unsub" "subscribe mq = (r, mq')"
  obtains cs where "mq' = mq\<lparr>bc_calls := cs\<rparr>"
    "owed cs \<subseteq> owed (bc_calls mq) \<union> unsubs unsub r"
  using assms unfolding subscribes_def by blast

lemma ql_start_owed:
  assumes "ql_start ev mq = (r, mq')" "no_tls_warning ev"
    and "bc_qMgr mq = None" "ql_queue mq = None" "ql_shutdownCB mq = None"
  shows "owed (bc_calls mq') \<subseteq> owed (bc_calls mq) \<union> held_ql mq'"
proof -
  obtain r1 m1 where 1: "connectToMQ ev mq = (r1, m1)" by fastforce
  from 1 assms(2) show ?thesis
  proof (cases rule: connectToMQ_cases)
    case (connected n)
    obtain r2 m2 where 2: "connectToQueue ev (cfg_Queue (bc_config m1)) MQOO_INPUT_SHARED m1 = (r2, m2)"
      by fastforce
    from 2 [unfolded connectToQueue_def] show ?thesis
    proof (cases rule: call_new_cases)
      case created
      let ?q = "QueueObj (length (bc_calls m1))"
      obtain r3 m3 where 3: "setUpListener ev ?q (m2\<lparr>ql_queue := Some ?q\<rparr>) = (r3, m3)" by fastforce
      from 3 obtain cs where cs: "m3 = m2\<lparr>ql_queue := Some ?q, bc_calls := cs\<rparr>"
        "owed cs \<subseteq> owed (bc_calls m2) \<union> stops (bc_qMgr m2) r3"
        by (rule setUpListener_owed) simp
      show ?thesis
        using assms(1,5) 1 2 3 connected created cs
        by (cases r3) (auto simp: ql_start_def upd_stats_def held_ql_def owed_append)
    qed (use assms(1,4,5) 1 2 connected in \<open>auto simp: ql_start_def held_ql_def owed_append\<close>)
  qed (use assms(1,3-5) 1 in \<open>auto simp: ql_start_def held_ql_def owed_append\<close>)
qed

lemma tl_start_owed:
  assumes "tl_start ev mq = (r, mq')" "no_tls_warning ev"
    and "bc_qMgr mq = None" "tl_topic mq = None" "tl_sub mq = None" "tl_shutdownCB mq = None"
  shows "owed (bc_calls mq') \<subseteq> owed (bc_calls mq) \<union> held_tl mq'
    \<and> (tl_topic mq' = None \<longrightarrow> tl_sub mq' = None \<and> tl_shutdownCB mq' = None)"
proof -
  obtain r1 m1 where 1: "connectToMQ ev mq = (r1, m1)" by fastforce
  from 1 assms(2) show ?thesis
  proof (cases rule: connectToMQ_cases)
    case (connected n)
    obtain r2 m2 where 2: "subscribeToTopic ev (cfg_Topic (bc_config m1)) m1 = (r2, m2)" by fastforce
    from 2 [unfolded subscribeToTopic_def] show ?thesis
    proof (cases rule: call_new_cases)
      case created
      let ?m = "m2\<lparr>tl_topic := Some (TopicObj (length (bc_calls m1))), tl_sub := Some (SubObj (length (bc_calls m1)))\<rparr>"
      obtain r3 m3 where 3: "setUpListener ev (TopicObj (length (bc_calls m1))) ?m = (r3, m3)" by fastforce
      from 3 obtain cs where cs: "m3 = ?m\<lparr>bc_calls := cs\<rparr>"
        "owed cs \<subseteq> owed (bc_calls m2) \<union> stops (bc_qMgr m2) r3"
        by (rule setUpListener_owed) simp
      show ?thesis
        using assms(1,6) 1 2 3 connected created cs
        by (cases r3) (auto simp: tl_start_def upd_stats_def held_tl_def owed_append)
    qed (use assms(1,4-6) 1 2 connected in \<open>auto simp: tl_start_def held_tl_def owed_append\<close>)
  qed (use assms(1,3-6) 1 in \<open>auto simp: tl_start_def held_tl_def owed_append\<close>)
qed

lemma qp_start_owed:
  assumes "qp_start ev subscribe mq = (r, mq')" "no_tls_warning ev" "subscribes subscribe unsub"
    and "bc_qMgr mq = None" "qp_queue mq = None" "qp_sub mq = None"
  shows "owed (bc_calls mq') \<subseteq> owed (bc_calls mq) \<union> held_qp unsub mq'"
proof -
  obtain r1 m1 where 1: "connectToMQ ev mq = (r1, m1)" by fastforce
  from 1 assms(2) show ?thesis
  proof (cases rule: connectToMQ_cases)
    case (connected n)
    obtain r2 m2 where 2: "connectToQueue ev (cfg_Queue (bc_config m1)) MQOO_OUTPUT m1 = (r2, m2)" by fastforce
    from 2 [unfolded connectToQueue_def] show ?thesis
    proof (cases rule: call_new_cases)
      case created
      let ?m = "m2\<lparr>qp_queue := Some (QueueObj (length (bc_calls m1)))\<rparr>"
      obtain r3 m3 where 3: "subscribe ?m = (r3, m3)" by fastforce
      from assms(3) 3 obtain cs where cs: "m3 = ?m\<lparr>bc_calls := cs\<rparr>"
        "owed cs \<subseteq> owed (bc_calls m2) \<union> unsubs unsub r3"
        by (rule subscribesE) simp
      show ?thesis
        using assms(1,6) 1 2 3 connected created cs
        by (cases r3) (auto simp: qp_start_def upd_stats_def held_qp_def owed_append)
    qed (use assms(1,5,6) 1 2 connected in \<open>auto simp: qp_start_def held_qp_def owed_append\<close>)
  qed (use assms(1,4-6) 1 in \<open>auto simp: qp_start_def held_qp_def owed_append\<close>)
qed

lemma tp_start_owed:
  assumes "tp_start ev subscribe mq = (r, mq')" "no_tls_warning ev" "subscribes subscribe unsub"
    and "bc_qMgr mq = None" "tp_topic mq = None" "tp_sub mq = None"
  shows "owed (bc_calls mq') \<subseteq> owed (bc_calls mq) \<union> held_tp unsub mq'"
proof -
  obtain r1 m1 where 1: "connectToMQ ev mq = (r1, m1)" by fastforce
  from 1 assms(2) show ?thesis
  proof (cases rule: connectToMQ_cases)
    case (connected n)
    obtain r2 m2 where 2: "connectToTopic ev (cfg_Topic (bc_config m1)) m1 = (r2, m2)" by fastforce
    from 2 [unfolded connectToTopic_def] show ?thesis
    proof (cases rule: call_new_cases)
      case created
      let ?m = "m2\<lparr>tp_topic := Some (TopicObj (length (bc_calls m1)))\<rparr>"
      obtain r3 m3 where 3: "subscribe ?m = (r3, m3)" by fastforce
      from assms(3) 3 obtain cs where cs: "m3 = ?m\<lparr>bc_calls := cs\<rparr>"
        "owed cs \<subseteq> owed (bc_calls m2) \<union> unsubs unsub r3"
        by (rule subscribesE) simp
      show ?thesis
        using assms(1,6) 1 2 3 connected created cs
        by (cases r3) (auto simp: tp_start_def upd_stats_def held_tp_def owed_append)
    qed (use assms(1,5,6) 1 2 connected in \<open>auto simp: tp_start_def held_tp_def owed_append\<close>)
  qed (use assms(1,4-6) 1 in \<open>auto simp: tp_start_def held_tp_def owed_append\<close>)
qed

section \<open>Shutting down gives back what is held\<close>

lemma ql_shutdown_owed:
  assumes "Queue2NATS_Shutdown ev c = (e, c') \<or> Queue2STAN_Shutdown ev c = (e, c')"
  shows "owed (bc_calls c') \<subseteq> owed (bc_calls c) - held_ql c \<and> bc_qMgr c' = None
    \<and> ql_queue c' = None \<and> ql_shutdownCB c' = None"
  using assms
  by (cases "bc_qMgr c"; cases "ql_queue c"; cases "ql_shutdownCB c")
    (auto simp: Queue2NATS_Shutdown_def Queue2STAN_Shutdown_def upd_stats_def runShutdownCallback_def
      add_call_def closeObject_def disconnect_def held_ql_def owed_append Let_def
      split: ShutdownCallback.splits)

lemma tl_shutdown_owed:
  assumes "Topic2NATS_Shutdown ev c = (e, c') \<or> Topic2Stan_Shutdown ev c = (e, c')" "tl_topic c \<noteq> None"
  shows "owed (bc_calls c') \<subseteq> owed (bc_calls c) - held_tl c \<and> bc_qMgr c' = None
    \<and> tl_topic c' = None \<and> tl_sub c' = None \<and> tl_shutdownCB c' = None"
  using assms
  by (cases "bc_qMgr c"; cases "tl_sub c"; cases "tl_shutdownCB c")
    (auto simp: Topic2NATS_Shutdown_def Topic2Stan_Shutdown_def upd_stats_def runShutdownCallback_def
      add_call_def closeObject_def disconnect_def held_tl_def owed_append Let_def
      split: ShutdownCallback.splits)

lemma qp_shutdown_owed:
  assumes "NATS2Queue_Shutdown ev c = (e, c') \<and> unsub = NatsUnsubscribe
    \<or> Stan2Queue_Shutdown ev c = (e, c') \<and> unsub = StanUnsubscribe \<and> cfg_DurableName (bc_config c) = ''''"
  shows "owed (bc_calls c') \<subseteq> owed (bc_calls c) - held_qp unsub c \<and> bc_qMgr c' = None
    \<and> qp_queue c' = None \<and> qp_sub c' = None"
  using assms
  by (cases "bc_qMgr c"; cases "qp_queue c"; cases "qp_sub c")
    (auto simp: NATS2Queue_Shutdown_def Stan2Queue_Shutdown_def upd_stats_def add_call_def
      closeObject_def disconnect_def held_qp_def owed_append Let_def)

lemma tp_shutdown_owed:
  assumes "NATS2Topic_Shutdown ev c = (e, c') \<and> unsub = NatsUnsubscribe
    \<or> Stan2Topic_Shutdown ev c = (e, c') \<and> unsub = StanUnsubscribe \<and> cfg_DurableName (bc_config c) = ''''"
  shows "owed (bc_calls c') \<subseteq> owed (bc_calls c) - held_tp unsub c \<and> bc_qMgr c' = None
    \<and> tp_topic c' = None \<and> tp_sub c' = None"
  using assms
  by (cases "bc_qMgr c"; cases "tp_topic c"; cases "tp_sub c")
    (auto simp: NATS2Topic_Shutdown_def Stan2Topic_Shutdown_def upd_stats_def add_call_def
      closeObject_def disconnect_def held_tp_def owed_append Let_def)

section \<open>Configuration and statistics\<close>

text \<open>A start that succeeds counts a connect; one that fails leaves the statistics alone.\<close>

definition start_frame :: "'a BridgeConnector_scheme \<Rightarrow> unit outcome \<times> 'a BridgeConnector_scheme \<Rightarrow> bool" where
  "start_frame c p \<longleftrightarrow> bc_config (snd p) = bc_config c
     \<and> bc_stats (snd p) = (if fst p = Ok () then AddConnect (bc_stats c) else bc_stats c)"

lemma ql_start_frame: "start_frame mq (ql_start ev mq)"
proof -
  obtain r mq' where "ql_start ev mq = (r, mq')" by fastforce
  then show ?thesis
    by (auto simp: start_frame_def ql_start_def upd_stats_def Let_def same_base_def
        elim!: or_return_cases dest!: same_base_helpers)
qed

lemma tl_start_frame: "start_frame mq (tl_start ev mq)"
proof -
  obtain r mq' where "tl_start ev mq = (r, mq')" by fastforce
  then show ?thesis
    by (auto simp: start_frame_def tl_start_def upd_stats_def Let_def same_base_def
        elim!: or_return_cases dest!: same_base_helpers)
qed

lemma qp_start_frame:
  "start_frame mq (qp_start ev (nats_subscribe ev) mq)"
  "start_frame mq (qp_start ev (subscribeToChannel ev bv) mq)"
proof -
  obtain r mq' where "qp_start ev (nats_subscribe ev) mq = (r, mq')" by fastforce
  then show "start_frame mq (qp_start ev (nats_subscribe ev) mq)"
    by (auto simp: start_frame_def qp_start_def upd_stats_def Let_def same_base_def
        elim!: or_return_cases dest!: same_base_helpers)
  obtain r mq' where "qp_start ev (subscribeToChannel ev bv) mq = (r, mq')" by fastforce
  then show "start_frame mq (qp_start ev (subscribeToChannel ev bv) mq)"
    by (auto simp: start_frame_def qp_start_def upd_stats_def Let_def same_base_def
        elim!: or_return_cases dest!: same_base_helpers)
qed

lemma tp_start_frame:
  "start_frame mq (tp_start ev (nats_subscribe ev) mq)"
  "start_frame mq (tp_start ev (subscribeToChannel ev bv) mq)"
proof -
  obtain r mq' where "tp_start ev (nats_subscribe ev) mq = (r, mq')" by fastforce
  then show "start_frame mq (tp_start ev (nats_subscribe ev) mq)"
    by (auto simp: start_frame_def tp_start_def upd_stats_def Let_def same_base_def
        elim!: or_return_cases dest!: same_base_helpers)
  obtain r mq' where "tp_start ev (subscribeToChannel ev bv) mq = (r, mq')" by fastforce
  then show "start_frame mq (tp_start ev (subscribeToChannel ev bv) mq)"
    by (auto simp: start_frame_def tp_start_def upd_stats_def Let_def same_base_def
        elim!: or_return_cases dest!: same_base_helpers)
qed

lemma base_sel [simp]:
  "bc_config (BridgeConnector.truncate c) = bc_config c"
  "bc_stats (BridgeConnector.truncate c) = bc_stats c"
  "bc_qMgr (BridgeConnector.truncate c) = bc_qMgr c"
  "bc_calls (BridgeConnector.truncate c) = bc_calls c"
  by (simp_all add: BridgeConnector.truncate_def)

lemmas start_frames = ql_start_frame [unfolded start_frame_def] tl_start_frame [unfolded start_frame_def]
  qp_start_frame [unfolded start_frame_def] tp_start_frame [unfolded start_frame_def]

lemma Connector_Start_frame:
  assumes "Connector_Start ev bv c = (r, c')"
  shows "bc_config (base c') = bc_config (base c)
    \<and> bc_stats (base c') = (if r = Ok () then AddConnect (bc_stats (base c)) else bc_stats (base c))
    \<and> needs_stan c' = needs_stan c
    \<and> (r = Ok () \<longrightarrow> (if needs_stan c then bv_CheckStan bv else bv_CheckNATS bv))"
  using assms
  by (cases c) (auto simp: start_shapes start_frames map_prod_def split_beta split: if_splits)

lemma Connector_Shutdown_frame:
  assumes "Connector_Shutdown ev c = (e, c')"
  shows "bc_config (base c') = bc_config (base c) \<and> bc_stats (base c') = AddDisconnect (bc_stats (base c))
    \<and> needs_stan c' = needs_stan c"
  using assms
  by (cases c)
    (auto simp: shutdown_defs map_prod_def split_beta upd_stats_def runShutdownCallback_def add_call_def
      closeObject_def disconnect_def Let_def split: option.splits ShutdownCallback.splits if_splits)

section \<open>A connector that holds nothing\<close>

fun idle :: "Connector \<Rightarrow> bool" where
  "idle (Queue2NATSConnector c) = (bc_qMgr c = None \<and> ql_queue c = None \<and> ql_shutdownCB c = None \<and> owed (bc_calls c) = {})"
| "idle (Queue2STANConnector c) = (bc_qMgr c = None \<and> ql_queue c = None \<and> ql_shutdownCB c = None \<and> owed (bc_calls c) = {})"
| "idle (Topic2NATSConnector c) = (bc_qMgr c = None \<and> tl_topic c = None \<and> tl_sub c = None \<and> tl_shutdownCB c = None \<and> owed (bc_calls c) = {})"
| "idle (Topic2StanConnector c) = (bc_qMgr c = None \<and> tl_topic c = None \<and> tl_sub c = None \<and> tl_shutdownCB c = None \<and> owed (bc_calls c) = {})"
| "idle (NATS2QueueConnector c) = (bc_qMgr c = None \<and> qp_queue c = None \<and> qp_sub c = None \<and> owed (bc_calls c) = {})"
| "idle (NATS2TopicConnector c) = (bc_qMgr c = None \<and> tp_topic c = None \<and> tp_sub c = None \<and> owed (bc_calls c) = {})"
| "idle (Stan2QueueConnector c) = (bc_qMgr c = None \<and> qp_queue c = None \<and> qp_sub c = None \<and> owed (bc_calls c) = {})"
| "idle (Stan2TopicConnector c) = (bc_qMgr c = None \<and> tp_topic c = None \<and> tp_sub c = None \<and> owed (bc_calls c) = {})"

fun listens_to_topic :: "Connector \<Rightarrow> bool" where
  "listens_to_topic (Topic2NATSConnector _) = True"
| "listens_to_topic (Topic2StanConnector _) = True"
| "listens_to_topic _ = False"

lemma ql_cycle:
  assumes "ql_start ev c = (r, c1)" "no_tls_warning ev"
    and "Queue2NATS_Shutdown ev' c1 = (e, c2) \<or> Queue2STAN_Shutdown ev' c1 = (e, c2)"
    and "bc_qMgr c = None" "ql_queue c = None" "ql_shutdownCB c = None" "owed (bc_calls c) = {}"
  shows "bc_qMgr c2 = None \<and> ql_queue c2 = None \<and> ql_shutdownCB c2 = None \<and> owed (bc_calls c2) = {}"
  using ql_start_owed [OF assms(1,2,4-6)] ql_shutdown_owed [OF assms(3)] assms(7) by blast

lemma tl_cycle:
  assumes "tl_start ev c = (r, c1)" "no_tls_warning ev" "bc_qMgr c1 = None \<or> tl_topic c1 \<noteq> None"
    and "Topic2NATS_Shutdown ev' c1 = (e, c2) \<or> Topic2Stan_Shutdown ev' c1 = (e, c2)"
    and "bc_qMgr c = None" "tl_topic c = None" "tl_sub c = None" "tl_shutdownCB c = None" "owed (bc_calls c) = {}"
  shows "bc_qMgr c2 = None \<and> tl_topic c2 = None \<and> tl_sub c2 = None \<and> tl_shutdownCB c2 = None
    \<and> owed (bc_calls c2) = {}"
proof (cases "tl_topic c1")
  case None
  then have "c2 = upd_stats AddDisconnect c1"
    using assms(4) by (auto simp: shutdown_defs upd_stats_def Let_def)
  then show ?thesis
    using tl_start_owed [OF assms(1,2,5-8)] assms(3,9) None by (auto simp: upd_stats_def held_tl_def)
next
  case (Some t)
  then show ?thesis
    using tl_start_owed [OF assms(1,2,5-8)] tl_shutdown_owed [OF assms(4)] assms(9) by blast
qed

lemma qp_cycle:
  assumes "qp_start ev subscribe c = (r, c1)" "no_tls_warning ev" "subscribes subscribe unsub"
    and "NATS2Queue_Shutdown ev' c1 = (e, c2) \<and> unsub = NatsUnsubscribe
      \<or> Stan2Queue_Shutdown ev' c1 = (e, c2) \<and> unsub = StanUnsubscribe \<and> cfg_DurableName (bc_config c1) = ''''"
    and "bc_qMgr c = None" "qp_queue c = None" "qp_sub c = None" "owed (bc_calls c) = {}"
  shows "bc_qMgr c2 = None \<and> qp_queue c2 = None \<and> qp_sub c2 = None \<and> owed (bc_calls c2) = {}"
  using qp_start_owed [OF assms(1-3,5-7)] qp_shutdown_owed [OF assms(4)] assms(8) by blast

lemma tp_cycle:
  assumes "tp_start ev subscribe c = (r, c1)" "no_tls_warning ev" "subscribes subscribe unsub"
    and "NATS2Topic_Shutdown ev' c1 = (e, c2) \<and> unsub = NatsUnsubscribe
      \<or> Stan2Topic_Shutdown ev' c1 = (e, c2) \<and> unsub = StanUnsubscribe \<and> cfg_DurableName (bc_config c1) = ''''"
    and "bc_qMgr c = None" "tp_topic c = None" "tp_sub c = None" "owed (bc_calls c) = {}"
  shows "bc_qMgr c2 = None \<and> tp_topic c2 = None \<and> tp_sub c2 = None \<and> owed (bc_calls c2) = {}"
  using tp_start_owed [OF assms(1-3,5-7)] tp_shutdown_owed [OF assms(4)] assms(8) by blast

text \<open>Shutting down an idle connector only counts a disconnect.\<close>

lemma shutdown_idle: "idle c \<Longrightarrow> idle (snd (Connector_Shutdown ev c))"
  by (cases c) (simp_all add: shutdown_defs upd_stats_def disconnect_def Let_def)

section \<open>The contract of a connector\<close>

text \<open>
  What the bridge server relies on, for any kind of connector: \<open>start\<close> and \<open>shutdown\<close> (each with the
  state of the world it runs in) keep the identity; a successful start marks the connector connected
  and counts it, a failed one changes no statistics; a shutdown marks it disconnected and counts it.
  A life of a connector is a sequence of starts and shutdowns; \<open>run\<close> counts the successful starts and
  the shutdowns.
\<close>

datatype ('v, 'e) life = Up 'v | Down 'e

fun run :: "('v \<Rightarrow> 'c \<Rightarrow> unit outcome \<times> 'c) \<Rightarrow> ('e \<Rightarrow> 'c \<Rightarrow> go_error option \<times> 'c) \<Rightarrow>
    'c \<Rightarrow> ('v, 'e) life list \<Rightarrow> 'c \<times> nat \<times> nat" where
  "run start shutdown c [] = (c, 0, 0)"
| "run start shutdown c (Up v # xs) =
     (case start v c of (r, c1) \<Rightarrow>
        case run start shutdown c1 xs of (c', u, d) \<Rightarrow> (c', (if r = Ok () then Suc u else u), d))"
| "run start shutdown c (Down e # xs) =
     (case shutdown e c of (_, c1) \<Rightarrow> case run start shutdown c1 xs of (c', u, d) \<Rightarrow> (c', u, Suc d))"

text \<open>Lives that alternate between a start and a shutdown.\<close>

definition rounds :: "('v \<times> 'e) list \<Rightarrow> ('v, 'e) life list" where
  "rounds ves = concat (map (\<lambda>(v, e). [Up v, Down e]) ves)"

locale connector =
  fixes start :: "'v \<Rightarrow> 'c \<Rightarrow> unit outcome \<times> 'c"
    and shutdown :: "'e \<Rightarrow> 'c \<Rightarrow> go_error option \<times> 'c"
    and stats :: "'c \<Rightarrow> ConnectorStats"
  assumes start_stats: "start v c = (r, c') \<Longrightarrow> stats c' = (if r = Ok () then AddConnect (stats c) else stats c)"
    and shutdown_stats: "shutdown e c = (x, c') \<Longrightarrow> stats c' = AddDisconnect (stats c)"
begin

lemma run_stats:
  assumes "run start shutdown c xs = (c', u, d)"
  shows "st_ID (stats c') = st_ID (stats c) \<and> st_Name (stats c') = st_Name (stats c)
    \<and> st_Connects (stats c') = st_Connects (stats c) + of_nat u
    \<and> st_Disconnects (stats c') = st_Disconnects (stats c) + of_nat d"
  using assms
proof (induction xs arbitrary: c u d)
  case (Cons x xs)
  show ?case
  proof (cases x)
    case (Up v)
    obtain r c1 where s: "start v c = (r, c1)" by fastforce
    obtain c2 u2 d2 where rest: "run start shutdown c1 xs = (c2, u2, d2)" by (metis prod_cases3)
    show ?thesis
      using Cons.IH [of c1 u2 d2] Cons.prems start_stats [OF s] s rest Up
      by (auto simp: AddConnect_def split: if_splits)
  next
    case (Down e)
    obtain r c1 where s: "shutdown e c = (r, c1)" by fastforce
    obtain c2 u2 d2 where rest: "run start shutdown c1 xs = (c2, u2, d2)" by (metis prod_cases3)
    show ?thesis
      using Cons.IH [of c1 u2 d2] Cons.prems shutdown_stats [OF s] s rest Down
      by (auto simp: AddDisconnect_def)
  qed
qed simp

lemma run_Down_last:
  "fst (run start shutdown c (xs @ [Down e])) = snd (shutdown e (fst (run start shutdown c xs)))"
proof (induction xs arbitrary: c)
  case (Cons x xs)
  then show ?case by (cases x) (auto simp: split_beta)
qed (simp add: split_beta)

lemma run_ends_disconnected:
  "\<not> st_Connected (stats (fst (run start shutdown c (xs @ [Down e]))))"
  using shutdown_stats [of e "fst (run start shutdown c xs)"
      "fst (shutdown e (fst (run start shutdown c xs)))" "snd (shutdown e (fst (run start shutdown c xs)))"]
  by (simp add: run_Down_last AddDisconnect_def)

end

text \<open>
  A connector that gives back what it takes: a round of a start, successful or not, and a shutdown
  leaves it as idle as it was, as long as the round is \<open>sound\<close>.
\<close>

locale releasing_connector = connector +
  fixes idle :: "'b \<Rightarrow> bool"
    and sound :: "'a \<Rightarrow> 'b \<Rightarrow> bool"
  assumes round_idle:
    "idle c \<Longrightarrow> sound v c \<Longrightarrow> start v c = (r, c1) \<Longrightarrow> shutdown e c1 = (x, c2) \<Longrightarrow> idle c2"
begin

text \<open>All rounds of a life are sound, each for the connector that the earlier ones left.\<close>

lemma rounds_idle:
  assumes "idle c"
    and "\<forall>n v e. n < length ves \<longrightarrow> ves ! n = (v, e) \<longrightarrow>
      sound v (fst (run start shutdown c (rounds (take n ves))))"
  shows "idle (fst (run start shutdown c (rounds ves)))"
  using assms
proof (induction ves arbitrary: c)
  case (Cons ve ves)
  obtain v e where ve: "ve = (v, e)" by fastforce
  obtain r c1 where s: "start v c = (r, c1)" by fastforce
  obtain x c2 where d: "shutdown e c1 = (x, c2)" by fastforce
  have step: "fst (run start shutdown c (rounds ((v, e) # xs))) = fst (run start shutdown c2 (rounds xs))" for xs
    using s d by (simp add: rounds_def split_beta)
  have "sound v c" using Cons.prems(2) ve by (force simp: rounds_def)
  then have i: "idle c2" using round_idle [OF Cons.prems(1) _ s d] by blast
  have "sound v' (fst (run start shutdown c2 (rounds (take n ves))))"
    if "n < length ves" "ves ! n = (v', e')" for n v' e'
    using Cons.prems(2) [rule_format, of "Suc n" v' e'] that ve step by simp
  then show ?case using Cons.IH [OF i] step ve by simp
qed (simp add: rounds_def)

end

interpretation conn: connector "\<lambda>(ev, bv). Connector_Start ev bv" Connector_Shutdown "\<lambda>c. bc_stats (base c)"
proof
  show "bc_stats (base c') = (if r = Ok () then AddConnect (bc_stats (base c)) else bc_stats (base c))"
    if "(case v of (ev, bv) \<Rightarrow> Connector_Start ev bv) c = (r, c')" for v c r c'
    using that Connector_Start_frame [of "fst v" "snd v" c r c'] by (simp add: split_beta)
  show "bc_stats (base c') = AddDisconnect (bc_stats (base c))"
    if "Connector_Shutdown ev c = (x, c')" for ev c x c'
    using that Connector_Shutdown_frame by blast
qed

section \<open>Every connector type releases what it takes\<close>

fun topic_of :: "Connector \<Rightarrow> mqobj option" where
  "topic_of (Topic2NATSConnector c) = tl_topic c"
| "topic_of (Topic2StanConnector c) = tl_topic c"
| "topic_of _ = None"

text \<open>A streaming subscription with a durable name, which a shutdown keeps on purpose.\<close>

fun keeps_subscription :: "Connector \<Rightarrow> bool" where
  "keeps_subscription (Stan2QueueConnector c) = (cfg_DurableName (bc_config c) \<noteq> '''')"
| "keeps_subscription (Stan2TopicConnector c) = (cfg_DurableName (bc_config c) \<noteq> '''')"
| "keeps_subscription _ = False"

text \<open>
  The rounds that release everything: no TLS warning, no durable subscription, and a connector that
  listens to a topic does not end its start connected to the queue manager but without the topic.
\<close>

definition sound_round :: "env \<times> bridge_view \<Rightarrow> Connector \<Rightarrow> bool" where
  "sound_round v c \<longleftrightarrow> no_tls_warning (fst v) \<and> \<not> keeps_subscription c
     \<and> (let c1 = snd (Connector_Start (fst v) (snd v) c)
        in listens_to_topic c \<longrightarrow> bc_qMgr (base c1) = None \<or> topic_of c1 \<noteq> None)"

lemma qp_start_config: "qp_start ev (subscribeToChannel ev bv) c = (r, c1) \<Longrightarrow> bc_config c1 = bc_config c"
  using qp_start_frame(2) [of c ev bv] by (simp add: start_frame_def)

lemma tp_start_config: "tp_start ev (subscribeToChannel ev bv) c = (r, c1) \<Longrightarrow> bc_config c1 = bc_config c"
  using tp_start_frame(2) [of c ev bv] by (simp add: start_frame_def)

text \<open>Each type of connector, when the shared connection it needs is up.\<close>

lemma Queue2NATS_round:
  assumes "idle (Queue2NATSConnector d)" "sound_round (ev, bv) (Queue2NATSConnector d)"
    and "Connector_Start ev bv (Queue2NATSConnector d) = (r, c1)" "Connector_Shutdown ev' c1 = (x, c2)"
    and "bv_CheckNATS bv"
  shows "idle c2"
proof -
  have tls: "no_tls_warning ev" using assms(2) by (simp add: sound_round_def)
  from assms(3,5) obtain d1 where 1: "ql_start ev d = (r, d1)" "c1 = Queue2NATSConnector d1"
    by (auto simp: start_shapes map_prod_id_eq)
  with assms(4) obtain d2 where 2: "Queue2NATS_Shutdown ev' d1 = (x, d2)" "c2 = Queue2NATSConnector d2"
    by (auto simp: map_prod_id_eq)
  show ?thesis using ql_cycle [OF 1(1) tls disjI1 [OF 2(1)]] assms(1) 2(2) by simp
qed

lemma Queue2STAN_round:
  assumes "idle (Queue2STANConnector d)" "sound_round (ev, bv) (Queue2STANConnector d)"
    and "Connector_Start ev bv (Queue2STANConnector d) = (r, c1)" "Connector_Shutdown ev' c1 = (x, c2)"
    and "bv_CheckStan bv"
  shows "idle c2"
proof -
  have tls: "no_tls_warning ev" using assms(2) by (simp add: sound_round_def)
  from assms(3,5) obtain d1 where 1: "ql_start ev d = (r, d1)" "c1 = Queue2STANConnector d1"
    by (auto simp: start_shapes map_prod_id_eq)
  with assms(4) obtain d2 where 2: "Queue2STAN_Shutdown ev' d1 = (x, d2)" "c2 = Queue2STANConnector d2"
    by (auto simp: map_prod_id_eq)
  show ?thesis using ql_cycle [OF 1(1) tls disjI2 [OF 2(1)]] assms(1) 2(2) by simp
qed

lemma Topic2NATS_round:
  assumes "idle (Topic2NATSConnector d)" "sound_round (ev, bv) (Topic2NATSConnector d)"
    and "Connector_Start ev bv (Topic2NATSConnector d) = (r, c1)" "Connector_Shutdown ev' c1 = (x, c2)"
    and "bv_CheckNATS bv"
  shows "idle c2"
proof -
  have tls: "no_tls_warning ev" using assms(2) by (simp add: sound_round_def)
  from assms(3,5) obtain d1 where 1: "tl_start ev d = (r, d1)" "c1 = Topic2NATSConnector d1"
    by (auto simp: start_shapes map_prod_id_eq)
  with assms(4) obtain d2 where 2: "Topic2NATS_Shutdown ev' d1 = (x, d2)" "c2 = Topic2NATSConnector d2"
    by (auto simp: map_prod_id_eq)
  have ok: "bc_qMgr d1 = None \<or> tl_topic d1 \<noteq> None"
    using assms(2,3) 1(2) by (auto simp: sound_round_def map_prod_id_eq)
  show ?thesis using tl_cycle [OF 1(1) tls ok disjI1 [OF 2(1)]] assms(1) 2(2) by simp
qed

lemma Topic2Stan_round:
  assumes "idle (Topic2StanConnector d)" "sound_round (ev, bv) (Topic2StanConnector d)"
    and "Connector_Start ev bv (Topic2StanConnector d) = (r, c1)" "Connector_Shutdown ev' c1 = (x, c2)"
    and "bv_CheckStan bv"
  shows "idle c2"
proof -
  have tls: "no_tls_warning ev" using assms(2) by (simp add: sound_round_def)
  from assms(3,5) obtain d1 where 1: "tl_start ev d = (r, d1)" "c1 = Topic2StanConnector d1"
    by (auto simp: start_shapes map_prod_id_eq)
  with assms(4) obtain d2 where 2: "Topic2Stan_Shutdown ev' d1 = (x, d2)" "c2 = Topic2StanConnector d2"
    by (auto simp: map_prod_id_eq)
  have ok: "bc_qMgr d1 = None \<or> tl_topic d1 \<noteq> None"
    using assms(2,3) 1(2) by (auto simp: sound_round_def map_prod_id_eq)
  show ?thesis using tl_cycle [OF 1(1) tls ok disjI2 [OF 2(1)]] assms(1) 2(2) by simp
qed

lemma NATS2Queue_round:
  assumes "idle (NATS2QueueConnector d)" "sound_round (ev, bv) (NATS2QueueConnector d)"
    and "Connector_Start ev bv (NATS2QueueConnector d) = (r, c1)" "Connector_Shutdown ev' c1 = (x, c2)"
    and "bv_CheckNATS bv"
  shows "idle c2"
proof -
  have tls: "no_tls_warning ev" using assms(2) by (simp add: sound_round_def)
  from assms(3,5) obtain d1 where 1: "qp_start ev (nats_subscribe ev) d = (r, d1)" "c1 = NATS2QueueConnector d1"
    by (auto simp: start_shapes map_prod_id_eq)
  with assms(4) obtain d2 where 2: "NATS2Queue_Shutdown ev' d1 = (x, d2)" "c2 = NATS2QueueConnector d2"
    by (auto simp: map_prod_id_eq)
  show ?thesis using qp_cycle [OF 1(1) tls subscribes_nats disjI1 [OF conjI [OF 2(1) refl]]] assms(1) 2(2) by simp
qed

lemma NATS2Topic_round:
  assumes "idle (NATS2TopicConnector d)" "sound_round (ev, bv) (NATS2TopicConnector d)"
    and "Connector_Start ev bv (NATS2TopicConnector d) = (r, c1)" "Connector_Shutdown ev' c1 = (x, c2)"
    and "bv_CheckNATS bv"
  shows "idle c2"
proof -
  have tls: "no_tls_warning ev" using assms(2) by (simp add: sound_round_def)
  from assms(3,5) obtain d1 where 1: "tp_start ev (nats_subscribe ev) d = (r, d1)" "c1 = NATS2TopicConnector d1"
    by (auto simp: start_shapes map_prod_id_eq)
  with assms(4) obtain d2 where 2: "NATS2Topic_Shutdown ev' d1 = (x, d2)" "c2 = NATS2TopicConnector d2"
    by (auto simp: map_prod_id_eq)
  show ?thesis using tp_cycle [OF 1(1) tls subscribes_nats disjI1 [OF conjI [OF 2(1) refl]]] assms(1) 2(2) by simp
qed

lemma Stan2Queue_round:
  assumes "idle (Stan2QueueConnector d)" "sound_round (ev, bv) (Stan2QueueConnector d)"
    and "Connector_Start ev bv (Stan2QueueConnector d) = (r, c1)" "Connector_Shutdown ev' c1 = (x, c2)"
    and "bv_CheckStan bv"
  shows "idle c2"
proof -
  have tls: "no_tls_warning ev" using assms(2) by (simp add: sound_round_def)
  from assms(3,5) obtain d1 where 1: "qp_start ev (subscribeToChannel ev bv) d = (r, d1)" "c1 = Stan2QueueConnector d1"
    by (auto simp: start_shapes map_prod_id_eq)
  with assms(4) obtain d2 where 2: "Stan2Queue_Shutdown ev' d1 = (x, d2)" "c2 = Stan2QueueConnector d2"
    by (auto simp: map_prod_id_eq)
  have ok: "cfg_DurableName (bc_config d1) = ''''"
    using assms(2) qp_start_config [OF 1(1)] by (simp add: sound_round_def)
  show ?thesis using qp_cycle [OF 1(1) tls subscribes_stan disjI2 [OF conjI [OF 2(1) conjI [OF refl ok]]]] assms(1) 2(2) by simp
qed

lemma Stan2Topic_round:
  assumes "idle (Stan2TopicConnector d)" "sound_round (ev, bv) (Stan2TopicConnector d)"
    and "Connector_Start ev bv (Stan2TopicConnector d) = (r, c1)" "Connector_Shutdown ev' c1 = (x, c2)"
    and "bv_CheckStan bv"
  shows "idle c2"
proof -
  have tls: "no_tls_warning ev" using assms(2) by (simp add: sound_round_def)
  from assms(3,5) obtain d1 where 1: "tp_start ev (subscribeToChannel ev bv) d = (r, d1)" "c1 = Stan2TopicConnector d1"
    by (auto simp: start_shapes map_prod_id_eq)
  with assms(4) obtain d2 where 2: "Stan2Topic_Shutdown ev' d1 = (x, d2)" "c2 = Stan2TopicConnector d2"
    by (auto simp: map_prod_id_eq)
  have ok: "cfg_DurableName (bc_config d1) = ''''"
    using assms(2) tp_start_config [OF 1(1)] by (simp add: sound_round_def)
  show ?thesis using tp_cycle [OF 1(1) tls subscribes_stan disjI2 [OF conjI [OF 2(1) conjI [OF refl ok]]]] assms(1) 2(2) by simp
qed

text \<open>A start whose shared connection is down changes nothing.\<close>

lemma round_idle:
  assumes "idle c" "sound_round (ev, bv) c"
    and "Connector_Start ev bv c = (r, c1)" "Connector_Shutdown ev' c1 = (x, c2)"
  shows "idle c2"
proof (cases "if needs_stan c then bv_CheckStan bv else bv_CheckNATS bv")
  case False
  then have "c1 = c" using assms(3) by (cases c) (auto simp: start_shapes)
  then show ?thesis using shutdown_idle [OF assms(1), of ev'] assms(4) by simp
next
  case True
  show ?thesis
  proof (cases c)
    case (Queue2NATSConnector d)
    note n = Queue2NATS_round [OF assms(1-3) [unfolded this] assms(4)]
    show ?thesis by (rule n) (use True Queue2NATSConnector in simp)
  next
    case (Queue2STANConnector d)
    note n = Queue2STAN_round [OF assms(1-3) [unfolded this] assms(4)]
    show ?thesis by (rule n) (use True Queue2STANConnector in simp)
  next
    case (Topic2NATSConnector d)
    note n = Topic2NATS_round [OF assms(1-3) [unfolded this] assms(4)]
    show ?thesis by (rule n) (use True Topic2NATSConnector in simp)
  next
    case (Topic2StanConnector d)
    note n = Topic2Stan_round [OF assms(1-3) [unfolded this] assms(4)]
    show ?thesis by (rule n) (use True Topic2StanConnector in simp)
  next
    case (NATS2QueueConnector d)
    note n = NATS2Queue_round [OF assms(1-3) [unfolded this] assms(4)]
    show ?thesis by (rule n) (use True NATS2QueueConnector in simp)
  next
    case (NATS2TopicConnector d)
    note n = NATS2Topic_round [OF assms(1-3) [unfolded this] assms(4)]
    show ?thesis by (rule n) (use True NATS2TopicConnector in simp)
  next
    case (Stan2QueueConnector d)
    note n = Stan2Queue_round [OF assms(1-3) [unfolded this] assms(4)]
    show ?thesis by (rule n) (use True Stan2QueueConnector in simp)
  next
    case (Stan2TopicConnector d)
    note n = Stan2Topic_round [OF assms(1-3) [unfolded this] assms(4)]
    show ?thesis by (rule n) (use True Stan2TopicConnector in simp)
  qed
qed

interpretation rconn: releasing_connector "\<lambda>(ev, bv). Connector_Start ev bv" Connector_Shutdown
    "\<lambda>c. bc_stats (base c)" idle sound_round
  by unfold_locales (metis (no_types, lifting) round_idle split_conv surj_pair)

section \<open>Connections that are dropped\<close>

text \<open>A step that appends calls none of which is \<open>Disc\<close>.\<close>

definition keeps_discs :: "'a BridgeConnector_scheme \<Rightarrow> 'b BridgeConnector_scheme \<Rightarrow> bool" where
  "keeps_discs c c' \<longleftrightarrow> (\<exists>cs. bc_calls c' = bc_calls c @ cs \<and> (\<forall>q. Disc q \<notin> set cs))"

lemma keeps_discs_owed: "keeps_discs c c' \<Longrightarrow> Disc q \<in> owed (bc_calls c) \<Longrightarrow> Disc q \<in> owed (bc_calls c')"
  by (auto simp: keeps_discs_def owed_append)

lemma keeps_discs_trans: "keeps_discs a b \<Longrightarrow> keeps_discs b c \<Longrightarrow> keeps_discs a c"
  unfolding keeps_discs_def by force

lemma keeps_discs_update [simp]:
  "keeps_discs a (bc_stats_update f0 b0) = keeps_discs a b0"
  "keeps_discs (bc_stats_update f0 b0) a = keeps_discs b0 a"
  "keeps_discs a (ql_queue_update f1 b1) = keeps_discs a b1"
  "keeps_discs (ql_queue_update f1 b1) a = keeps_discs b1 a"
  "keeps_discs a (ql_shutdownCB_update f2 b2) = keeps_discs a b2"
  "keeps_discs (ql_shutdownCB_update f2 b2) a = keeps_discs b2 a"
  "keeps_discs a (tl_topic_update f3 b3) = keeps_discs a b3"
  "keeps_discs (tl_topic_update f3 b3) a = keeps_discs b3 a"
  "keeps_discs a (tl_sub_update f4 b4) = keeps_discs a b4"
  "keeps_discs (tl_sub_update f4 b4) a = keeps_discs b4 a"
  "keeps_discs a (tl_shutdownCB_update f5 b5) = keeps_discs a b5"
  "keeps_discs (tl_shutdownCB_update f5 b5) a = keeps_discs b5 a"
  "keeps_discs a (qp_queue_update f6 b6) = keeps_discs a b6"
  "keeps_discs (qp_queue_update f6 b6) a = keeps_discs b6 a"
  "keeps_discs a (qp_sub_update f7 b7) = keeps_discs a b7"
  "keeps_discs (qp_sub_update f7 b7) a = keeps_discs b7 a"
  "keeps_discs a (tp_topic_update f8 b8) = keeps_discs a b8"
  "keeps_discs (tp_topic_update f8 b8) a = keeps_discs b8 a"
  "keeps_discs a (tp_sub_update f9 b9) = keeps_discs a b9"
  "keeps_discs (tp_sub_update f9 b9) a = keeps_discs b9 a"
  by (simp_all add: keeps_discs_def)

lemma keeps_discs_refl [simp]: "keeps_discs c c"
  by (simp add: keeps_discs_def)

lemma release_of_Disc: "Disc q \<in> release_of i c \<Longrightarrow> q = i"
  by (cases "(i, c)" rule: release_of.cases) (auto split: if_splits)

lemma Disc_owed_bound: "Disc q \<in> owed cs \<Longrightarrow> q < length cs"
  by (auto simp: owed_def dest: release_of_Disc)

lemma helpers_keep:
  "connectToQueue ev q om mq = (r2, mq') \<Longrightarrow> keeps_discs mq mq' \<and> bc_qMgr mq' = bc_qMgr mq"
  "connectToTopic ev q mq = (r2, mq') \<Longrightarrow> keeps_discs mq mq' \<and> bc_qMgr mq' = bc_qMgr mq"
  "subscribeToTopic ev q mq = (r3, mq') \<Longrightarrow> keeps_discs mq mq' \<and> bc_qMgr mq' = bc_qMgr mq"
  "subscribeToNATS ev x y mq = (r4, mq') \<Longrightarrow> keeps_discs mq mq' \<and> bc_qMgr mq' = bc_qMgr mq"
  "subscribeToChannel ev bv mq = (r4, mq') \<Longrightarrow> keeps_discs mq mq' \<and> bc_qMgr mq' = bc_qMgr mq"
  "setUpListener ev t mq = (r5, mq') \<Longrightarrow> keeps_discs mq mq' \<and> bc_qMgr mq' = bc_qMgr mq"
  by (auto simp: keeps_discs_def connector_helpers split: option.splits sum.splits if_splits
      elim!: or_return_cases)

lemma connectToMQ_keeps:
  assumes "connectToMQ ev mq = (r, mq')" "no_tls_warning ev"
  shows "keeps_discs mq mq' \<and> bc_qMgr mq' = (if r = Ok () then Some (length (bc_calls mq)) else bc_qMgr mq)"
  using assms by (cases rule: connectToMQ_cases) (auto simp: keeps_discs_def)

lemma keeps_discs_or_return:
  assumes "keeps_discs c (snd p)" "\<And>x s. p = (Ok x, s) \<Longrightarrow> keeps_discs s (snd (k x s))"
  shows "keeps_discs c (snd (or_return p k))"
  using assms keeps_discs_trans by (cases "(p, k)" rule: or_return.cases) fastforce+

lemma helpers_keep_snd:
  "keeps_discs mq (snd (connectToQueue ev q om mq))"
  "keeps_discs mq (snd (connectToTopic ev q mq))"
  "keeps_discs mq (snd (subscribeToTopic ev q mq))"
  "keeps_discs mq (snd (subscribeToNATS ev x y mq))"
  "keeps_discs mq (snd (subscribeToChannel ev bv mq))"
  "keeps_discs mq (snd (setUpListener ev t mq))"
  "no_tls_warning ev \<Longrightarrow> keeps_discs mq (snd (connectToMQ ev mq))"
  by (metis helpers_keep prod.collapse, metis helpers_keep prod.collapse, metis helpers_keep prod.collapse,
      metis helpers_keep prod.collapse, metis helpers_keep prod.collapse, metis helpers_keep prod.collapse,
      metis connectToMQ_keeps prod.collapse)

lemma helpers_keep_updated:
  "keeps_discs a (snd (setUpListener ev t (ql_queue_update f a)))"
  "keeps_discs b (snd (setUpListener ev t (tl_sub_update f (tl_topic_update g b))))"
  "keeps_discs c (snd (subscribeToNATS ev x y (qp_queue_update f c)))"
  "keeps_discs c (snd (subscribeToChannel ev bv (qp_queue_update f c)))"
  "keeps_discs d (snd (subscribeToNATS ev x y (tp_topic_update f d)))"
  "keeps_discs d (snd (subscribeToChannel ev bv (tp_topic_update f d)))"
  using helpers_keep_snd(6) [of "ql_queue_update f a" ev t]
    helpers_keep_snd(6) [of "tl_sub_update f (tl_topic_update g b)" ev t]
    helpers_keep_snd(4,5) [of "qp_queue_update f c"] helpers_keep_snd(4,5) [of "tp_topic_update f d"]
  by simp_all

lemmas keeps = keeps_discs_or_return helpers_keep_snd helpers_keep_updated

lemma starts_keep_discs:
  assumes "no_tls_warning ev"
  shows "keeps_discs a (snd (ql_start ev a))"
    and "keeps_discs b (snd (tl_start ev b))"
    and "keeps_discs c (snd (qp_start ev (nats_subscribe ev) c))"
    and "keeps_discs c (snd (qp_start ev (subscribeToChannel ev bv) c))"
    and "keeps_discs d (snd (tp_start ev (nats_subscribe ev) d))"
    and "keeps_discs d (snd (tp_start ev (subscribeToChannel ev bv) d))"
  unfolding ql_start_def tl_start_def qp_start_def tp_start_def Let_def upd_stats_def split_beta
  by (intro keeps assms, simp)+

lemma starts_reconnect:
  assumes "no_tls_warning ev"
  shows "ql_start ev a = (Ok (), a') \<Longrightarrow> bc_qMgr a' = Some (length (bc_calls a))"
    and "tl_start ev b = (Ok (), b') \<Longrightarrow> bc_qMgr b' = Some (length (bc_calls b))"
    and "qp_start ev (nats_subscribe ev) c = (Ok (), c') \<Longrightarrow> bc_qMgr c' = Some (length (bc_calls c))"
    and "qp_start ev (subscribeToChannel ev bv) c = (Ok (), c') \<Longrightarrow> bc_qMgr c' = Some (length (bc_calls c))"
    and "tp_start ev (nats_subscribe ev) d = (Ok (), d') \<Longrightarrow> bc_qMgr d' = Some (length (bc_calls d))"
    and "tp_start ev (subscribeToChannel ev bv) d = (Ok (), d') \<Longrightarrow> bc_qMgr d' = Some (length (bc_calls d))"
  by (auto simp: ql_start_def tl_start_def qp_start_def tp_start_def or_return_eq_Ok Let_def upd_stats_def
      dest!: helpers_keep connectToMQ_keeps [OF _ assms])

text \<open>The two facts for the interface.\<close>

lemma keeps_discs_truncate [simp]:
  "keeps_discs (BridgeConnector.truncate a) b = keeps_discs a b"
  "keeps_discs a (BridgeConnector.truncate b) = keeps_discs a b"
  by (simp_all add: keeps_discs_def)

lemma Connector_Start_keeps:
  assumes "Connector_Start ev bv c = (r, c')" "no_tls_warning ev"
  shows "keeps_discs (base c) (base c')"
    and "r = Ok () \<Longrightarrow> bc_qMgr (base c') = Some (length (bc_calls (base c)))"
proof -
  show "keeps_discs (base c) (base c')"
    using assms(1) by (cases c) (auto simp: start_shapes map_prod_def split_beta
        starts_keep_discs [OF assms(2)] split: if_splits)
  show "bc_qMgr (base c') = Some (length (bc_calls (base c)))" if "r = Ok ()"
    using assms(1) that by (cases c) (auto simp: start_shapes map_prod_id_eq
        dest!: starts_reconnect [OF assms(2)] split: if_splits)
qed

lemma Connector_Shutdown_discs:
  assumes "Connector_Shutdown ev c = (x, c')"
  obtains cs where "bc_calls (base c') = bc_calls (base c) @ cs"
    "\<And>q. Disc q \<in> set cs \<Longrightarrow> bc_qMgr (base c) = Some q"
  using assms that
  by (cases c) (auto simp: shutdown_defs map_prod_def split_beta upd_stats_def runShutdownCallback_def
      add_call_def closeObject_def disconnect_def Let_def
      split: option.splits ShutdownCallback.splits if_splits)

lemma tl_start_owes_disc:
  assumes "tl_start ev c = (r, c1)" "no_tls_warning ev" "bc_qMgr c = None" "bc_qMgr c1 = Some q"
    and "\<forall>i. Disc i \<in> set (bc_calls c) \<longrightarrow> i < length (bc_calls c)"
  shows "Disc q \<in> owed (bc_calls c1)"
proof -
  obtain r0 m where m: "connectToMQ ev c = (r0, m)" by fastforce
  from m assms(2) show ?thesis
  proof (cases rule: connectToMQ_cases)
    case (connected n)
    have "keeps_discs m c1 \<and> bc_qMgr c1 = bc_qMgr m"
      using assms(1) m connected
      by (auto simp: tl_start_def upd_stats_def Let_def elim!: or_return_cases dest!: helpers_keep
          intro: keeps_discs_trans)
    moreover have "Disc (length (bc_calls c)) \<in> owed (bc_calls m)"
      using connected assms(5) by (auto simp: owed_append)
    ultimately show ?thesis using connected assms(4) keeps_discs_owed by force
  next
    case (failed n e)
    then show ?thesis using assms(1,3,4) m by (auto simp: tl_start_def)
  qed
qed


section \<open>Properties\<close>

definition connector_life ::
  "Connector \<Rightarrow> (env \<times> bridge_view, env) life list \<Rightarrow> Connector \<times> nat \<times> nat" where
  "connector_life = run (\<lambda>(ev, bv). Connector_Start ev bv) Connector_Shutdown"


text \<open>
  C28. The statistics of a connector over any life: its name and identifier never change, the
  counters of connects and disconnects grow by the number of successful starts and of shutdowns
  (modulo \<open>2 ^ 64\<close>), and after a shutdown it is not marked connected.
\<close>

theorem connector_statistics:
  "let c' = fst (connector_life c xs); u = fst (snd (connector_life c xs));
       d = snd (snd (connector_life c xs)) in
   connector_ID (base c') = connector_ID (base c) \<and> connector_String (base c') = connector_String (base c)
   \<and> st_Connects (bc_stats (base c')) = st_Connects (bc_stats (base c)) + of_nat u
   \<and> st_Disconnects (bc_stats (base c')) = st_Disconnects (bc_stats (base c)) + of_nat d
   \<and> \<not> st_Connected (bc_stats (base (fst (connector_life c (xs @ [Down e])))))"
  using conn.run_stats [of c xs] conn.run_ends_disconnected [of c xs e]
  by (cases "connector_life c xs") (simp add: connector_life_def connector_ID_def connector_String_def)

text \<open>
  C31. A connector that is started again after a start that connected to the queue manager and then
  failed, without a shutdown between the two, never disconnects the first connection: the field that
  refers to it is overwritten. The bridge retries starts in this way.
\<close>

theorem restart_leaks_connection:
  assumes "bc_qMgr (base c) = Some q" and "Disc q \<in> owed (bc_calls (base c))"
    and "no_tls_warning ev" and "Connector_Start ev bv c = (Ok (), c1)"
    and "Connector_Shutdown ev' c1 = (x, c2)"
  shows "Disc q \<in> owed (bc_calls (base c2))"
proof -
  have q: "Disc q \<in> owed (bc_calls (base c1))" "bc_qMgr (base c1) \<noteq> Some q"
    using Connector_Start_keeps [OF assms(4,3)] assms(2) Disc_owed_bound [OF assms(2)]
    by (auto dest: keeps_discs_owed)
  obtain cs where "bc_calls (base c2) = bc_calls (base c1) @ cs"
    "\<And>q. Disc q \<in> set cs \<Longrightarrow> bc_qMgr (base c1) = Some q"
    using Connector_Shutdown_discs [OF assms(5)] by blast
  with q show ?thesis by (auto simp: owed_append)
qed

text \<open>
  C32. A connector that listens to a topic and whose subscription fails after the connection to the
  queue manager was made keeps the connection: its shutdown returns early because there is no topic.
\<close>

theorem topic_failure_leaks_connection:
  assumes "listens_to_topic c" and "bc_qMgr (base c) = None" and "no_tls_warning ev"
    and "\<forall>i. Disc i \<in> set (bc_calls (base c)) \<longrightarrow> i < length (bc_calls (base c))"
    and "Connector_Start ev bv c = (r, c1)" and "bc_qMgr (base c1) = Some q" and "topic_of c1 = None"
    and "Connector_Shutdown ev' c1 = (x, c2)"
  shows "Disc q \<in> owed (bc_calls (base c2)) \<and> bc_qMgr (base c2) = Some q"
proof -
  have "bc_calls (base c2) = bc_calls (base c1) \<and> bc_qMgr (base c2) = bc_qMgr (base c1)"
    using assms(1,5,7,8)
    by (cases c) (auto simp: map_prod_id_eq shutdown_defs upd_stats_def Let_def)
  moreover have "Disc q \<in> owed (bc_calls (base c1))"
    using assms(1,2,4,5,6) by (cases c) (auto simp: map_prod_id_eq start_shapes
        intro: tl_start_owes_disc [OF _ assms(3)] split: if_splits)
  ultimately show ?thesis using assms(6) by simp
qed

section \<open>Concrete instances\<close>

text \<open>
  Libraries that answer every call, up to the answers of the calls that open a queue or topic, and a
  bridge whose connections are up.
\<close>

definition example_env :: "go_error option \<Rightarrow> env" where
  "example_env opening = \<lparr>ext_mqlib = \<lambda>_. example_lib, ext_Connx = \<lambda>_ _ _. None, ext_Open = \<lambda>_ _. opening,
     ext_Close = \<lambda>_ _. None, ext_Ctl = \<lambda>_. None, ext_CB = \<lambda>_ _. None, ext_nats_sub = \<lambda>_ _ _. None,
     ext_stan_sub = \<lambda>_ _ _. None, MQCC_WARNING = 1, MQRC_SSL_ALREADY_INITIALIZED = 2391,
     MQRC_NO_MSG_AVAILABLE = 2033, MQCC_OK = 0\<rparr>"

definition example_view :: bridge_view where
  "example_view = \<lparr>bv_CheckNATS = True, bv_CheckStan = True, bv_Stan = True, bv_replyToInfo = Map.empty\<rparr>"

definition example_config :: ConnectorConfig where
  "example_config = zero_ConnectorConfig\<lparr>cfg_ID := ''c1'', cfg_Subject := ''s'', cfg_Queue := ''Q1'',
     cfg_Topic := ''T1''\<rparr>"

definition example_publisher :: Connector where
  "example_publisher = NATS2QueueConnector (NewNATS2QueueConnector example_config ''x'')"

lemmas example_defs = example_env_def example_view_def example_config_def example_publisher_def new_defs
  zero_ConnectorConfig_def zero_MQConfig_def QueuePublisher.defs TopicListener.defs
  BridgeConnector.defs NewConnectorStats_def NewHistogram_def

lemma example_no_warning: "no_tls_warning (example_env r)"
  by (simp add: no_tls_warning_def example_env_def)


theorem restart_leaks_connection_witness:
  "let c0 = snd (Connector_Start (example_env (Some (MQReturn 2 2085))) example_view example_publisher);
       c1 = snd (Connector_Start (example_env None) example_view c0)
   in Disc 0 \<in> owed (bc_calls (base (snd (Connector_Shutdown (example_env None) c1))))"
proof -
  define c0 where "c0 = snd (Connector_Start (example_env (Some (MQReturn 2 2085))) example_view example_publisher)"
  define c1 where "c1 = snd (Connector_Start (example_env None) example_view c0)"
  have c0: "bc_qMgr (base c0) = Some 0" "bc_calls (base c0) = [Connx '''' True, OpenQueue ''Q1'' MQOO_OUTPUT False]"
    by (simp_all add: c0_def example_defs start_defs connector_helpers)
  have c1: "Connector_Start (example_env None) example_view c0 = (Ok (), c1)"
    by (simp add: c1_def c0_def example_defs start_defs connector_helpers)
  have "Disc 0 \<in> owed (bc_calls (base c0))"
    by (simp add: c0 owed_def) (auto simp: lessThan_Suc numeral_2_eq_2)
  from restart_leaks_connection [OF c0(1) this example_no_warning c1 surjective_pairing]
  show ?thesis by (simp add: c0_def c1_def Let_def)
qed

theorem topic_failure_leaks_connection_witness:
  "let c = Topic2NATSConnector (NewTopic2NATSConnector example_config ''x'');
       c1 = snd (Connector_Start (example_env (Some (MQReturn 2 2085))) example_view c);
       c2 = snd (Connector_Shutdown (example_env None) c1)
   in Disc 0 \<in> owed (bc_calls (base c2)) \<and> bc_qMgr (base c2) = Some 0"
proof -
  define c where "c = Topic2NATSConnector (NewTopic2NATSConnector example_config ''x'')"
  define c1 where "c1 = snd (Connector_Start (example_env (Some (MQReturn 2 2085))) example_view c)"
  have c: "listens_to_topic c" "bc_qMgr (base c) = None"
    "\<forall>i. Disc i \<in> set (bc_calls (base c)) \<longrightarrow> i < length (bc_calls (base c))"
    by (simp_all add: c_def example_defs)
  have c1: "bc_qMgr (base c1) = Some 0" "topic_of c1 = None"
    "Connector_Start (example_env (Some (MQReturn 2 2085))) example_view c =
      (fst (Connector_Start (example_env (Some (MQReturn 2 2085))) example_view c), c1)"
    by (simp_all add: c1_def c_def example_defs start_defs connector_helpers)
  from topic_failure_leaks_connection [OF c(1,2) example_no_warning c(3) c1(3,1,2) surjective_pairing]
  show ?thesis by (simp add: c_def c1_def Let_def)
qed

end
