(* ===== verification/Pump.thy ===== *)
theory Pump
  imports Connectors
begin

text \<open>
  The message paths of the connectors (\<^verbatim>\<open>src/nats-mq/core/connector.go\<close>): the callback that MQ runs for
  every message, the polling loop that runs the same callback, and the callbacks of the NATS and
  streaming subscriptions. A callback runs under the connector's lock, so it is one function from
  the connector to the connector; what it does to the outside is the list of its actions, each with
  the answer it got. Message paths differ from each other in what confirms a message; the locale
  \<open>pump\<close> holds what they share, and is interpreted for the three of them.
\<close>

section \<open>Actions and reactions\<close>

datatype action =
    Publish string bytes bool
  | PublishRequest string string bytes bool
  | StanPublish string bytes bool
  | Cmit bool
  | Back
  | Put MQMD handle "bytes option" bool
  | Ack
  | RaiseConnectorError go_error

text \<open>A callback ends, or it panics after some actions; nothing in the bridge recovers from a panic.\<close>

datatype 'c reaction = Done "action list" 'c | Crash "action list"

text \<open>
  What a callback meets: the libraries at that moment, the order in which the runtime visits a map,
  the answers to publishing, committing and putting, and the time the request takes.
\<close>

record world =
  w_mqlib :: mqlib
  w_codec :: codec
  w_order :: "BridgeMessage \<Rightarrow> string list"
  w_nats_publish :: "string \<Rightarrow> string \<Rightarrow> bytes \<Rightarrow> go_error option"
  w_stan_publish :: "string \<Rightarrow> bytes \<Rightarrow> go_error option"
  w_Cmit :: "go_error option"
  w_Put :: "MQMD \<Rightarrow> handle \<Rightarrow> bytes option \<Rightarrow> go_error option"
  w_elapsed :: i64
  w_view :: bridge_view
  w_NO_MSG_AVAILABLE :: i32
  w_MQCC_OK :: i32
  w_ErrorText :: "i32 \<Rightarrow> i32 \<Rightarrow> string"

section \<open>Publishing to NATS\<close>

text \<open>The two functions a connector passes as \<^verbatim>\<open>NATSCallback\<close>.\<close>

datatype NATSCallback = natsMessageHandler | stanMessageHandler

text \<open>
  The answer and the action of running such a function. \<^verbatim>\<open>mq.bridge.Stan()\<close> is the nil interface
  when the streaming connection is lost; calling a method on it panics.
\<close>

fun runNATSCallback ::
  "world \<Rightarrow> ConnectorConfig \<Rightarrow> NATSCallback \<Rightarrow> bytes \<Rightarrow> string \<Rightarrow> (go_error option \<times> action) option" where
  "runNATSCallback w config stanMessageHandler natsMsg replyTo =
     (if \<not> bv_Stan (w_view w) then None
      else (let err = w_stan_publish w (cfg_Channel config) natsMsg
            in Some (err, StanPublish (cfg_Channel config) natsMsg (err = None))))"
| "runNATSCallback w config natsMessageHandler natsMsg replyTo =
     (let err = w_nats_publish w (cfg_Subject config) replyTo natsMsg in
      Some (err, if replyTo \<noteq> '''' then PublishRequest (cfg_Subject config) replyTo natsMsg (err = None)
                 else Publish (cfg_Subject config) natsMsg (err = None)))"

section \<open>The MQ callback\<close>

text \<open>The reference to the queue manager that the conversions get: nil when headers are excluded.\<close>

definition qmgrFlag :: "'a BridgeConnector_scheme \<Rightarrow> bool" where
  "qmgrFlag mq \<longleftrightarrow> bc_qMgr mq \<noteq> None \<and> \<not> cfg_ExcludeHeaders (bc_config mq)"

text \<open>
  What the library hands to the callback. \<open>d_event\<close> says that it is an event and not a message.
\<close>

record delivery =
  d_error :: "(i32 \<times> i32) option"
  d_event :: bool
  d_md :: MQMD
  d_handle :: handle
  d_buffer :: bytes

text \<open>The bytes of a slice, which may be nil.\<close>

fun the_bytes :: "bytes option \<Rightarrow> bytes" where
  "the_bytes None = []"
| "the_bytes (Some bs) = bs"

text \<open>The end of a message that went through: count it and its time.\<close>

definition countOut :: "world \<Rightarrow> nat \<Rightarrow> action list \<Rightarrow> 'a BridgeConnector_scheme \<Rightarrow> 'a BridgeConnector_scheme reaction" where
  "countOut w n acts mq =
     (case AddRequestTime f64 (AddMessageOut (bc_stats mq) (of_nat n)) (w_elapsed w) of
        None \<Rightarrow> Crash acts
      | Some s \<Rightarrow> Done acts (mq\<lparr>bc_stats := s\<rparr>))"

text \<open>\<^verbatim>\<open>mq.qMgr.Back()\<close>, which panics on a nil queue manager; its error is ignored.\<close>

definition backOut :: "action list \<Rightarrow> 'a BridgeConnector_scheme \<Rightarrow> 'a BridgeConnector_scheme reaction" where
  "backOut acts mq = (if bc_qMgr mq = None then Crash acts else Done (acts @ [Back]) mq)"

definition mqMessage ::
  "NATSCallback \<Rightarrow> world \<Rightarrow> delivery \<Rightarrow> 'a BridgeConnector_scheme \<Rightarrow> 'a BridgeConnector_scheme reaction option" where
  "mqMessage cb w d mq =
     (let bufferLen = length (d_buffer d);
          flag = qmgrFlag mq;
          mq = mq\<lparr>bc_stats := AddMessageIn (bc_stats mq) (of_nat bufferLen)\<rparr>
      in case MQToNATSMessage (w_mqlib w) (w_codec w) (bv_replyToInfo (w_view w)) (Some (d_md d))
                (d_handle d) (d_buffer d) bufferLen flag of
           None \<Rightarrow> None
         | Some Panic \<Rightarrow> Some (Crash [])
         | Some (Err e) \<Rightarrow> Some (backOut [] mq)
         | Some (Ok (natsMsg, replyTo)) \<Rightarrow>
             Some (case runNATSCallback w (bc_config mq) cb natsMsg replyTo of
                     None \<Rightarrow> Crash []
                   | Some (Some e, act) \<Rightarrow> backOut [act] mq
                   | Some (None, act) \<Rightarrow>
                       if bc_qMgr mq = None then Crash [act]
                       else (case w_Cmit w of
                               Some e \<Rightarrow> Done [act, Cmit False, RaiseConnectorError e] mq
                             | None \<Rightarrow> countOut w (length natsMsg) [act, Cmit True] mq)))"

text \<open>
  The whole callback: errors and timeouts of MQ first, events are ignored, the rest are messages.
  \<^verbatim>\<open>go mq.bridge.ConnectorError\<close> is an action; the bridge handles it later.
\<close>

definition mqFailure :: "world \<Rightarrow> delivery \<Rightarrow> (i32 \<times> i32) option" where
  "mqFailure w d =
     (case d_error d of
        Some (cc, rc) \<Rightarrow> if cc \<noteq> w_MQCC_OK w then Some (cc, rc) else None
      | None \<Rightarrow> None)"

definition mqCallback ::
  "NATSCallback \<Rightarrow> world \<times> delivery \<Rightarrow> 'a BridgeConnector_scheme \<Rightarrow> 'a BridgeConnector_scheme reaction option" where
  "mqCallback cb p mq =
     (case p of (w, d) \<Rightarrow>
        case mqFailure w d of
          Some (cc, rc) \<Rightarrow>
            if rc = w_NO_MSG_AVAILABLE w then Some (Done [] mq)
            else Some (Done [RaiseConnectorError
                   (Errorf (''mq error in callback '' @ w_ErrorText w cc rc))] mq)
        | None \<Rightarrow> if d_event d then Some (Done [] mq) else mqMessage cb w d mq)"

section \<open>The polling loop\<close>

text \<open>
  One turn of the loop: what \<open>Get\<close> answered, how many bytes of the buffer it filled (a slice beyond
  the buffer panics), and whether the connector was told to stop by the end of the turn.
\<close>

record turn =
  t_world :: world
  t_md :: MQMD
  t_len :: nat
  t_error :: "(i32 \<times> i32) option"
  t_buffer :: bytes
  t_done :: bool

definition turn_delivery :: "handle \<Rightarrow> turn \<Rightarrow> world \<times> delivery" where
  "turn_delivery h t = (t_world t, \<lparr>d_error = t_error t, d_event = False, d_md = t_md t, d_handle = h,
     d_buffer = take (t_len t) (t_buffer t)\<rparr>)"

definition pollTurn ::
  "NATSCallback \<Rightarrow> handle \<Rightarrow> turn \<Rightarrow> 'a BridgeConnector_scheme \<Rightarrow> 'a BridgeConnector_scheme reaction option" where
  "pollTurn cb h t mq =
     (case t_error t of
        Some (cc, rc) \<Rightarrow>
          if rc \<noteq> w_NO_MSG_AVAILABLE (t_world t) then
            (if t_len t > length (t_buffer t) then Some (Crash [])
             else mqCallback cb (turn_delivery h t) mq)
          else Some (Done [] mq)
      | None \<Rightarrow>
          if t_len t > length (t_buffer t) then Some (Crash [])
          else mqCallback cb (turn_delivery h t) mq)"

text \<open>
  The loop over the turns that happen: it ends after the first turn at which the connector was told
  to stop. The flag says whether the loop has ended (and the message handle been deleted); when the
  turns run out it waits in \<open>Get\<close>.
\<close>

fun pollLoop ::
  "NATSCallback \<Rightarrow> handle \<Rightarrow> turn list \<Rightarrow> 'a BridgeConnector_scheme \<Rightarrow>
   ('a BridgeConnector_scheme reaction \<times> bool) option" where
  "pollLoop cb h [] mq = Some (Done [] mq, False)"
| "pollLoop cb h (t # ts) mq =
     (case pollTurn cb h t mq of
        None \<Rightarrow> None
      | Some (Crash acts) \<Rightarrow> Some (Crash acts, True)
      | Some (Done acts mq') \<Rightarrow>
          if t_done t then Some (Done acts mq', True)
          else (case pollLoop cb h ts mq' of
                  None \<Rightarrow> None
                | Some (Crash acts', e) \<Rightarrow> Some (Crash (acts @ acts'), e)
                | Some (Done acts' mq'', e) \<Rightarrow> Some (Done (acts @ acts') mq'', e)))"

section \<open>The NATS and streaming callbacks\<close>

definition natsCallback ::
  "world \<times> bytes option \<times> string \<Rightarrow> 'a BridgeConnector_scheme \<Rightarrow> 'a BridgeConnector_scheme reaction option" where
  "natsCallback p mq =
     (case p of (w, data, reply) \<Rightarrow>
      let flag = qmgrFlag mq;
          mq = mq\<lparr>bc_stats := AddMessageIn (bc_stats mq) (of_nat (length (the_bytes data)))\<rparr>
      in Some (case NATSToMQMessage (w_mqlib w) (w_codec w) (w_order w) (bv_replyToInfo (w_view w))
                      data reply flag of
                 Panic \<Rightarrow> Crash []
               | Err e \<Rightarrow> Done [] mq
               | Ok (md, h, sets, buffer) \<Rightarrow>
                   (case w_Put w md h buffer of
                      Some e \<Rightarrow> Done [Put md h buffer False] mq
                    | None \<Rightarrow> countOut w (length (the_bytes buffer)) [Put md h buffer True] mq)))"

definition stanCallback ::
  "world \<times> bytes option \<Rightarrow> 'a BridgeConnector_scheme \<Rightarrow> 'a BridgeConnector_scheme reaction option" where
  "stanCallback p mq =
     (case p of (w, data) \<Rightarrow>
      let flag = qmgrFlag mq;
          mq = mq\<lparr>bc_stats := AddMessageIn (bc_stats mq) (of_nat (length (the_bytes data)))\<rparr>
      in Some (case NATSToMQMessage (w_mqlib w) (w_codec w) (w_order w) (bv_replyToInfo (w_view w))
                      data '''' flag of
                 Panic \<Rightarrow> Crash []
               | Err e \<Rightarrow> Done [] mq
               | Ok (md, h, sets, buffer) \<Rightarrow>
                   (case w_Put w md h buffer of
                      Some e \<Rightarrow> Done [Put md h buffer False] mq
                    | None \<Rightarrow> countOut w (length (the_bytes buffer)) [Put md h buffer True, Ack] mq)))"

section \<open>What every message path keeps\<close>

text \<open>
  A message path, for any kind of message: it counts every message it receives once, and counts a
  message out for every action that confirms one.
\<close>

fun runs :: "('m \<Rightarrow> 'c \<Rightarrow> 'c reaction option) \<Rightarrow> 'm list \<Rightarrow> 'c \<Rightarrow> 'c reaction option" where
  "runs handle [] c = Some (Done [] c)"
| "runs handle (m # ms) c =
     (case handle m c of
        None \<Rightarrow> None
      | Some (Crash acts) \<Rightarrow> Some (Crash acts)
      | Some (Done acts c') \<Rightarrow>
          (case runs handle ms c' of
             None \<Rightarrow> None
           | Some (Crash acts') \<Rightarrow> Some (Crash (acts @ acts'))
           | Some (Done acts' c'') \<Rightarrow> Some (Done (acts @ acts') c'')))"

definition count :: "('x \<Rightarrow> bool) \<Rightarrow> 'x list \<Rightarrow> nat" where
  "count P xs = length (filter P xs)"

lemma count_simps [simp]:
  "count P [] = 0" "count P (x # xs) = (if P x then 1 else 0) + count P xs"
  "count P (xs @ ys) = count P xs + count P ys"
  by (simp_all add: count_def)

locale pump =
  fixes handle :: "'m \<Rightarrow> 'c \<Rightarrow> 'c reaction option"
    and stats :: "'c \<Rightarrow> ConnectorStats"
    and received :: "'m \<Rightarrow> bool"
    and confirms :: "action \<Rightarrow> bool"
    and accepted :: "action \<Rightarrow> bool"
  assumes counts_in: "handle m c = Some (Done acts c') \<Longrightarrow>
      st_MessagesIn (stats c') = st_MessagesIn (stats c) + (if received m then 1 else 0)"
    and counts_out: "handle m c = Some (Done acts c') \<Longrightarrow>
      st_MessagesOut (stats c') = st_MessagesOut (stats c) + of_nat (count confirms acts)"
    and confirmed_once: "handle m c = Some (Done acts c') \<Longrightarrow>
      count confirms acts \<le> count accepted acts \<and> count accepted acts \<le> (if received m then 1 else 0)"
begin

lemma runs_counts:
  assumes "runs handle ms c = Some (Done acts c')"
  shows "st_MessagesIn (stats c') = st_MessagesIn (stats c) + of_nat (count received ms)
    \<and> st_MessagesOut (stats c') = st_MessagesOut (stats c) + of_nat (count confirms acts)
    \<and> count confirms acts \<le> count accepted acts \<and> count accepted acts \<le> count received ms"
  using assms
proof (induction ms arbitrary: c acts)
  case (Cons m ms)
  from Cons.prems obtain a1 c1 a2 where h: "handle m c = Some (Done a1 c1)"
    and r: "runs handle ms c1 = Some (Done a2 c')" and acts: "acts = a1 @ a2"
    by (auto split: option.splits reaction.splits)
  show ?case
    using Cons.IH [OF r] counts_in [OF h] counts_out [OF h] confirmed_once [OF h]
    by (auto simp: acts)
qed simp

end

text \<open>
  A message path that never crashes: messages that are \<open>good\<close> for the connector keep an invariant
  that counts the requests made so far, up to the number the statistics can hold.
\<close>

locale safe_pump = pump +
  fixes good :: "'a \<Rightarrow> 'b \<Rightarrow> bool"
    and inv :: "nat \<Rightarrow> 'b \<Rightarrow> bool"
  assumes safe: "inv k c \<Longrightarrow> k + 1 < 2 ^ 53 \<Longrightarrow> good m c \<Longrightarrow>
      \<exists>acts c'. handle m c = Some (Done acts c') \<and> inv (k + 1) c'"
    and good_stable: "handle m c = Some (Done acts c') \<Longrightarrow> good m' c \<Longrightarrow> good m' c'"
begin

lemma runs_safe:
  assumes "inv k c" "k + length ms < 2 ^ 53" "\<forall>m\<in>set ms. good m c"
  shows "\<exists>acts c'. runs handle ms c = Some (Done acts c') \<and> inv (k + length ms) c'"
  using assms
proof (induction ms arbitrary: k c)
  case (Cons m ms)
  obtain a1 c1 where h: "handle m c = Some (Done a1 c1)" "inv (k + 1) c1"
    using safe [of k c m] Cons.prems by auto
  then obtain a2 c2 where "runs handle ms c1 = Some (Done a2 c2)" "inv (k + 1 + length ms) c2"
    using Cons.IH [of "k + 1" c1] Cons.prems good_stable [OF h(1)] by auto
  then show ?case using h(1) by simp
qed auto

end

section \<open>The MQ callback as a message path\<close>

fun published :: "action \<Rightarrow> bool" where
  "published (Publish _ _ b) = b"
| "published (PublishRequest _ _ _ b) = b"
| "published (StanPublish _ _ b) = b"
| "published _ = False"

fun is_publish :: "action \<Rightarrow> bool" where
  "is_publish (Publish _ _ _) = True"
| "is_publish (PublishRequest _ _ _ _) = True"
| "is_publish (StanPublish _ _ _) = True"
| "is_publish _ = False"

fun put_done :: "action \<Rightarrow> bool" where
  "put_done (Put _ _ _ b) = b"
| "put_done _ = False"

definition is_message :: "world \<times> delivery \<Rightarrow> bool" where
  "is_message p \<longleftrightarrow> mqFailure (fst p) (snd p) = None \<and> \<not> d_event (snd p)"

lemma runNATSCallback_action:
  assumes "runNATSCallback w config cb n r = Some (e, act)"
  shows "is_publish act" "published act = (e = None)" "act \<noteq> Cmit b" "act \<noteq> Back"
    "act \<noteq> RaiseConnectorError x"
  using assms by (cases cb; auto simp: Let_def split: if_splits)+

lemma AddRequestTime_frame:
  assumes "AddRequestTime fl s t = Some s'"
  shows "st_MessagesIn s' = st_MessagesIn s" "st_MessagesOut s' = st_MessagesOut s"
    "st_BytesIn s' = st_BytesIn s" "st_BytesOut s' = st_BytesOut s" "st_ID s' = st_ID s"
    "st_Connected s' = st_Connected s" "st_RequestCount s' = st_RequestCount s + 1"
  using assms by (auto simp: AddRequestTime_def Let_def split: option.splits)

lemma countOut_eq_Done:
  "countOut w n acts mq = Done acts' mq' \<longleftrightarrow>
     acts' = acts \<and> (\<exists>s. AddRequestTime f64 (AddMessageOut (bc_stats mq) (of_nat n)) (w_elapsed w) = Some s
       \<and> mq' = mq\<lparr>bc_stats := s\<rparr>)"
  by (auto simp: countOut_def split: option.splits)

lemma backOut_eq_Done:
  "backOut acts mq = Done acts' mq' \<longleftrightarrow> bc_qMgr mq \<noteq> None \<and> acts' = acts @ [Back] \<and> mq' = mq"
  by (auto simp: backOut_def)

text \<open>The four ways in which a message ends, and what each does to the connector.\<close>

definition counted_in :: "nat \<Rightarrow> 'a BridgeConnector_scheme \<Rightarrow> 'a BridgeConnector_scheme" where
  "counted_in n mq = mq\<lparr>bc_stats := AddMessageIn (bc_stats mq) (of_nat n)\<rparr>"

lemma counted_in_sel [simp]:
  "bc_config (counted_in n mq) = bc_config mq" "bc_qMgr (counted_in n mq) = bc_qMgr mq"
  "bc_stats (counted_in n mq) = AddMessageIn (bc_stats mq) (of_nat n)"
  by (simp_all add: counted_in_def)

lemma mqMessage_cases:
  assumes "mqMessage cb w d mq = Some (Done acts mq')"
  obtains (conversion) e where "MQToNATSMessage (w_mqlib w) (w_codec w) (bv_replyToInfo (w_view w))
        (Some (d_md d)) (d_handle d) (d_buffer d) (length (d_buffer d)) (qmgrFlag mq) = Some (Err e)"
      "acts = [Back]" "mq' = counted_in (length (d_buffer d)) mq"
  | (refused) n r e p where "MQToNATSMessage (w_mqlib w) (w_codec w) (bv_replyToInfo (w_view w))
        (Some (d_md d)) (d_handle d) (d_buffer d) (length (d_buffer d)) (qmgrFlag mq) = Some (Ok (n, r))"
      "runNATSCallback w (bc_config mq) cb n r = Some (Some e, p)"
      "acts = [p, Back]" "mq' = counted_in (length (d_buffer d)) mq"
  | (uncommitted) n r e p where "MQToNATSMessage (w_mqlib w) (w_codec w) (bv_replyToInfo (w_view w))
        (Some (d_md d)) (d_handle d) (d_buffer d) (length (d_buffer d)) (qmgrFlag mq) = Some (Ok (n, r))"
      "runNATSCallback w (bc_config mq) cb n r = Some (None, p)" "w_Cmit w = Some e"
      "acts = [p, Cmit False, RaiseConnectorError e]" "mq' = counted_in (length (d_buffer d)) mq"
  | (committed) n r p s where "MQToNATSMessage (w_mqlib w) (w_codec w) (bv_replyToInfo (w_view w))
        (Some (d_md d)) (d_handle d) (d_buffer d) (length (d_buffer d)) (qmgrFlag mq) = Some (Ok (n, r))"
      "runNATSCallback w (bc_config mq) cb n r = Some (None, p)" "w_Cmit w = None"
      "acts = [p, Cmit True]" "mq' = (counted_in (length (d_buffer d)) mq)\<lparr>bc_stats := s\<rparr>"
      "AddRequestTime f64 (AddMessageOut (AddMessageIn (bc_stats mq) (of_nat (length (d_buffer d))))
         (of_nat (length n))) (w_elapsed w) = Some s"
  using assms
  by (auto simp: mqMessage_def Let_def backOut_eq_Done countOut_eq_Done counted_in_def [symmetric]
      split: option.splits outcome.splits if_splits)

lemma mqCallback_Done:
  assumes "mqCallback cb p mq = Some (Done acts mq')"
  obtains (message) "is_message p" "mqMessage cb (fst p) (snd p) mq = Some (Done acts mq')"
  | (other) "\<not> is_message p" "mq' = mq" "acts = [] \<or> (\<exists>e. acts = [RaiseConnectorError e])"
  using assms that
  by (cases p) (auto simp: mqCallback_def is_message_def split: option.splits if_splits)

lemma mq_counts:
  assumes "mqCallback cb p c = Some (Done acts c')"
  shows "st_MessagesIn (bc_stats c') = st_MessagesIn (bc_stats c) + (if is_message p then 1 else 0)
    \<and> st_MessagesOut (bc_stats c') = st_MessagesOut (bc_stats c) + of_nat (count ((=) (Cmit True)) acts)
    \<and> count ((=) (Cmit True)) acts \<le> count published acts
    \<and> count published acts \<le> (if is_message p then 1 else 0)"
  using assms
proof (cases rule: mqCallback_Done)
  case message
  from message(2) show ?thesis
    by (cases rule: mqMessage_cases)
      (use message(1) in \<open>auto simp: stats_defs AddRequestTime_frame dest: runNATSCallback_action\<close>)
qed auto

interpretation mq_pump: pump "mqCallback cb" bc_stats is_message "(=) (Cmit True)" published
  for cb :: NATSCallback
  by unfold_locales (use mq_counts in \<open>blast+\<close>)

section \<open>The NATS and streaming callbacks as message paths\<close>

lemma nats_counts:
  assumes "natsCallback m c = Some (Done acts c')"
  shows "st_MessagesIn (bc_stats c') = st_MessagesIn (bc_stats c) + 1
    \<and> st_MessagesOut (bc_stats c') = st_MessagesOut (bc_stats c) + of_nat (count put_done acts)
    \<and> count put_done acts \<le> 1 \<and> (\<forall>a\<in>set acts. \<exists>md h b. a = Put md h b (put_done a))"
  using assms
  by (auto simp: natsCallback_def Let_def countOut_eq_Done stats_defs AddRequestTime_frame
      split: prod.splits option.splits outcome.splits)

interpretation nats_pump: pump natsCallback bc_stats "\<lambda>_. True" put_done put_done
  by unfold_locales (drule nats_counts; simp)+

lemma stan_counts:
  assumes "stanCallback m c = Some (Done acts c')"
  shows "st_MessagesIn (bc_stats c') = st_MessagesIn (bc_stats c) + 1
    \<and> st_MessagesOut (bc_stats c') = st_MessagesOut (bc_stats c) + of_nat (count ((=) Ack) acts)
    \<and> count ((=) Ack) acts = count put_done acts \<and> count put_done acts \<le> 1"
  using assms
  by (auto simp: stanCallback_def Let_def countOut_eq_Done stats_defs AddRequestTime_frame
      split: prod.splits option.splits outcome.splits)

interpretation stan_pump: pump stanCallback bc_stats "\<lambda>_. True" "(=) Ack" put_done
  by unfold_locales (drule stan_counts; simp)+

section \<open>Crash freedom\<close>

text \<open>The statistics of a connector are in order and have seen at most \<open>k\<close> requests.\<close>

definition conn_inv :: "nat \<Rightarrow> 'a BridgeConnector_scheme \<Rightarrow> bool" where
  "conn_inv k c \<longleftrightarrow> stats_inv (bc_stats c) \<and> unat (st_RequestCount (bc_stats c)) \<le> k"

lemma conn_inv_counted_in [simp]: "conn_inv k (counted_in n c) = conn_inv k c"
  by (simp add: conn_inv_def stats_inv_def stats_defs)

lemma conn_inv_mono: "conn_inv k c \<Longrightarrow> k \<le> k' \<Longrightarrow> conn_inv k' c"
  by (simp add: conn_inv_def)

lemma countOut_safe:
  assumes "conn_inv k c" "k + 1 < 2 ^ 53"
  shows "\<exists>c'. countOut w n acts c = Done acts c' \<and> conn_inv (k + 1) c'"
proof -
  have "stats_inv (AddMessageOut (bc_stats c) (of_nat n))"
    using assms by (simp add: conn_inv_def stats_inv_def stats_defs)
  moreover have "unat (st_RequestCount (AddMessageOut (bc_stats c) (of_nat n))) + 1 < 2 ^ 53"
    using assms by (auto simp: conn_inv_def stats_defs)
  ultimately have this: "stats_inv (AddMessageOut (bc_stats c) (of_nat n))"
    "unat (st_RequestCount (AddMessageOut (bc_stats c) (of_nat n))) + 1 < 2 ^ 53" .
  from f64.AddRequestTime_inv [OF this, of "w_elapsed w"] show ?thesis
    using assms(1) by (auto simp: countOut_def conn_inv_def stats_defs)
qed

lemma SetProperties_no_panic:
  "msg_Properties m \<noteq> None \<Longrightarrow> SetProperties m ps \<noteq> Panic"
proof (induction ps arbitrary: m)
  case (Cons p ps)
  obtain n v where p: "p = (n, v)" by fastforce
  show ?case
  proof (cases "SetProperty m n v")
    case (Ok m')
    then show ?thesis using Cons.IH [of m'] p by (simp, auto simp: SetProperty_eq_Ok)
  qed (use Cons.prems p SetProperty_eq_Panic [of m n v] in auto)
qed simp

text \<open>
  A message from MQ is fit for the connector: the connector is connected, the streaming connection is
  there if it is needed, and the properties of the message, if they are read at all, can be listed.
\<close>

definition mq_fit :: "NATSCallback \<Rightarrow> world \<times> delivery \<Rightarrow> 'a BridgeConnector_scheme \<Rightarrow> bool" where
  "mq_fit cb p c \<longleftrightarrow> bc_qMgr c \<noteq> None
     \<and> (cb = stanMessageHandler \<longrightarrow> bv_Stan (w_view (fst p)))
     \<and> (qmgrFlag c \<and> d_handle (snd p) \<noteq> EmptyHandle \<longrightarrow>
          (\<exists>ps. holds_props (w_mqlib (fst p)) (d_handle (snd p)) ps))"

lemma MQToNATSMessage_no_panic:
  assumes "q \<and> h \<noteq> EmptyHandle \<longrightarrow> (\<exists>ps. holds_props lib h ps)"
  shows "\<exists>r. MQToNATSMessage lib c info (Some md) h data (length data) q = Some r \<and> r \<noteq> Panic"
proof (cases "q \<and> h \<noteq> EmptyHandle")
  case True
  then obtain ps where "holds_props lib h ps" using assms by blast
  note eq = copyMessageProperties_eq [OF this, of "NewBridgeMessage (take (length data) data)
    \<lparr>msg_Header := (mapMQMDToHeader md)\<lparr>hdr_ReplyToChannel := snd (replyAddress info (Some md))\<rparr>\<rparr>"]
  show ?thesis
    using True eq SetProperties_no_panic [of "NewBridgeMessage data
      \<lparr>msg_Header := (mapMQMDToHeader md)\<lparr>hdr_ReplyToChannel := snd (replyAddress info (Some md))\<rparr>\<rparr>" ps]
    by (auto simp: MQToNATSMessage_def split_beta Encode_def NewBridgeMessage_def split: outcome.splits sum.splits)
next
  case False
  then show ?thesis
    by (auto simp: MQToNATSMessage_def split_beta copyMessageProperties_def Encode_def split: sum.splits)
qed

lemma runNATSCallback_Some:
  "(cb = stanMessageHandler \<longrightarrow> bv_Stan (w_view w)) \<Longrightarrow> \<exists>e p. runNATSCallback w config cb n r = Some (e, p)"
  by (cases cb) (simp_all add: Let_def)

lemma mqMessage_eq:
  "mqMessage cb w d mq =
     (let mq' = counted_in (length (d_buffer d)) mq in
      case MQToNATSMessage (w_mqlib w) (w_codec w) (bv_replyToInfo (w_view w)) (Some (d_md d))
             (d_handle d) (d_buffer d) (length (d_buffer d)) (qmgrFlag mq) of
        None \<Rightarrow> None
      | Some Panic \<Rightarrow> Some (Crash [])
      | Some (Err e) \<Rightarrow> Some (backOut [] mq')
      | Some (Ok (natsMsg, replyTo)) \<Rightarrow>
          Some (case runNATSCallback w (bc_config mq) cb natsMsg replyTo of
                  None \<Rightarrow> Crash []
                | Some (Some e, act) \<Rightarrow> backOut [act] mq'
                | Some (None, act) \<Rightarrow>
                    if bc_qMgr mq = None then Crash [act]
                    else (case w_Cmit w of
                            Some e \<Rightarrow> Done [act, Cmit False, RaiseConnectorError e] mq'
                          | None \<Rightarrow> countOut w (length natsMsg) [act, Cmit True] mq')))"
  by (auto simp: mqMessage_def counted_in_def Let_def split: option.split outcome.split)

lemma mqMessage_safe:
  assumes "conn_inv k c" "k + 1 < 2 ^ 53" "mq_fit cb (w, d) c"
  shows "\<exists>acts c'. mqMessage cb w d c = Some (Done acts c') \<and> conn_inv (k + 1) c'"
proof -
  define c1 where "c1 = counted_in (length (d_buffer d)) c"
  have fit: "cb = stanMessageHandler \<longrightarrow> bv_Stan (w_view w)"
    "qmgrFlag c \<and> d_handle d \<noteq> EmptyHandle \<longrightarrow> (\<exists>ps. holds_props (w_mqlib w) (d_handle d) ps)"
    using assms(3) by (simp_all add: mq_fit_def)
  have c: "conn_inv k c1" "conn_inv (k + 1) c1" "bc_qMgr c1 \<noteq> None" "bc_qMgr c \<noteq> None"
    using assms conn_inv_mono [of k c1 "k + 1"] by (simp_all add: mq_fit_def c1_def)
  then have bo: "backOut acts c1 = Done (acts @ [Back]) c1" for acts
    by (simp add: backOut_def)
  obtain r where r: "MQToNATSMessage (w_mqlib w) (w_codec w) (bv_replyToInfo (w_view w)) (Some (d_md d))
      (d_handle d) (d_buffer d) (length (d_buffer d)) (qmgrFlag c) = Some r" "r \<noteq> Panic"
    using MQToNATSMessage_no_panic [of "qmgrFlag c" "d_handle d" "w_mqlib w"] fit(2) by blast
  note eq = mqMessage_eq [of cb w d c, unfolded c1_def [symmetric] Let_def r(1)]
  show ?thesis
  proof (cases r)
    case (Ok nr)
    obtain n rep where nr: "nr = (n, rep)" by fastforce
    obtain e p where p: "runNATSCallback w (bc_config c) cb n rep = Some (e, p)"
      using runNATSCallback_Some [OF fit(1)] by blast
    obtain c' where "countOut w (length n) [p, Cmit True] c1 = Done [p, Cmit True] c'" "conn_inv (k + 1) c'"
      using countOut_safe [OF c(1) assms(2)] by blast
    then show ?thesis
      using c eq by (cases e; cases "w_Cmit w") (simp_all add: Ok nr p bo)
  next
    case (Err e)
    then show ?thesis using c eq by (simp add: bo)
  qed (use r in simp)
qed

lemma mqCallback_safe:
  assumes "conn_inv k c" "k + 1 < 2 ^ 53" "mq_fit cb p c"
  shows "\<exists>acts c'. mqCallback cb p c = Some (Done acts c') \<and> conn_inv (k + 1) c'"
  using mqMessage_safe [OF assms(1,2), of cb "fst p" "snd p"] assms(3) conn_inv_mono [OF assms(1), of "k + 1"]
  by (cases p) (auto simp: mqCallback_def split: option.splits)

lemma mqCallback_frame:
  assumes "mqCallback cb p c = Some (Done acts c')"
  shows "bc_config c' = bc_config c" "bc_qMgr c' = bc_qMgr c" "bc_calls c' = bc_calls c"
  using assms
  by (auto simp: counted_in_def elim!: mqCallback_Done mqMessage_cases)

interpretation mq_safe: safe_pump "mqCallback cb" bc_stats is_message "(=) (Cmit True)" published
    "mq_fit cb" conn_inv for cb :: NATSCallback
proof
  show "mq_fit cb m' c'" if "mqCallback cb m c = Some (Done acts c')" "mq_fit cb m' c"
    for m :: "world \<times> delivery" and c acts c' m'
    using that mqCallback_frame [OF that(1)] by (simp add: mq_fit_def qmgrFlag_def)
qed (rule mqCallback_safe)

text \<open>
  A message from NATS is fit: in the message it decodes to, if it is decoded at all, the entries
  tagged boolean or byte array hold a value of that type.
\<close>

definition tags_fit :: "BridgeMessage \<Rightarrow> bool" where
  "tags_fit m \<longleftrightarrow> (\<forall>n. GetTypedProperty m n \<noteq> Panic)"

definition nats_fit :: "world \<Rightarrow> bytes option \<Rightarrow> 'a BridgeConnector_scheme \<Rightarrow> bool" where
  "nats_fit w data c \<longleftrightarrow>
     (qmgrFlag c \<longrightarrow> (\<forall>m. DecodeBridgeMessage (w_codec w) data = Ok m \<longrightarrow> tags_fit m))"

lemma setHandleProperties_no_panic: "tags_fit m \<Longrightarrow> setHandleProperties lib h m ns \<noteq> Panic"
  by (induction ns) (auto simp: tags_fit_def split: outcome.splits option.splits)

lemma DecodeBridgeMessage_no_panic: "DecodeBridgeMessage c data \<noteq> Panic"
  by (simp add: DecodeBridgeMessage_def split: option.split sum.split)

lemma mapPropertiesToHandle_no_panic: "tags_fit m \<Longrightarrow> mapPropertiesToHandle lib ord m \<noteq> Panic"
  using setHandleProperties_no_panic [of m lib _ "ord m"]
  by (simp add: mapPropertiesToHandle_def split: sum.split outcome.split)

lemma NATSToMQMessage_no_panic:
  assumes "nats_fit w data c"
  shows "NATSToMQMessage lib (w_codec w) ord info data reply (qmgrFlag c) \<noteq> Panic"
proof (cases "DecodeBridgeMessage (w_codec w) data")
  case (Ok m)
  then have "qmgrFlag c \<Longrightarrow> tags_fit m" using assms by (simp add: nats_fit_def)
  then show ?thesis
    using Ok mapPropertiesToHandle_no_panic [of m lib ord]
    by (auto simp: NATSToMQMessage_def Let_def split: outcome.split)
qed (auto simp: NATSToMQMessage_def Let_def DecodeBridgeMessage_no_panic)

lemma natsCallback_safe:
  assumes "conn_inv k c" "k + 1 < 2 ^ 53" "nats_fit (fst m) (fst (snd m)) c"
  shows "\<exists>acts c'. natsCallback m c = Some (Done acts c') \<and> conn_inv (k + 1) c'"
proof -
  obtain w data reply where m: "m = (w, data, reply)" by (metis prod_cases3)
  define c1 where "c1 = counted_in (length (the_bytes data)) c"
  have c: "conn_inv k c1" "conn_inv (k + 1) c1"
    using assms(1) conn_inv_mono [of k c1 "k + 1"] by (simp_all add: c1_def)
  have out: "\<exists>acts' c'. countOut w n acts c1 = Done acts' c' \<and> conn_inv (k + 1) c'" for n acts
    using countOut_safe [OF c(1) assms(2)] by blast
  show ?thesis
    using NATSToMQMessage_no_panic [OF assms(3), of "w_mqlib w" "w_order w" "bv_replyToInfo (w_view w)" reply] c
    by (auto simp: m natsCallback_def Let_def counted_in_def [symmetric] c1_def [symmetric]
        intro: out [simplified] split: outcome.split option.split)
qed

lemma stanCallback_safe:
  assumes "conn_inv k c" "k + 1 < 2 ^ 53" "nats_fit (fst m) (snd m) c"
  shows "\<exists>acts c'. stanCallback m c = Some (Done acts c') \<and> conn_inv (k + 1) c'"
proof -
  obtain w data where m: "m = (w, data)" by fastforce
  define c1 where "c1 = counted_in (length (the_bytes data)) c"
  have c: "conn_inv k c1" "conn_inv (k + 1) c1"
    using assms(1) conn_inv_mono [of k c1 "k + 1"] by (simp_all add: c1_def)
  have out: "\<exists>acts' c'. countOut w n acts c1 = Done acts' c' \<and> conn_inv (k + 1) c'" for n acts
    using countOut_safe [OF c(1) assms(2)] by blast
  show ?thesis
    using NATSToMQMessage_no_panic [OF assms(3), of "w_mqlib w" "w_order w" "bv_replyToInfo (w_view w)" "''''"] c
    by (auto simp: m stanCallback_def Let_def counted_in_def [symmetric] c1_def [symmetric]
        intro: out [simplified] split: outcome.split option.split)
qed

lemma natsCallback_frame:
  assumes "natsCallback m c = Some (Done acts c') \<or> stanCallback m' c = Some (Done acts c')"
  shows "bc_config c' = bc_config c \<and> bc_qMgr c' = bc_qMgr c"
  using assms
  by (auto simp: natsCallback_def stanCallback_def Let_def countOut_eq_Done
      split: prod.splits option.splits outcome.splits)

interpretation nats_safe: safe_pump natsCallback bc_stats "\<lambda>_. True" put_done put_done
    "\<lambda>m. nats_fit (fst m) (fst (snd m))" conn_inv
proof
  show "nats_fit (fst m') (fst (snd m')) c'" if "natsCallback m c = Some (Done acts c')"
    "nats_fit (fst m') (fst (snd m')) c" for m c acts c' and m' :: "world \<times> bytes option \<times> string"
    using that natsCallback_frame [OF disjI1 [OF that(1)]] by (simp add: nats_fit_def qmgrFlag_def)
qed (rule natsCallback_safe)

interpretation stan_safe: safe_pump stanCallback bc_stats "\<lambda>_. True" "(=) Ack" put_done
    "\<lambda>m. nats_fit (fst m) (snd m)" conn_inv
proof
  show "nats_fit (fst m') (snd m') c'" if "stanCallback m c = Some (Done acts c')"
    "nats_fit (fst m') (snd m') c" for m c acts c' and m' :: "world \<times> bytes option"
    using that natsCallback_frame [OF disjI2 [OF that(1)]] by (simp add: nats_fit_def qmgrFlag_def)
qed (rule stanCallback_safe)

section \<open>Polling\<close>

text \<open>The turns that the loop makes: up to and with the first one that ends it.\<close>

fun until :: "('x \<Rightarrow> bool) \<Rightarrow> 'x list \<Rightarrow> 'x list" where
  "until P [] = []"
| "until P (x # xs) = (if P x then [x] else x # until P xs)"

text \<open>What the library documents: an error is not an OK completion, and no more bytes than fit.\<close>

definition sane_turn :: "turn \<Rightarrow> bool" where
  "sane_turn t \<longleftrightarrow> t_len t \<le> length (t_buffer t)
     \<and> (\<forall>cc rc. t_error t = Some (cc, rc) \<longrightarrow> cc \<noteq> w_MQCC_OK (t_world t))"

lemma pollTurn_eq: "sane_turn t \<Longrightarrow> pollTurn cb h t c = mqCallback cb (turn_delivery h t) c"
  by (auto simp: pollTurn_def mqCallback_def turn_delivery_def mqFailure_def sane_turn_def
      split: option.splits)

lemma pollLoop_runs:
  assumes "\<forall>t\<in>set ts. sane_turn t"
  shows "map_option fst (pollLoop cb h ts c) = runs (mqCallback cb) (map (turn_delivery h) (until t_done ts)) c"
  using assms
proof (induction ts arbitrary: c)
  case (Cons t ts)
  note eq = pollTurn_eq [of t cb h c]
  show ?case
  proof (cases "mqCallback cb (turn_delivery h t) c")
    case (Some r)
    show ?thesis
    proof (cases r)
      case (Done acts c')
      have IH: "map_option fst (pollLoop cb h ts c') =
          runs (mqCallback cb) (map (turn_delivery h) (until t_done ts)) c'"
        using Cons by simp
      then show ?thesis
        using Some Done eq Cons.prems
        by (cases "pollLoop cb h ts c'") (auto simp flip: IH split: reaction.splits prod.splits)
    qed (use Some eq Cons.prems in simp)
  qed (use eq Cons.prems in simp)
qed simp

lemma pollLoop_ends:
  assumes "pollLoop cb h ts c = Some (r, e)" "t \<in> set ts" "t_done t"
  shows e
  using assms
proof (induction ts arbitrary: c r)
  case (Cons t' ts)
  then show ?case
    by (auto split: option.splits reaction.splits prod.splits if_splits)
qed simp

section \<open>The order of puts and acknowledgements\<close>

definition ack_after_put :: "action list \<Rightarrow> bool" where
  "ack_after_put acts \<longleftrightarrow> (\<forall>i<length acts. acts ! i = Ack \<longrightarrow> 0 < i \<and> put_done (acts ! (i - 1)))"

lemma ack_after_put_append:
  assumes "ack_after_put as" "ack_after_put bs"
  shows "ack_after_put (as @ bs)"
  unfolding ack_after_put_def
proof (intro allI impI)
  fix i assume i: "i < length (as @ bs)" "(as @ bs) ! i = Ack"
  show "0 < i \<and> put_done ((as @ bs) ! (i - 1))"
  proof (cases "i < length as")
    case True
    then show ?thesis using i assms(1) by (auto simp: nth_append ack_after_put_def)
  next
    case False
    then have "i - length as < length bs" "bs ! (i - length as) = Ack" using i by (auto simp: nth_append)
    then have "0 < i - length as" "put_done (bs ! (i - length as - 1))"
      using assms(2) unfolding ack_after_put_def by blast+
    then show ?thesis using False by (auto simp: nth_append add.commute)
  qed
qed

lemma stanCallback_order:
  assumes "stanCallback m c = Some (Done acts c')"
  shows "ack_after_put acts"
  using assms
  by (auto simp: stanCallback_def Let_def countOut_eq_Done ack_after_put_def less_Suc_eq
      split: prod.splits option.splits outcome.splits)

lemma stan_runs_order:
  "runs stanCallback ms c = Some (Done acts c') \<Longrightarrow> ack_after_put acts \<and> count ((=) Ack) acts = count put_done acts"
proof (induction ms arbitrary: c acts)
  case (Cons m ms)
  then obtain a1 c1 a2 where h: "stanCallback m c = Some (Done a1 c1)" "acts = a1 @ a2"
    "runs stanCallback ms c1 = Some (Done a2 c')"
    by (auto split: option.splits reaction.splits)
  then show ?case
    using Cons.IH [OF h(3)] stanCallback_order [OF h(1)] stan_counts [OF h(1)] by (simp add: ack_after_put_append)
qed (simp add: ack_after_put_def)

section \<open>Properties\<close>

text \<open>
  C3. The MQ callback is a transaction. Whenever it ends: a message is committed only right after it
  was published successfully, and backed out only when it was not published; it is never both; a
  published message is always committed, or the commit failed and the connector asks the bridge for a
  restart; what is published is the converted message, to the subject or channel of the connector.
\<close>

theorem mq_callback_transaction:
  assumes "mqCallback cb p c = Some (Done acts c')"
  shows "(Back \<in> set acts \<longrightarrow> acts = [Back] \<or> (\<exists>a. acts = [a, Back] \<and> is_publish a \<and> \<not> published a))
    \<and> (Cmit b \<in> set acts \<longrightarrow> (\<exists>a as. acts = a # Cmit b # as \<and> published a \<and> Back \<notin> set acts))
    \<and> (published a \<and> a \<in> set acts \<longrightarrow> acts = [a, Cmit True] \<or> (\<exists>e. acts = [a, Cmit False, RaiseConnectorError e]))
    \<and> (is_publish a \<and> a \<in> set acts \<longrightarrow> (\<exists>n r e.
        MQToNATSMessage (w_mqlib (fst p)) (w_codec (fst p)) (bv_replyToInfo (w_view (fst p)))
          (Some (d_md (snd p))) (d_handle (snd p)) (d_buffer (snd p)) (length (d_buffer (snd p)))
          (qmgrFlag c) = Some (Ok (n, r)) \<and>
        runNATSCallback (fst p) (bc_config c) cb n r = Some (e, a)))
    \<and> (is_message p \<longrightarrow> Back \<in> set acts \<or> Cmit True \<in> set acts \<or> Cmit False \<in> set acts)"
  using assms
proof (cases rule: mqCallback_Done)
  case message
  from message(2) show ?thesis
  proof (cases rule: mqMessage_cases)
    case (refused n r e p)
    then show ?thesis using runNATSCallback_action [OF refused(2)] by auto
  next
    case (uncommitted n r e p)
    then show ?thesis using runNATSCallback_action [OF uncommitted(2)] by auto
  next
    case (committed n r p s)
    then show ?thesis using runNATSCallback_action [OF committed(2)] by auto
  qed auto
qed auto

text \<open>
  C18. At least once from MQ. Over any sequence of callbacks that ends, the counter of messages in
  grows by the number of messages MQ delivered and the counter of messages out by the number of
  commits (modulo \<open>2 ^ 64\<close>), and there are at most as many commits as successful publishes, and at
  most as many of these as delivered messages: none is published twice by one delivery.
\<close>

theorem mq_path_counts:
  assumes "runs (mqCallback cb) ms c = Some (Done acts c')"
  shows "st_MessagesIn (bc_stats c') = st_MessagesIn (bc_stats c) + of_nat (count is_message ms)
    \<and> st_MessagesOut (bc_stats c') = st_MessagesOut (bc_stats c) + of_nat (count ((=) (Cmit True)) acts)
    \<and> count ((=) (Cmit True)) acts \<le> count published acts \<and> count published acts \<le> count is_message ms"
  by (rule mq_pump.runs_counts [OF assms])

text \<open>
  C8. Streaming messages are acknowledged exactly when they were put. Over any sequence of
  callbacks that ends there are as many acknowledgements as successful puts, at most one per message,
  and both counters agree; a message is never acknowledged before its put succeeded.
\<close>

theorem stan_path_counts:
  assumes "runs stanCallback ms c = Some (Done acts c')"
  shows "st_MessagesIn (bc_stats c') = st_MessagesIn (bc_stats c) + of_nat (length ms)
    \<and> st_MessagesOut (bc_stats c') = st_MessagesOut (bc_stats c) + of_nat (count ((=) Ack) acts)
    \<and> count ((=) Ack) acts = count put_done acts \<and> count ((=) Ack) acts \<le> length ms
    \<and> (\<forall>i<length acts. acts ! i = Ack \<longrightarrow> 0 < i \<and> put_done (acts ! (i - 1)))"
  using stan_pump.runs_counts [OF assms] stan_runs_order [OF assms] by (simp add: ack_after_put_def count_def)

text \<open>
  C7. The bridge never crashes on messages that are fit. From statistics in order, fewer than \<open>2 ^ 53\<close>
  callbacks of any one of the three kinds all end, whatever the libraries answer: the loop over the
  message properties ends, nothing panics, and the statistics stay in order.
\<close>

theorem message_paths_safe:
  assumes "conn_inv k c"
    and "k + length ms < 2 ^ 53" and "\<forall>m\<in>set ms. mq_fit cb m c"
    and "k + length ns < 2 ^ 53" and "\<forall>(w, data, reply)\<in>set ns. nats_fit w data c"
    and "k + length ss < 2 ^ 53" and "\<forall>(w, data)\<in>set ss. nats_fit w data c"
  shows "(\<exists>acts c'. runs (mqCallback cb) ms c = Some (Done acts c') \<and> conn_inv (k + length ms) c')
    \<and> (\<exists>acts c'. runs natsCallback ns c = Some (Done acts c') \<and> conn_inv (k + length ns) c')
    \<and> (\<exists>acts c'. runs stanCallback ss c = Some (Done acts c') \<and> conn_inv (k + length ss) c')"
  using mq_safe.runs_safe [OF assms(1-3)] nats_safe.runs_safe [OF assms(1,4)]
    stan_safe.runs_safe [OF assms(1,6)] assms(5,7) by (auto simp: split_beta)


text \<open>
  C33. A message that arrives between the loss of the streaming connection and the shutdown of the
  connector crashes the bridge: the lost connection is a nil interface, and the connector publishes
  through it without a check.
\<close>

theorem lost_streaming_connection_crashes:
  assumes "is_message (w, d)" and "\<not> bv_Stan (w_view w)"
    and "MQToNATSMessage (w_mqlib w) (w_codec w) (bv_replyToInfo (w_view w)) (Some (d_md d)) (d_handle d)
      (d_buffer d) (length (d_buffer d)) (qmgrFlag c) = Some (Ok nr)"
  shows "mqCallback stanMessageHandler (w, d) c = Some (Crash [])"
  using assms by (simp add: mqCallback_def is_message_def mqMessage_eq Let_def split_beta)

text \<open>
  C34. A message that reaches the callback after the connector was shut down, as a turn of the
  polling loop can, crashes the bridge after the message was published: the body goes out as it is,
  without the header that the connector is configured to send, and then the commit is called on a
  nil queue manager. The message stays in the queue.
\<close>

theorem late_message_published_then_crashes:
  assumes "is_message (w, d)" and "bc_qMgr c = None"
    and "replyAddress (bv_replyToInfo (w_view w)) (Some (d_md d)) = ('''', '''')"
    and "w_nats_publish w (cfg_Subject (bc_config c)) '''' (d_buffer d) = None"
  shows "mqCallback natsMessageHandler (w, d) c =
    Some (Crash [Publish (cfg_Subject (bc_config c)) (d_buffer d) True])"
  using assms
  by (simp add: mqCallback_def is_message_def mqMessage_eq MQToNATSMessage_def qmgrFlag_def Let_def)

section \<open>Concrete instances\<close>

definition example_world :: "bool \<Rightarrow> world" where
  "example_world stan = \<lparr>w_mqlib = example_lib,
     w_codec = \<lparr>codec_encode = \<lambda>_. Inr [7], codec_decode = \<lambda>_. Inr (NewBridgeMessage [65])\<rparr>,
     w_order = \<lambda>_. [], w_nats_publish = \<lambda>_ _ _. None, w_stan_publish = \<lambda>_ _. None, w_Cmit = None,
     w_Put = \<lambda>_ _ _. None, w_elapsed = 5,
     w_view = \<lparr>bv_CheckNATS = True, bv_CheckStan = stan, bv_Stan = stan, bv_replyToInfo = Map.empty\<rparr>,
     w_NO_MSG_AVAILABLE = 2033, w_MQCC_OK = 0, w_ErrorText = \<lambda>_ _. ''''\<rparr>"

definition example_delivery :: delivery where
  "example_delivery = \<lparr>d_error = None, d_event = False, d_md = example_md, d_handle = 1, d_buffer = [65, 66]\<rparr>"

definition example_conn :: "nat option \<Rightarrow> BridgeConnector" where
  "example_conn q = (init_connector example_config ''n'' ''x'')\<lparr>bc_qMgr := q\<rparr>"

lemma example_conn_inv: "conn_inv 0 (example_conn q)"
  using stats_inv_NewConnectorStats
  by (simp add: conn_inv_def example_conn_def init_connector_def stats_inv_def NewConnectorStats_def)

lemma example_fit: "mq_fit cb (example_world True, example_delivery) (example_conn (Some 0))"
  using example_holds_props [of 1]
  by (auto simp: mq_fit_def example_conn_def example_world_def example_delivery_def)

lemma example_nats_fit: "nats_fit (example_world s) data (example_conn q)"
proof -
  have "GetTypedProperty (NewBridgeMessage [65]) n \<noteq> Panic" for n
    by (simp add: GetTypedProperty_eq_Panic)
  then show ?thesis
    by (auto simp: nats_fit_def tags_fit_def example_world_def DecodeBridgeMessage_def split: option.splits)
qed

lemma example_runs:
  "\<exists>acts c'. mqCallback natsMessageHandler (example_world True, example_delivery) (example_conn (Some 0)) =
     Some (Done acts c')"
  "\<exists>acts c'. stanCallback (example_world True, Some [1]) (example_conn (Some 0)) = Some (Done acts c')"
proof -
  have k: "0 + 1 < (2 :: nat) ^ 53" by simp
  show "\<exists>acts c'. mqCallback natsMessageHandler (example_world True, example_delivery) (example_conn (Some 0)) =
      Some (Done acts c')"
    using mqCallback_safe [OF example_conn_inv k example_fit] by blast
  show "\<exists>acts c'. stanCallback (example_world True, Some [1]) (example_conn (Some 0)) = Some (Done acts c')"
    using stanCallback_safe [OF example_conn_inv k, of "(example_world True, Some [1])" "Some 0"]
      example_nats_fit by force
qed

theorem mq_callback_transaction_witness:
  "\<exists>acts c'. mqCallback natsMessageHandler (example_world True, example_delivery) (example_conn (Some 0)) =
       Some (Done acts c')
     \<and> (Cmit True \<in> set acts \<longrightarrow> (\<exists>a as. acts = a # Cmit True # as \<and> published a \<and> Back \<notin> set acts))"
proof -
  obtain acts c' where r: "mqCallback natsMessageHandler (example_world True, example_delivery)
      (example_conn (Some 0)) = Some (Done acts c')"
    using example_runs(1) by blast
  have "Cmit True \<in> set acts \<longrightarrow> (\<exists>a as. acts = a # Cmit True # as \<and> published a \<and> Back \<notin> set acts)"
    by (rule mq_callback_transaction [OF r, THEN conjunct2, THEN conjunct1])
  with r show ?thesis by blast
qed

theorem mq_path_counts_witness:
  "\<exists>acts c'. runs (mqCallback natsMessageHandler) [(example_world True, example_delivery)] (example_conn (Some 0)) =
       Some (Done acts c') \<and> st_MessagesIn (bc_stats c') = 1 \<and> count published acts \<le> 1"
proof -
  obtain acts c' where r: "runs (mqCallback natsMessageHandler) [(example_world True, example_delivery)]
      (example_conn (Some 0)) = Some (Done acts c')"
    using example_runs(1) by auto
  have "is_message (example_world True, example_delivery)"
    by (simp add: is_message_def mqFailure_def example_delivery_def)
  with mq_path_counts [OF r] r show ?thesis
    by (simp add: example_conn_def init_connector_def NewConnectorStats_def)
qed

theorem stan_path_counts_witness:
  "\<exists>acts c'. runs stanCallback [(example_world True, Some [1])] (example_conn (Some 0)) = Some (Done acts c')
     \<and> st_MessagesIn (bc_stats c') = 1 \<and> count ((=) Ack) acts = count put_done acts"
proof -
  obtain acts c' where r: "runs stanCallback [(example_world True, Some [1])] (example_conn (Some 0)) =
      Some (Done acts c')"
    using example_runs(2) by auto
  with stan_path_counts [OF r] show ?thesis
    by (simp add: example_conn_def init_connector_def NewConnectorStats_def)
qed

theorem message_paths_safe_witness:
  "\<exists>acts c'. runs (mqCallback stanMessageHandler) [(example_world True, example_delivery)] (example_conn (Some 0)) =
       Some (Done acts c') \<and> conn_inv 1 c'"
  using message_paths_safe [OF example_conn_inv, of "[(example_world True, example_delivery)]"
      stanMessageHandler "Some 0" "[]" "[]"] example_fit [of stanMessageHandler] by simp


theorem lost_streaming_connection_crashes_witness:
  "mqCallback stanMessageHandler (example_world False, example_delivery\<lparr>d_handle := 0\<rparr>) (example_conn (Some 0)) =
     Some (Crash [])"
  by (rule lost_streaming_connection_crashes [where nr = "([7], '''')"])
    (simp_all add: is_message_def mqFailure_def example_delivery_def example_world_def MQToNATSMessage_def
      replyAddress_def copyMessageProperties_def EmptyHandle_def Encode_def qmgrFlag_def example_conn_def
      init_connector_def example_config_def zero_ConnectorConfig_def)

theorem late_message_published_then_crashes_witness:
  "mqCallback natsMessageHandler (example_world True, example_delivery) (example_conn None) =
     Some (Crash [Publish ''s'' [65, 66] True])"
  using late_message_published_then_crashes [of "example_world True" example_delivery "example_conn None"]
  by (simp add: is_message_def mqFailure_def example_delivery_def example_world_def example_conn_def
      replyAddress_def init_connector_def example_config_def)

end
