(* ===== verification/Clients.thy ===== *)
theory Clients
  imports Pump
begin

text \<open>
  The clients of the message package: the pair of examples \<^verbatim>\<open>tick\<close> and \<^verbatim>\<open>tock\<close>
  (\<^verbatim>\<open>src/message/examples\<close>), which send a message through two connectors of a bridge and an MQ queue
  and print it at both ends, and the tool that writes the interchange file for the tests of the Java
  helpers (\<^verbatim>\<open>src/message/interchange/main.go\<close>). The theorem at the end puts the components together:
  what the first client sends the second one prints.

  The identifiers of the package \<^verbatim>\<open>nuid\<close>, the formatted times of the ticker and the answers of the
  NATS library are arguments.
\<close>

section \<open>What the clients print\<close>

datatype line = Title string | BodyLine bytes | CounterLine i64 | TimeLine string | IdLine bytes

text \<open>
  Both clients print a message with the same statements; a property that is missing or not of the
  expected type ends the program with \<^verbatim>\<open>log.Fatal\<close> after the lines printed so far.
\<close>

definition printMessage :: "string \<Rightarrow> BridgeMessage \<Rightarrow> line list \<times> unit outcome" where
  "printMessage title bridgeMsg =
     (let lines = [Title title, BodyLine (msg_Body bridgeMsg)] in
      case GetInt64Property bridgeMsg ''counter'' of (counter, ok) \<Rightarrow>
        if \<not> ok then (lines, Err (Errorf ''counter property is missing''))
        else (let lines = lines @ [CounterLine counter] in
              case GetStringProperty bridgeMsg ''time'' of (time, ok) \<Rightarrow>
                if \<not> ok then (lines, Err (Errorf ''time property is missing''))
                else (lines @ [TimeLine time, IdLine (hdr_CorrelID (msg_Header bridgeMsg))], Ok ())))"

section \<open>The sender\<close>

text \<open>The message of one tick; the errors of \<open>SetProperty\<close> are ignored.\<close>

definition tick_message :: "bytes \<Rightarrow> bytes \<Rightarrow> i64 \<Rightarrow> string \<Rightarrow> BridgeMessage outcome" where
  "tick_message body nuid counter time =
     (let bridgeMsg = NewBridgeMessage body;
          bridgeMsg = bridgeMsg\<lparr>msg_Header := (msg_Header bridgeMsg)\<lparr>hdr_CorrelID := nuid\<rparr>\<rparr>
      in prop_run bridgeMsg [OpSet ''counter'' (VInt counter), OpSet ''time'' (VString time)])"

text \<open>One turn of the loop: the lines printed and what is published to the subject \<^verbatim>\<open>tick\<close>.\<close>

definition tick_turn :: "codec \<Rightarrow> bytes \<Rightarrow> i64 \<Rightarrow> string \<times> bytes \<Rightarrow> line list \<times> bytes outcome" where
  "tick_turn c body counter t =
     (case tick_message body (snd t) counter (fst t) of
        Ok bridgeMsg \<Rightarrow>
          (case printMessage ''Sending message:'' bridgeMsg of
             (lines, Ok _) \<Rightarrow> (lines, Encode c bridgeMsg)
           | (lines, Err e) \<Rightarrow> (lines, Err e)
           | (lines, Panic) \<Rightarrow> (lines, Panic))
      | Err e \<Rightarrow> ([], Err e)
      | Panic \<Rightarrow> ([], Panic))"

text \<open>
  The loop over the ticks that happen, each with its formatted time and the identifier that is drawn:
  the lines, the published messages (the errors of \<^verbatim>\<open>Publish\<close> and \<^verbatim>\<open>Flush\<close> are ignored), and whether
  the program is still running. The variable \<^verbatim>\<open>counter\<close> of the inner scope shadows the outer one, which
  is incremented once per turn.
\<close>

fun tick_loop ::
  "codec \<Rightarrow> bytes \<Rightarrow> i64 \<Rightarrow> (string \<times> bytes) list \<Rightarrow> line list \<times> (string \<times> bytes) list \<times> unit outcome" where
  "tick_loop c body counter [] = ([], [], Ok ())"
| "tick_loop c body counter (t # ts) =
     (let counter = counter + 1 in
      case tick_turn c body counter t of
        (lines, Ok encoded) \<Rightarrow>
          (case tick_loop c body counter ts of
             (lines', sent, r) \<Rightarrow> (lines @ lines', (''tick'', encoded) # sent, r))
      | (lines, Err e) \<Rightarrow> (lines, [], Err e)
      | (lines, Panic) \<Rightarrow> (lines, [], Panic))"

text \<open>
  The programs: they end with their usage when the arguments do not fit, with a fatal error, or they
  run. The banner they print when they start to run is left out.
\<close>

datatype 'a client = Usage | Fatal go_error | Running 'a

definition tick_main ::
  "codec \<Rightarrow> go_error option \<Rightarrow> bytes list \<Rightarrow> (string \<times> bytes) list \<Rightarrow>
   (line list \<times> (string \<times> bytes) list \<times> unit outcome) client" where
  "tick_main c connect args ticks =
     (if length args \<noteq> 1 then Usage
      else case connect of
             Some e \<Rightarrow> Fatal e
           | None \<Rightarrow> Running (tick_loop c (args ! 0) 0 ticks))"

section \<open>The receiver\<close>

text \<open>The callback of the subscription to \<^verbatim>\<open>tock\<close>.\<close>

definition tock_message :: "codec \<Rightarrow> bytes option \<Rightarrow> line list \<times> unit outcome" where
  "tock_message c data =
     (case DecodeBridgeMessage c data of
        Err e \<Rightarrow> ([], Err e)
      | Panic \<Rightarrow> ([], Panic)
      | Ok bridgeMsg \<Rightarrow> printMessage ''Received message:'' bridgeMsg)"

fun tock_loop :: "codec \<Rightarrow> bytes option list \<Rightarrow> line list \<times> unit outcome" where
  "tock_loop c [] = ([], Ok ())"
| "tock_loop c (d # ds) =
     (case tock_message c d of
        (lines, Ok _) \<Rightarrow> (case tock_loop c ds of (lines', r) \<Rightarrow> (lines @ lines', r))
      | (lines, r) \<Rightarrow> (lines, r))"

definition tock_main ::
  "codec \<Rightarrow> go_error option \<Rightarrow> go_error option \<Rightarrow> bytes list \<Rightarrow> bytes option list \<Rightarrow>
   (line list \<times> unit outcome) client" where
  "tock_main c connect lastError args msgs =
     (if length args \<noteq> 0 then Usage
      else case connect of
             Some e \<Rightarrow> Fatal e
           | None \<Rightarrow>
               (case lastError of
                  Some e \<Rightarrow> Fatal e
                | None \<Rightarrow> Running (tock_loop c msgs)))"

text \<open>The options of its connection; the times are nanoseconds.\<close>

datatype nats_option =
    Name string
  | ReconnectWait i64
  | MaxReconnects i64
  | DisconnectHandler string
  | ReconnectHandler string
  | ClosedHandler string

definition setupConnOptions :: "nats_option list \<Rightarrow> nats_option list" where
  "setupConnOptions opts =
     (let totalWait = 10 * 60 * 1000000000;
          reconnectDelay = 1000000000
      in opts @ [ReconnectWait reconnectDelay, MaxReconnects (totalWait div reconnectDelay),
           DisconnectHandler ''Disconnected: will attempt reconnects for 10m'',
           ReconnectHandler ''Reconnected [%s]'',
           ClosedHandler ''Exiting, no servers available''])"

section \<open>The interchange tool\<close>

text \<open>The bytes of an ASCII literal.\<close>

definition ascii :: "string \<Rightarrow> bytes" where
  "ascii s = map (\<lambda>c. of_nat (of_char c)) s"

definition expected :: "(string \<times> gvalue) list" where
  "expected = [
     (''string'', VString ''hello world''),
     (''int8'', VInt8 9),
     (''int16'', VInt16 259),
     (''int32'', VInt32 222222222),
     (''int64'', VInt64 222222222222222222),
     (''float32'', VFloat32 (to_float32 (Fin (314 / 100)))),
     (''float64'', VFloat64 (Fin (f64 (64999 / 10000)))),
     (''bool'', VBool True),
     (''bytes'', VBytes (ascii ''one two three four''))]"

definition interchange_message :: BridgeMessage where
  "interchange_message = (NewBridgeMessage (ascii ''hello world''))
     \<lparr>msg_Header := zero_header\<lparr>hdr_Version := 1, hdr_Report := 2, hdr_MsgID := ascii ''cafebabe''\<rparr>\<rparr>"

text \<open>
  The tool ranges over the table in the order \<open>ps\<close> that the runtime chooses; \<open>WriteFile\<close> is the
  library's. The result is what was written.
\<close>

definition interchange_main ::
  "codec \<Rightarrow> (bytes \<Rightarrow> go_error option) \<Rightarrow> (string \<times> gvalue) list \<Rightarrow> bytes outcome" where
  "interchange_main c WriteFile ps =
     (case SetProperties interchange_message ps of
        Err e \<Rightarrow> Err e
      | Panic \<Rightarrow> Panic
      | Ok msg \<Rightarrow>
          (case Encode c msg of
             Err e \<Rightarrow> Err e
           | Panic \<Rightarrow> Panic
           | Ok bytes \<Rightarrow> (case WriteFile bytes of Some e \<Rightarrow> Err e | None \<Rightarrow> Ok bytes)))"

section \<open>What the getters return\<close>

lemma map_prod_eq_pair: "map_prod f id p = (x, b) \<longleftrightarrow> f (fst p) = x \<and> snd p = b"
  by (cases p) simp

lemma typed_getters:
  "GetTypedProperty m n = Ok (VInt64 i, True) \<Longrightarrow> GetInt64Property m n = (i, True)"
  "GetTypedProperty m n = Ok (VString s, True) \<Longrightarrow> GetStringProperty m n = (s, True)"
  by (simp_all add: GetTypedProperty_def Let_def map_prod_eq_pair prod_eq_iff case_prod_beta
      split: option.splits if_split_asm)

text \<open>A message that carries the two properties is printed completely.\<close>

definition carries :: "BridgeMessage \<Rightarrow> i64 \<Rightarrow> string \<Rightarrow> bool" where
  "carries m counter time \<longleftrightarrow> GetTypedProperty m ''counter'' = Ok (VInt64 counter, True)
     \<and> GetTypedProperty m ''time'' = Ok (VString time, True)"

lemma printMessage_carries:
  "carries m counter time \<Longrightarrow>
     printMessage title m = ([Title title, BodyLine (msg_Body m), CounterLine counter, TimeLine time,
       IdLine (hdr_CorrelID (msg_Header m))], Ok ())"
  by (simp add: carries_def printMessage_def typed_getters)

section \<open>The message of a tick\<close>

definition tick_header :: "bytes \<Rightarrow> BridgeHeader" where
  "tick_header nuid = zero_header\<lparr>hdr_CorrelID := nuid\<rparr>"

abbreviation tick_props :: "i64 \<Rightarrow> string \<Rightarrow> (string \<times> gvalue) list" where
  "tick_props counter time \<equiv> [(''counter'', VInt counter), (''time'', VString time)]"

lemma tick_message_eq:
  "tick_message body nuid counter time =
     SetProperties (NewBridgeMessage body\<lparr>msg_Header := tick_header nuid\<rparr>) (tick_props counter time)"
  by (simp add: tick_message_def tick_header_def NewBridgeMessage_def SetProperty_def prop_assign_def)

lemma tick_message_Ok: "\<exists>m. tick_message body nuid counter time = Ok m \<and> carries m counter time"
proof -
  obtain m where m: "tick_message body nuid counter time = Ok m"
    by (simp add: tick_message_eq NewBridgeMessage_def SetProperty_def prop_assign_def)
  then have "props.set_all (NewBridgeMessage body\<lparr>msg_Header := tick_header nuid\<rparr>) (tick_props counter time) = Ok m"
    by (simp only: tick_message_eq SetProperties_set_all)
  from props.get_set_all [OF this] m show ?thesis by (simp add: carries_def retrievable_def)
qed

lemma tick_message_frame:
  assumes "tick_message body nuid counter time = Ok m"
  shows "msg_Body m = body" "msg_Header m = tick_header nuid"
  using SetProperties_frame [OF assms [unfolded tick_message_eq]] by (simp_all add: NewBridgeMessage_def)

lemma tick_turn_eq:
  assumes "tick_message body nuid counter time = Ok m"
  shows "tick_turn c body counter (time, nuid) =
    ([Title ''Sending message:'', BodyLine body, CounterLine counter, TimeLine time, IdLine nuid], Encode c m)"
proof -
  have "carries m counter time" using tick_message_Ok [of body nuid counter time] assms by simp
  from printMessage_carries [OF this] show ?thesis
    using assms tick_message_frame [OF assms] by (simp add: tick_turn_def tick_header_def)
qed

section \<open>From the queue to the subscription\<close>

text \<open>
  What MQ promises for a message that was put and is got again: the identifiers and the reply address
  are those of the descriptor it was put with, the body is the same, and the handle lists the
  properties that were set, each once and in any order.
\<close>

fun delivered :: "mq_message \<Rightarrow> world \<Rightarrow> delivery \<Rightarrow> (string \<times> gvalue) list \<Rightarrow> bool" where
  "delivered (md, h, sets, body) w dl ps \<longleftrightarrow>
     is_message (w, dl) \<and> md_CorrelId (d_md dl) = md_CorrelId md \<and> md_ReplyToQ (d_md dl) = md_ReplyToQ md
     \<and> d_buffer dl = the_bytes body \<and> d_handle dl \<noteq> EmptyHandle
     \<and> holds_props (w_mqlib w) (d_handle dl) ps \<and> distinct (map fst ps) \<and> set ps = set sets"

text \<open>The message that the MQ callback fills with the properties of a delivery.\<close>

definition mq_bridge_message :: "world \<Rightarrow> delivery \<Rightarrow> BridgeMessage" where
  "mq_bridge_message w dl = NewBridgeMessage (d_buffer dl)\<lparr>msg_Header := (mapMQMDToHeader (d_md dl))
     \<lparr>hdr_ReplyToChannel := snd (replyAddress (bv_replyToInfo (w_view w)) (Some (d_md dl)))\<rparr>\<rparr>"

lemma trim_zero_pad: "0 \<notin> set xs \<Longrightarrow> trim_zero (xs @ replicate n 0) = xs"
proof -
  assume "0 \<notin> set xs"
  then have nz: "dropWhile ((=) 0) (xs @ ys) = (if xs = [] then dropWhile ((=) 0) ys else xs @ ys)" for ys
    by (cases xs) auto
  have "dropWhile ((=) 0) (replicate n 0 @ ys) = dropWhile ((=) 0) ys" for ys :: bytes
    by (induction n) auto
  moreover have "dropWhile ((=) 0) (rev xs) = rev xs"
    using \<open>0 \<notin> set xs\<close> by (cases "rev xs") (auto simp flip: set_rev [of xs])
  ultimately show ?thesis by (simp add: trim_zero_def nz)
qed

lemma correl_id_roundtrip:
  assumes "0 \<notin> set nuid" "nuid \<noteq> []" "length nuid \<le> sz"
  shows "copyByteArray (copyByteArrayIfNotEmpty nuid def sz) = nuid"
  using assms by (simp add: copyByteArray_def copyByteArrayIfNotEmpty_def trim_zero_pad)

text \<open>The connector to MQ puts the message of a tick.\<close>

lemma natsCallback_transported:
  assumes "transported (w_codec w) (w_order w) m d m2"
    and "SetProperties (NewBridgeMessage b\<lparr>msg_Header := hdr\<rparr>) ps = Ok m"
    and "\<forall>p\<in>set ps. tag_of (snd p) \<noteq> None \<and> wf_value (snd p)"
    and "CrtMH (w_mqlib w) = Inr h" "\<forall>n v. SetMP (w_mqlib w) h n v = None"
    and "\<forall>md. w_Put w md h (Some b) = None"
    and "conn_inv k q" "k + 1 < 2 ^ 53" "qmgrFlag q"
  shows "\<exists>md sets q'. natsCallback (w, Some d, reply) q = Some (Done [Put md h (Some b) True] q')
    \<and> conn_inv (k + 1) q'
    \<and> md = setReply (replyQueueOfHeader (bv_replyToInfo (w_view w)) hdr (replyQueue (bv_replyToInfo (w_view w)) reply))
        (mapHeaderToMQMD (w_mqlib w) hdr)
    \<and> NATSToMQMessage (w_mqlib w) (w_codec w) (w_order w) (bv_replyToInfo (w_view w)) (Some d) reply True =
        Ok (md, h, sets, Some b)
    \<and> distinct (map fst sets) \<and> map_of sets = (\<lambda>n. map_option canonical (map_of (rev ps) n))"
proof -
  obtain sets where sets: "NATSToMQMessage (w_mqlib w) (w_codec w) (w_order w) (bv_replyToInfo (w_view w)) (Some d) reply True =
      Ok (setReply (replyQueueOfHeader (bv_replyToInfo (w_view w)) hdr (replyQueue (bv_replyToInfo (w_view w)) reply))
        (mapHeaderToMQMD (w_mqlib w) hdr), h, sets, Some b)"
    "distinct (map fst sets)" "map_of sets = (\<lambda>n. map_option canonical (map_of (rev ps) n))"
    using NATSToMQMessage_transported [OF assms(1-5)] by blast
  have "conn_inv k (counted_in (length d) q)" using assms(7) by simp
  from countOut_safe [OF this assms(8)] show ?thesis
    using sets assms(6,9) by (auto simp: natsCallback_def Let_def simp flip: counted_in_def)
qed

text \<open>The connector from MQ publishes a message with its properties and commits it.\<close>

lemma mqCallback_held:
  assumes "is_message (w, dl)" "d_handle dl \<noteq> EmptyHandle" "holds_props (w_mqlib w) (d_handle dl) ps"
    and "SetProperties (mq_bridge_message w dl) ps = Ok m" "codec_encode (w_codec w) m = Inr d"
    and "replyAddress (bv_replyToInfo (w_view w)) (Some (d_md dl)) = ('''', '''')"
    and "w_nats_publish w (cfg_Subject (bc_config q)) '''' d = None" "w_Cmit w = None"
    and "conn_inv k q" "k + 1 < 2 ^ 53" "qmgrFlag q"
  shows "\<exists>q'. mqCallback natsMessageHandler (w, dl) q =
      Some (Done [Publish (cfg_Subject (bc_config q)) d True, Cmit True] q') \<and> conn_inv (k + 1) q'"
proof -
  have "MQToNATSMessage (w_mqlib w) (w_codec w) (bv_replyToInfo (w_view w)) (Some (d_md dl)) (d_handle dl)
      (d_buffer dl) (length (d_buffer dl)) True = Some (Ok (d, ''''))"
    using MQToNATSMessage_held [OF assms(3,2), of "length (d_buffer dl)" "d_buffer dl"
        "bv_replyToInfo (w_view w)" "d_md dl" m "w_codec w" d] assms(4-6)
    by (simp add: mq_bridge_message_def)
  moreover have "conn_inv k (counted_in (length (d_buffer dl)) q)" using assms(9) by simp
  from countOut_safe [OF this assms(10)] obtain q' where
    "countOut w (length d) [Publish (cfg_Subject (bc_config q)) d True, Cmit True]
       (counted_in (length (d_buffer dl)) q) =
     Done [Publish (cfg_Subject (bc_config q)) d True, Cmit True] q'" "conn_inv (k + 1) q'" by blast
  moreover have "bc_qMgr q \<noteq> None" "qmgrFlag q" using assms(11) by (simp_all add: qmgrFlag_def)
  ultimately show ?thesis
    using assms(1,7,8) by (simp add: mqCallback_def is_message_def mqMessage_eq Let_def)
qed

text \<open>The receiver reads what was in the message before it was encoded.\<close>

lemma tock_message_transported:
  assumes "transported c ord m d m2"
    and "SetProperties (NewBridgeMessage b\<lparr>msg_Header := hdr\<rparr>) ps = Ok m"
    and "distinct (map fst ps)" "(''counter'', VInt64 counter) \<in> set ps" "(''time'', VString time) \<in> set ps"
  shows "tock_message c (Some d) = ([Title ''Received message:'', BodyLine b, CounterLine counter,
    TimeLine time, IdLine (hdr_CorrelID hdr)], Ok ())"
proof -
  have frame: "msg_Body m2 = b" "msg_Header m2 = hdr"
    using SetProperties_frame [OF assms(2)] assms(1) by (auto simp: transported_def NewBridgeMessage_def)
  have get: "GetTypedProperty m2 n = Ok (canonical v, True)"
    if "(n, v) \<in> set ps" "tag_of v \<noteq> None" "wf_value v" for n v
  proof -
    have "map_of (rev ps) n = Some v" using that(1) assms(3) by (simp add: rev_map [symmetric])
    then have "GetTypedProperty (wire_msg m) n = Ok (canonical v, True)"
      using GetTypedProperty_wire [of m n v] SetProperties_frame [OF assms(2)] that by simp
    moreover have "GetTypedProperty m2 n = GetTypedProperty (wire_msg m) n"
      using assms(1) by (intro GetTypedProperty_cong) (simp add: transported_def)
    ultimately show ?thesis by simp
  qed
  have "carries m2 counter time"
    using get [OF assms(4)] get [OF assms(5)] by (simp add: carries_def)
  from printMessage_carries [OF this] show ?thesis
    using assms(1) frame by (simp add: tock_message_def DecodeBridgeMessage_def transported_def)
qed

section \<open>The loop of the sender and the interchange file\<close>

text \<open>
  The published messages in order: the one of the \<open>i\<close>-th tick carries the counter \<open>i + 1\<close> above the
  start (modulo \<open>2 ^ 64\<close>), and is sent to the subject \<^verbatim>\<open>tick\<close>.
\<close>

lemma tick_loop_sent:
  assumes "\<And>m. \<exists>d. codec_encode c m = Inr d"
  shows "\<exists>lines sent. tick_loop c body counter ts = (lines, sent, Ok ()) \<and> length sent = length ts
    \<and> length lines = 5 * length ts
    \<and> (\<forall>i<length ts. \<exists>m d. sent ! i = (''tick'', d) \<and> Encode c m = Ok d
         \<and> tick_message body (snd (ts ! i)) (counter + of_nat (Suc i)) (fst (ts ! i)) = Ok m)"
proof (induction ts arbitrary: counter)
  case (Cons t ts)
  obtain m where m: "tick_message body (snd t) (counter + 1) (fst t) = Ok m"
    using tick_message_Ok by blast
  obtain d where d: "Encode c m = Ok d" using assms [of m] by (auto simp: Encode_def)
  note turn = tick_turn_eq [OF m, of c, unfolded prod.collapse d]
  obtain lines sent where IH: "tick_loop c body (counter + 1) ts = (lines, sent, Ok ())"
    "length sent = length ts" "length lines = 5 * length ts"
    "\<forall>i<length ts. \<exists>m d. sent ! i = (''tick'', d) \<and> Encode c m = Ok d
       \<and> tick_message body (snd (ts ! i)) (counter + 1 + of_nat (Suc i)) (fst (ts ! i)) = Ok m"
    using Cons.IH by blast
  have "\<exists>m' d'. (((''tick'', d) # sent) ! i) = (''tick'', d') \<and> Encode c m' = Ok d'
      \<and> tick_message body (snd ((t # ts) ! i)) (counter + of_nat (Suc i)) (fst ((t # ts) ! i)) = Ok m'"
    if "i < length (t # ts)" for i
    using that IH(4) m d by (cases i) (auto simp: algebra_simps)
  then show ?case using turn IH(1-3) by (simp add: Let_def)
qed simp

lemma is_float32_expected: "is_float32 (to_float32 (Fin (314 / 100)))"
  by code_simp

lemma expected_values:
  "\<forall>p\<in>set expected. tag_of (snd p) \<noteq> None \<and> wf_value (snd p) \<and> canonical (snd p) = snd p"
  "distinct (map fst expected)"
  using is_float32_expected by (simp_all add: expected_def del: to_float32.simps)

text \<open>
  The interchange file: in whatever order the runtime visits the table, the tool succeeds, and a reader
  of the file finds the body, the three header fields and all nine values with their types.
\<close>

lemma interchange_file_complete:
  assumes "set ps = set expected" "distinct (map fst ps)" "\<forall>d. WriteFile d = None"
    and "\<And>m. SetProperties interchange_message ps = Ok m \<Longrightarrow> codec_faithful c m"
  shows "\<exists>d m2. interchange_main c WriteFile ps = Ok d \<and> DecodeBridgeMessage c (Some d) = Ok m2
    \<and> msg_Body m2 = ascii ''hello world'' \<and> msg_Header m2 = msg_Header interchange_message
    \<and> (\<forall>(n, v)\<in>set expected. GetTypedProperty m2 n = Ok (v, True))"
proof -
  have can: "\<forall>p\<in>set ps. tag_of (snd p) \<noteq> None \<and> wf_value (snd p)"
    using expected_values(1) assms(1) by blast
  obtain m where m: "SetProperties interchange_message ps = Ok m"
    using wire_props.set_all_ready [OF _ can, of interchange_message]
    by (auto simp: SetProperties_set_all interchange_message_def NewBridgeMessage_def)
  obtain d m2 where m2: "codec_encode c m = Inr d" "codec_decode c d = Inr m2"
    "msg_Body m2 = msg_Body m" "msg_Header m2 = msg_Header m"
    "\<And>n. prop_lookup m2 n = prop_lookup (wire_msg m) n"
    using assms(4) [OF m] by (auto simp: codec_faithful_def)
  have "GetTypedProperty m2 n = Ok (v, True)" if nv: "(n, v) \<in> set expected" for n v
  proof -
    have "map_of (rev ps) n = Some v" using nv assms(1,2) by (simp add: rev_map [symmetric])
    moreover have "canonical v = v" using nv expected_values(1) by force
    ultimately show ?thesis
      using wire_props.get_set_all [OF m [unfolded SetProperties_set_all] can, of n] GetTypedProperty_cong [OF m2(5)]
      by simp
  qed
  then show ?thesis
    using m m2 assms(3) SetProperties_frame [OF m]
    by (auto simp: interchange_main_def Encode_def DecodeBridgeMessage_def interchange_message_def NewBridgeMessage_def)
qed

section \<open>Properties\<close>

text \<open>
  C5. The whole trip of the tick-tock example. The sender publishes a message with a body, a counter, a
  time and an identifier; a connector puts it on an MQ queue, MQ delivers it to a second connector
  (possibly of another bridge, with another codec and another order of map iteration), which publishes
  it for the receiver. Then every step succeeds, the message is put once, published once to the subject
  of the second connector and committed, and the receiver prints exactly the body, the counter, the
  time and the identifier the sender printed, even though the properties were re-encoded twice and the
  identifier was padded to the fixed length of an MQ correlation identifier.
\<close>

theorem tick_reaches_tock:
  assumes "tick_message body nuid counter time = Ok m" "transported (w_codec w1) (w_order w1) m d m2"
    and "0 \<notin> set nuid" "nuid \<noteq> []" "length nuid \<le> MQ_CORREL_ID_LENGTH (w_mqlib w1)"
    and "CrtMH (w_mqlib w1) = Inr h" "\<forall>n v. SetMP (w_mqlib w1) h n v = None"
    and "\<forall>md. w_Put w1 md h (Some body) = None"
    and "conn_inv k q1" "conn_inv k q2" "k + 1 < 2 ^ 53" "qmgrFlag q1" "qmgrFlag q2"
    and "\<forall>msg. NATSToMQMessage (w_mqlib w1) (w_codec w1) (w_order w1) (bv_replyToInfo (w_view w1)) (Some d) '''' True = Ok msg
           \<longrightarrow> delivered msg w2 dl ps"
    and "SetProperties (mq_bridge_message w2 dl) ps = Ok m'"
    and "transported (w_codec w2) ord m' d' m3"
    and "w_nats_publish w2 (cfg_Subject (bc_config q2)) '''' d' = None" "w_Cmit w2 = None"
  shows "tick_turn (w_codec w1) body counter (time, nuid) =
      ([Title ''Sending message:'', BodyLine body, CounterLine counter, TimeLine time, IdLine nuid], Ok d)
    \<and> (\<exists>msg q1'. natsCallback (w1, Some d, '''') q1 = Some (Done [Put (fst msg) h (Some body) True] q1')
         \<and> delivered msg w2 dl ps)
    \<and> (\<exists>q2'. mqCallback natsMessageHandler (w2, dl) q2 =
         Some (Done [Publish (cfg_Subject (bc_config q2)) d' True, Cmit True] q2'))
    \<and> tock_message (w_codec w2) (Some d') =
      ([Title ''Received message:'', BodyLine body, CounterLine counter, TimeLine time, IdLine nuid], Ok ())"
proof -
  have "\<forall>p\<in>set (tick_props counter time). tag_of (snd p) \<noteq> None \<and> wf_value (snd p)" by simp
  from natsCallback_transported [OF assms(2) assms(1) [unfolded tick_message_eq] this assms(6-9,11,12), of "''''"]
  obtain md sets q1' where q1: "natsCallback (w1, Some d, '''') q1 = Some (Done [Put md h (Some body) True] q1')"
    and put: "md = setReply (replyQueueOfHeader (bv_replyToInfo (w_view w1)) (tick_header nuid)
        (replyQueue (bv_replyToInfo (w_view w1)) '''')) (mapHeaderToMQMD (w_mqlib w1) (tick_header nuid))"
    and conv: "NATSToMQMessage (w_mqlib w1) (w_codec w1) (w_order w1) (bv_replyToInfo (w_view w1)) (Some d) '''' True =
        Ok (md, h, sets, Some body)"
    and sets: "distinct (map fst sets)" "map_of sets = (\<lambda>n. map_option canonical (map_of (rev (tick_props counter time)) n))"
    by (elim exE conjE)
  have msg: "delivered (md, h, sets, Some body) w2 dl ps" by (rule assms(14) [rule_format, OF conv])
  have md: "md = mapHeaderToMQMD (w_mqlib w1) (tick_header nuid)"
    by (simp add: put replyQueue_def replyQueueOfHeader_def setReply_def tick_header_def zero_header_def)
  have dl: "is_message (w2, dl)" "md_CorrelId (d_md dl) = md_CorrelId md" "md_ReplyToQ (d_md dl) = md_ReplyToQ md"
    "d_buffer dl = body" "d_handle dl \<noteq> EmptyHandle" "holds_props (w_mqlib w2) (d_handle dl) ps"
    "distinct (map fst ps)" "set ps = set sets"
    using msg by simp_all
  have props: "(''counter'', VInt64 counter) \<in> set ps" "(''time'', VString time) \<in> set ps"
    unfolding dl(8) by (rule map_of_SomeD; simp add: sets(2))+
  have reply: "replyAddress (bv_replyToInfo (w_view w2)) (Some (d_md dl)) = ('''', '''')"
    using dl(3) by (simp add: replyAddress_def md mapHeaderToMQMD_def tick_header_def zero_header_def Let_def)
  have correl: "copyByteArray (md_CorrelId (d_md dl)) = nuid"
    using correl_id_roundtrip [OF assms(3-5)] by (simp add: dl(2) md mapHeaderToMQMD_def tick_header_def Let_def)
  from mqCallback_held [OF dl(1,5,6) assms(15) _ reply assms(17,18,10,11,13)] obtain q2' where
    "mqCallback natsMessageHandler (w2, dl) q2 = Some (Done [Publish (cfg_Subject (bc_config q2)) d' True, Cmit True] q2')"
    using assms(16) by (auto simp: transported_def)
  moreover have "tock_message (w_codec w2) (Some d') = ([Title ''Received message:'', BodyLine body,
      CounterLine counter, TimeLine time, IdLine nuid], Ok ())"
    using tock_message_transported [OF assms(16) assms(15) [unfolded mq_bridge_message_def] dl(7) props] dl(4) correl
    by (simp add: mapMQMDToHeader_def)
  ultimately show ?thesis
    using tick_turn_eq [OF assms(1), of "w_codec w1"] q1 msg assms(2)
    by (intro conjI exI [of _ "(md, h, sets, Some body)"] exI [of _ q1'] exI [of _ q2'])
      (simp_all add: transported_def Encode_def)
qed

section \<open>Concrete instances\<close>

text \<open>
  Two bridges with different codecs, between them a queue that lists the two properties in the opposite
  order; the messages \<open>m\<close> and \<open>m'\<close> are those on the two NATS subjects.
\<close>

definition constant_codec :: "bytes \<Rightarrow> BridgeMessage \<Rightarrow> codec" where
  "constant_codec d m = \<lparr>codec_encode = \<lambda>_. Inr d, codec_decode = \<lambda>_. Inr (wire_msg m)\<rparr>"

lemma constant_codec_transported:
  assumes "distinct ns" "set ns = dom (prop_lookup m)"
  shows "transported (constant_codec d m) (\<lambda>_. ns) m d (wire_msg m)"
proof -
  have "dom (prop_lookup (wire_msg m)) = dom (prop_lookup m)" by (auto simp: prop_lookup_wire_msg dom_def)
  then show ?thesis using assms by (simp add: transported_def constant_codec_def) (simp add: wire_msg_def)
qed

definition tock_lib :: mqlib where
  "tock_lib = example_lib\<lparr>InqMP := \<lambda>h k. if k = 0 then Inr (''time'', VString ''Mon'')
     else if k = 1 then Inr (''counter'', VInt64 1) else Inl (MQReturn 2 2471)\<rparr>"

abbreviation tock_props :: "(string \<times> gvalue) list" where
  "tock_props \<equiv> [(''time'', VString ''Mon''), (''counter'', VInt64 1)]"

lemma tock_lib_holds: "holds_props tock_lib h tock_props"
  by (auto simp: holds_props_def tock_lib_def example_lib_def less_Suc_eq numeral_2_eq_2)

definition tick_world :: "BridgeMessage \<Rightarrow> world" where
  "tick_world m = (example_world True)\<lparr>w_codec := constant_codec [7] m, w_order := \<lambda>_. [''counter'', ''time'']\<rparr>"

definition tock_world :: "BridgeMessage \<Rightarrow> world" where
  "tock_world m = (example_world True)\<lparr>w_codec := constant_codec [8, 9] m, w_mqlib := tock_lib\<rparr>"

definition tock_delivery :: delivery where
  "tock_delivery = \<lparr>d_error = None, d_event = False, d_md = mapHeaderToMQMD example_lib (tick_header [65]),
     d_handle = 1, d_buffer = [66]\<rparr>"

lemma tock_delivered:
  assumes "distinct (map fst sets)"
    and "map_of sets = (\<lambda>n. map_option canonical (map_of (rev (tick_props 1 ''Mon'')) n))"
  shows "delivered (mapHeaderToMQMD example_lib (tick_header [65]), h, sets, Some [66]) (tock_world m) tock_delivery tock_props"
proof -
  have "map_of sets = map_of tock_props" unfolding assms(2) by auto
  then have "set tock_props = set sets" using map_of_inject_set [of tock_props sets] assms(1) by simp
  then show ?thesis
    using tock_lib_holds [of 1]
    by (simp add: tock_delivery_def tock_world_def is_message_def mqFailure_def EmptyHandle_def)
qed

lemma tock_bridge_message:
  "\<exists>m'. SetProperties (mq_bridge_message (tock_world m) tock_delivery) tock_props = Ok m'
     \<and> dom (prop_lookup m') = {''time'', ''counter''}"
  by (simp add: mq_bridge_message_def NewBridgeMessage_def SetProperty_def prop_assign_def prop_lookup_table insert_commute)

lemma mq_bridge_message_tock: "mq_bridge_message (tock_world m) dl = mq_bridge_message (tock_world m') dl"
  by (simp add: mq_bridge_message_def tock_world_def)

theorem tick_reaches_tock_witness:
  "\<exists>(w1 :: world) (w2 :: world) d d' q. tick_turn (w_codec w1) [66] 1 (''Mon'', [65]) =
      ([Title ''Sending message:'', BodyLine [66], CounterLine 1, TimeLine ''Mon'', IdLine [65]], Ok d)
    \<and> mqCallback natsMessageHandler (w2, tock_delivery) (example_conn (Some 0)) =
      Some (Done [Publish ''s'' d' True, Cmit True] q)
    \<and> tock_message (w_codec w2) (Some d') =
      ([Title ''Received message:'', BodyLine [66], CounterLine 1, TimeLine ''Mon'', IdLine [65]], Ok ())"
proof -
  obtain m where m: "tick_message [66] [65] 1 ''Mon'' = Ok m" "dom (prop_lookup m) = {''counter'', ''time''}"
    by (simp add: tick_message_eq NewBridgeMessage_def SetProperty_def prop_assign_def prop_lookup_table insert_commute)
  obtain m' where m': "SetProperties (mq_bridge_message (tock_world m') tock_delivery) tock_props = Ok m'"
    "dom (prop_lookup m') = {''time'', ''counter''}"
    using tock_bridge_message mq_bridge_message_tock by metis
  let ?w1 = "tick_world m" and ?w2 = "tock_world m'" and ?q = "example_conn (Some 0)"
  have w1: "w_mqlib ?w1 = example_lib" "bv_replyToInfo (w_view ?w1) = Map.empty" "CrtMH example_lib = Inr 2"
    "MQ_CORREL_ID_LENGTH example_lib = 24" "\<forall>n v. SetMP example_lib 2 n v = None"
    "\<forall>md. w_Put ?w1 md 2 (Some [66]) = None"
    by (simp_all add: tick_world_def example_world_def example_lib_def)
  have w2: "w_nats_publish ?w2 s r d = None" "w_Cmit ?w2 = None" for s r d
    by (simp_all add: tock_world_def example_world_def)
  have t1: "transported (w_codec ?w1) (w_order ?w1) m [7] (wire_msg m)"
    using m(2) by (simp add: tick_world_def constant_codec_transported)
  have t2: "transported (w_codec ?w2) (\<lambda>_. [''time'', ''counter'']) m' [8, 9] (wire_msg m')"
    using m'(2) by (simp add: tock_world_def constant_codec_transported)
  have q: "conn_inv 0 ?q" "qmgrFlag ?q" "cfg_Subject (bc_config ?q) = ''s''"
    using example_conn_inv by (simp_all add: qmgrFlag_def example_conn_def init_connector_def example_defs)
  have props: "\<forall>p\<in>set (tick_props 1 ''Mon''). tag_of (snd p) \<noteq> None \<and> wf_value (snd p)" by simp
  have dl: "\<forall>msg. NATSToMQMessage (w_mqlib ?w1) (w_codec ?w1) (w_order ?w1) (bv_replyToInfo (w_view ?w1)) (Some [7]) '''' True =
      Ok msg \<longrightarrow> delivered msg ?w2 tock_delivery tock_props"
    using NATSToMQMessage_transported [OF t1 m(1) [unfolded tick_message_eq] props w1(3,5), of Map.empty "''''"]
      tock_delivered [of _ 2 m']
    by (auto simp: w1 setReply_def replyQueue_def replyQueueOfHeader_def tick_header_def simp del: delivered.simps)
  have n: "(0 :: byte) \<notin> set [65]" "[65 :: byte] \<noteq> []" "length [65 :: byte] \<le> MQ_CORREL_ID_LENGTH (w_mqlib ?w1)"
    "CrtMH (w_mqlib ?w1) = Inr 2" "\<forall>n v. SetMP (w_mqlib ?w1) 2 n v = None" "0 + 1 < (2 :: nat) ^ 53"
    using w1 by simp_all
  from tick_reaches_tock [OF m(1) t1 n(1-5) w1(6) q(1,1) n(6) q(2,2) dl m'(1) t2 w2] show ?thesis
    unfolding q(3)
    by blast
qed

end
