(* ===== verification/Performance.thy ===== *)
theory Performance
  imports Pump
begin

text \<open>
  The benchmarks \<^verbatim>\<open>src/performance\<close>. The programs \<^verbatim>\<open>full\<close> and \<^verbatim>\<open>queues\<close> start one goroutine per queue
  and coordinate them with three wait groups: the clock starts when all are ready, and stops when all
  have received their messages. Their common part is a step relation over the main function, the
  goroutines and the callbacks, which the runtime interleaves. The other programs have one receiver;
  their callbacks are functions on the counter.

  The queue manager, the NATS connection and the bridge under test are not modelled: a message that was
  put can be received once, and messages of others can arrive at any time.
\<close>

section \<open>Flags\<close>

text \<open>\<^verbatim>\<open>strings.Split\<close> with a separator of one character.\<close>

fun Split :: "char \<Rightarrow> string \<Rightarrow> string list" where
  "Split sep [] = [[]]"
| "Split sep (x # xs) =
     (if x = sep then [] # Split sep xs
      else case Split sep xs of y # ys \<Rightarrow> (x # y) # ys | [] \<Rightarrow> [[x]])"

record flags =
  fl_iterations :: int
  fl_queueList :: "string list"
  fl_subjectList :: "string list option"

definition full_flags :: "int \<Rightarrow> string \<Rightarrow> string \<Rightarrow> flags" where
  "full_flags iterations queues subjects =
     \<lparr>fl_iterations = iterations, fl_queueList = Split CHR '','' queues,
      fl_subjectList = Some (Split CHR '','' subjects)\<rparr>"

definition queues_flags :: "int \<Rightarrow> string \<Rightarrow> flags" where
  "queues_flags iterations queues =
     \<lparr>fl_iterations = iterations, fl_queueList = Split CHR '','' queues, fl_subjectList = None\<rparr>"

section \<open>State\<close>

text \<open>
  A goroutine prepares its connections and its subscription, reports that it is ready, waits for the
  start and puts its messages. \<open>wk_count\<close> is the variable \<^verbatim>\<open>count\<close> of its callback, \<open>wk_pending\<close> the
  messages on their way to it.
\<close>

datatype worker_phase = Preparing | Subscribed | Starting | Putting | AllPut

record worker =
  wk_phase :: worker_phase
  wk_count :: int
  wk_sent :: int
  wk_pending :: nat

datatype exit_reason = FatalError | IndexPanic | NegativeWaitGroup

datatype main_phase = Spawning nat | AwaitReady | AwaitDone | Printed | Gone exit_reason

record bench =
  be_main :: main_phase
  be_ready :: int
  be_done :: int
  be_starter :: int
  be_workers :: "worker list"

definition bench_init :: bench where
  "bench_init = \<lparr>be_main = Spawning 0, be_ready = 0, be_done = 0, be_starter = 1, be_workers = []\<rparr>"

definition new_worker :: worker where
  "new_worker = \<lparr>wk_phase = Preparing, wk_count = 0, wk_sent = 0, wk_pending = 0\<rparr>"

definition set_worker :: "nat \<Rightarrow> worker \<Rightarrow> bench \<Rightarrow> bench" where
  "set_worker i w s = s\<lparr>be_workers := (be_workers s)[i := w]\<rparr>"

section \<open>The main function\<close>

text \<open>One turn of the loop over the queues; the program \<^verbatim>\<open>full\<close> indexes the list of subjects too.\<close>

definition spawn :: "flags \<Rightarrow> nat \<Rightarrow> bench \<Rightarrow> bench" where
  "spawn fl i s =
     (if length (fl_queueList fl) \<le> i then s\<lparr>be_main := AwaitReady\<rparr>
      else (let s = s\<lparr>be_ready := be_ready s + 1, be_done := be_done s + 1\<rparr>;
                started = s\<lparr>be_main := Spawning (i + 1), be_workers := be_workers s @ [new_worker]\<rparr>
            in case fl_subjectList fl of
                 None \<Rightarrow> started
               | Some subjectList \<Rightarrow>
                   if length subjectList \<le> i then s\<lparr>be_main := Gone IndexPanic\<rparr> else started))"

text \<open>\<^verbatim>\<open>Done\<close> of a wait group panics when the counter becomes negative.\<close>

definition ready_Done :: "bench \<Rightarrow> bench" where
  "ready_Done s = (let c = be_ready s - 1 in
     if c < 0 then s\<lparr>be_main := Gone NegativeWaitGroup\<rparr> else s\<lparr>be_ready := c\<rparr>)"

definition done_Done :: "bench \<Rightarrow> bench" where
  "done_Done s = (let c = be_done s - 1 in
     if c < 0 then s\<lparr>be_main := Gone NegativeWaitGroup\<rparr> else s\<lparr>be_done := c\<rparr>)"

definition starter_Done :: "bench \<Rightarrow> bench" where
  "starter_Done s = (let c = be_starter s - 1 in
     if c < 0 then s\<lparr>be_main := Gone NegativeWaitGroup\<rparr> else s\<lparr>be_starter := c\<rparr>)"

text \<open>What the main function does next; \<open>None\<close> when it waits or has ended.\<close>

definition main_turn :: "flags \<Rightarrow> bench \<Rightarrow> bench option" where
  "main_turn fl s =
     (case be_main s of
        Spawning i \<Rightarrow> Some (spawn fl i s)
      | AwaitReady \<Rightarrow> if be_ready s = 0 then Some (starter_Done (s\<lparr>be_main := AwaitDone\<rparr>)) else None
      | AwaitDone \<Rightarrow> if be_done s = 0 then Some (s\<lparr>be_main := Printed\<rparr>) else None
      | Printed \<Rightarrow> None
      | Gone _ \<Rightarrow> None)"

section \<open>The goroutines and their callbacks\<close>

definition worker_turn :: "int \<Rightarrow> nat \<Rightarrow> bench \<Rightarrow> bench option" where
  "worker_turn iterations i s =
     (let w = be_workers s ! i in
      case wk_phase w of
        Preparing \<Rightarrow> Some (set_worker i (w\<lparr>wk_phase := Subscribed\<rparr>) s)
      | Subscribed \<Rightarrow> Some (ready_Done (set_worker i (w\<lparr>wk_phase := Starting\<rparr>) s))
      | Starting \<Rightarrow> if be_starter s = 0 then Some (set_worker i (w\<lparr>wk_phase := Putting\<rparr>) s) else None
      | Putting \<Rightarrow>
          Some (set_worker i (if wk_sent w < iterations
                              then w\<lparr>wk_sent := wk_sent w + 1, wk_pending := wk_pending w + 1\<rparr>
                              else w\<lparr>wk_phase := AllPut\<rparr>) s)
      | AllPut \<Rightarrow> None)"

text \<open>A call of the libraries can fail, which ends the program with \<^verbatim>\<open>log.Fatalf\<close>.\<close>

definition worker_can_fail :: "int \<Rightarrow> worker \<Rightarrow> bool" where
  "worker_can_fail iterations w \<longleftrightarrow> wk_phase w = Preparing \<or> wk_phase w = Putting \<and> wk_sent w < iterations"

text \<open>The callback of the subscription.\<close>

definition receive :: "int \<Rightarrow> nat \<Rightarrow> bench \<Rightarrow> bench" where
  "receive iterations i s =
     (let w = be_workers s ! i;
          count = wk_count w + 1;
          s = set_worker i (w\<lparr>wk_count := count, wk_pending := wk_pending w - 1\<rparr>) s
      in if count = iterations then done_Done s else s)"

text \<open>
  The callback that \<^verbatim>\<open>queues\<close> registers with MQ: errors end the program, a timeout and events are
  ignored, and everything else is committed and counted.
\<close>

datatype mq_reaction = Ignored | Fatalf | Counted

definition queues_callback :: "world \<Rightarrow> delivery \<Rightarrow> mq_reaction" where
  "queues_callback w d =
     (case mqFailure w d of
        Some (cc, rc) \<Rightarrow> if rc = w_NO_MSG_AVAILABLE w then Ignored else Fatalf
      | None \<Rightarrow> if d_event d then Ignored else Counted)"

section \<open>The interleaving\<close>

definition running :: "bench \<Rightarrow> bool" where
  "running s \<longleftrightarrow> be_main s \<noteq> Printed \<and> (\<forall>r. be_main s \<noteq> Gone r)"

inductive bench_step :: "flags \<Rightarrow> bench \<Rightarrow> bench \<Rightarrow> bool" for fl where
  main: "running s \<Longrightarrow> main_turn fl s = Some s' \<Longrightarrow> bench_step fl s s'"
| work: "running s \<Longrightarrow> i < length (be_workers s) \<Longrightarrow> worker_turn (fl_iterations fl) i s = Some s' \<Longrightarrow>
    bench_step fl s s'"
| fatal: "running s \<Longrightarrow> i < length (be_workers s) \<Longrightarrow> worker_can_fail (fl_iterations fl) (be_workers s ! i) \<Longrightarrow>
    bench_step fl s (s\<lparr>be_main := Gone FatalError\<rparr>)"
| arrive: "running s \<Longrightarrow> i < length (be_workers s) \<Longrightarrow> w = be_workers s ! i \<Longrightarrow>
    bench_step fl s (set_worker i (w\<lparr>wk_pending := wk_pending w + 1\<rparr>) s)"
| deliver: "running s \<Longrightarrow> i < length (be_workers s) \<Longrightarrow> wk_phase (be_workers s ! i) \<noteq> Preparing \<Longrightarrow>
    0 < wk_pending (be_workers s ! i) \<Longrightarrow> bench_step fl s (receive (fl_iterations fl) i s)"

inductive_cases bench_stepE: "bench_step fl s s'"

abbreviation bench_run :: "flags \<Rightarrow> bench \<Rightarrow> bool" where
  "bench_run fl \<equiv> (bench_step fl)\<^sup>*\<^sup>* bench_init"

section \<open>One receiver\<close>

text \<open>
  The programs that run in the test environment have one counter. Each of their callbacks sends on the
  channel \<^verbatim>\<open>done\<close> when it reaches its target; \<open>rc_done\<close> counts these sends, \<open>rc_start\<close> is the start time.
\<close>

record receiver =
  rc_count :: int
  rc_start :: i64
  rc_done :: nat

definition full_testenv_callback :: "int \<Rightarrow> i64 \<Rightarrow> receiver \<Rightarrow> receiver" where
  "full_testenv_callback iterations now r =
     (let r = r\<lparr>rc_count := rc_count r + 1\<rparr>
      in if rc_count r = iterations then r\<lparr>rc_done := rc_done r + 1\<rparr> else r)"

definition singlequeue_callback :: "int \<Rightarrow> i64 \<Rightarrow> receiver \<Rightarrow> receiver" where
  "singlequeue_callback iterations now r =
     (let r = (if rc_count r = 0 then r\<lparr>rc_start := now\<rparr> else r);
          r = r\<lparr>rc_count := rc_count r + 1\<rparr>
      in if rc_count r = iterations + 1 then r\<lparr>rc_done := rc_done r + 1\<rparr> else r)"

text \<open>With several queues the counter is a shared \<^verbatim>\<open>uint64\<close>.\<close>

record shared_receiver =
  sr_count :: i64
  sr_start :: i64
  sr_done :: nat

definition maxCount :: "int \<Rightarrow> nat \<Rightarrow> i64" where
  "maxCount iterations queueCount = of_int (iterations * int queueCount)"

definition multiqueue_callback :: "i64 \<Rightarrow> i64 \<Rightarrow> shared_receiver \<Rightarrow> shared_receiver" where
  "multiqueue_callback limit now r =
     (let r = (if sr_count r = 0 then r\<lparr>sr_start := now\<rparr> else r);
          r = r\<lparr>sr_count := sr_count r + 1\<rparr>
      in if sr_count r = limit then r\<lparr>sr_done := sr_done r + 1\<rparr> else r)"

definition multiqueue_connect :: "(nat \<Rightarrow> string) \<Rightarrow> nat \<Rightarrow> ConnectorConfig list" where
  "multiqueue_connect Itoa queueCount =
     map (\<lambda>i. zero_ConnectorConfig\<lparr>cfg_Type := Queue2NATS, cfg_Subject := ''test.'' @ Itoa i,
            cfg_Queue := ''TEST.QUEUE.'' @ Itoa i, cfg_ExcludeHeaders := True\<rparr>) [1..<queueCount + 1]"

section \<open>Encoding and decoding\<close>

text \<open>
  The loops of \<^verbatim>\<open>encodingperf\<close>. A decoded message with another body ends the program too, but there
  \<^verbatim>\<open>err.Error()\<close> is called on a nil error.
\<close>

fun encode_loop :: "codec \<Rightarrow> BridgeMessage \<Rightarrow> nat \<Rightarrow> unit outcome" where
  "encode_loop c msg 0 = Ok ()"
| "encode_loop c msg (Suc n) = outcome_bind (Encode c msg) (\<lambda>_. encode_loop c msg n)"

fun decode_loop :: "codec \<Rightarrow> bytes \<Rightarrow> bytes \<Rightarrow> nat \<Rightarrow> unit outcome" where
  "decode_loop c body d 0 = Ok ()"
| "decode_loop c body d (Suc n) =
     (case DecodeBridgeMessage c (Some d) of
        Err e \<Rightarrow> Err e
      | Panic \<Rightarrow> Panic
      | Ok decoded \<Rightarrow> if msg_Body decoded \<noteq> body then Panic else decode_loop c body d n)"

definition encodingperf :: "codec \<Rightarrow> int \<Rightarrow> unit outcome" where
  "encodingperf c iterations =
     (let body = [104, 101, 108, 108, 111] in
      outcome_bind (prop_step (NewBridgeMessage body) (OpSet ''one'' (VInt32 249))) (\<lambda>msg.
      outcome_bind (Encode c msg) (\<lambda>toDecode.
      outcome_bind (encode_loop c msg (nat iterations)) (\<lambda>_.
      decode_loop c body toDecode (nat iterations)))))"

section \<open>The invariant\<close>

definition unready :: "worker \<Rightarrow> bool" where
  "unready w \<longleftrightarrow> wk_phase w = Preparing \<or> wk_phase w = Subscribed"

definition missing :: "int \<Rightarrow> worker \<Rightarrow> bool" where
  "missing it w \<longleftrightarrow> wk_count w < it \<or> it < 1"

definition worker_inv :: "int \<Rightarrow> int \<Rightarrow> worker \<Rightarrow> bool" where
  "worker_inv it st w \<longleftrightarrow> 0 \<le> wk_count w \<and> wk_sent w \<le> wk_count w + int (wk_pending w) \<and> 0 \<le> wk_sent w
     \<and> (wk_phase w = Putting \<or> wk_phase w = AllPut \<or> wk_sent w = 0)
     \<and> (wk_phase w = AllPut \<longrightarrow> it \<le> wk_sent w)
     \<and> (wk_phase w = Putting \<or> wk_phase w = AllPut \<longrightarrow> st = 0)"

text \<open>While the program runs the wait groups count what they are meant to count.\<close>

definition groups_inv :: "flags \<Rightarrow> bench \<Rightarrow> bool" where
  "groups_inv fl s \<longleftrightarrow>
     be_ready s = int (count unready (be_workers s))
     \<and> be_done s = int (count (missing (fl_iterations fl)) (be_workers s))
     \<and> be_starter s = (if be_main s = AwaitDone \<or> be_main s = Printed then 0 else 1)
     \<and> (be_starter s = 0 \<longrightarrow> be_ready s = 0)
     \<and> (\<forall>w\<in>set (be_workers s). worker_inv (fl_iterations fl) (be_starter s) w)"

definition bench_inv :: "flags \<Rightarrow> bench \<Rightarrow> bool" where
  "bench_inv fl s \<longleftrightarrow>
     (case be_main s of
        Spawning i \<Rightarrow> groups_inv fl s \<and> length (be_workers s) = i \<and> i \<le> length (fl_queueList fl)
      | Gone FatalError \<Rightarrow> True
      | Gone IndexPanic \<Rightarrow> \<exists>ss. fl_subjectList fl = Some ss \<and> length ss < length (fl_queueList fl)
      | Gone NegativeWaitGroup \<Rightarrow> False
      | Printed \<Rightarrow> groups_inv fl s \<and> length (be_workers s) = length (fl_queueList fl) \<and> be_done s = 0
      | _ \<Rightarrow> groups_inv fl s \<and> length (be_workers s) = length (fl_queueList fl))"

lemma count_update:
  "i < length xs \<Longrightarrow> int (count P (xs[i := y])) =
     int (count P xs) - (if P (xs ! i) then 1 else 0) + (if P y then 1 else 0)"
proof (induction xs arbitrary: i)
  case (Cons x xs)
  then show ?case by (cases i) auto
qed simp

lemma count_eq_0_iff: "count P xs = 0 \<longleftrightarrow> (\<forall>x\<in>set xs. \<not> P x)"
  by (simp add: count_def filter_empty_conv)

lemma count_pos: "i < length xs \<Longrightarrow> P (xs ! i) \<Longrightarrow> 0 < count P xs"
  using count_eq_0_iff [of P xs] by (metis gr0I nth_mem)

lemma running_inv:
  "running s \<Longrightarrow> bench_inv fl s \<Longrightarrow> groups_inv fl s"
  by (auto simp: running_def bench_inv_def split: main_phase.splits)

lemma bench_inv_cong:
  assumes "be_main s' = be_main s" "length (be_workers s') = length (be_workers s)" "running s"
    "bench_inv fl s" "groups_inv fl s'"
  shows "bench_inv fl s'"
  using assms by (auto simp: bench_inv_def running_def split: main_phase.splits)

text \<open>A change of one goroutine that agrees with the wait groups.\<close>

lemma groups_inv_set_worker:
  assumes "groups_inv fl s" "i < length (be_workers s)" "worker_inv (fl_iterations fl) (be_starter s) w"
    and "be_starter s = 0 \<longrightarrow> \<not> unready w"
    and "r = be_ready s - (if unready (be_workers s ! i) then 1 else 0) + (if unready w then 1 else 0)"
    and "d = be_done s - (if missing (fl_iterations fl) (be_workers s ! i) then 1 else 0)
           + (if missing (fl_iterations fl) w then 1 else 0)"
  shows "groups_inv fl (s\<lparr>be_workers := (be_workers s)[i := w], be_ready := r, be_done := d\<rparr>)"
proof -
  have "be_starter s = 0 \<longrightarrow> \<not> unready (be_workers s ! i)"
    using assms(1,2) count_pos [of i "be_workers s" unready] by (auto simp: groups_inv_def)
  then show ?thesis
    using assms by (auto simp: groups_inv_def count_update dest!: set_update_subset_insert [THEN subsetD])
qed

lemma spawn_inv:
  assumes "bench_inv fl s" "be_main s = Spawning i"
  shows "bench_inv fl (spawn fl i s)"
  using assms
  by (auto simp: bench_inv_def groups_inv_def spawn_def Let_def unready_def missing_def new_worker_def worker_inv_def
      split: option.splits)

lemma main_turn_inv:
  assumes "bench_inv fl s" "main_turn fl s = Some s'"
  shows "bench_inv fl s'"
  using assms spawn_inv [OF assms(1)]
  by (auto simp: main_turn_def starter_Done_def Let_def bench_inv_def groups_inv_def worker_inv_def
      split: main_phase.splits if_splits)

lemma bench_inv_worker:
  assumes "bench_inv fl s" "running s" "i < length (be_workers s)" "worker_inv (fl_iterations fl) (be_starter s) w"
    and "be_starter s = 0 \<longrightarrow> \<not> unready w"
    and "r = be_ready s - (if unready (be_workers s ! i) then 1 else 0) + (if unready w then 1 else 0)"
    and "d = be_done s - (if missing (fl_iterations fl) (be_workers s ! i) then 1 else 0)
           + (if missing (fl_iterations fl) w then 1 else 0)"
    and "s' = s\<lparr>be_workers := (be_workers s)[i := w], be_ready := r, be_done := d\<rparr>"
  shows "bench_inv fl s'"
  using bench_inv_cong [OF _ _ assms(2,1)] groups_inv_set_worker [OF running_inv [OF assms(2,1)] assms(3-7)]
  by (simp add: assms(8))

lemma worker_facts:
  assumes "bench_inv fl s" "running s" "i < length (be_workers s)"
  shows "worker_inv (fl_iterations fl) (be_starter s) (be_workers s ! i)"
    "be_starter s = 0 \<longrightarrow> \<not> unready (be_workers s ! i)"
    "unready (be_workers s ! i) \<longrightarrow> 0 < be_ready s"
    "missing (fl_iterations fl) (be_workers s ! i) \<longrightarrow> 0 < be_done s"
  using running_inv [OF assms(2,1)] assms(3) count_pos [of i "be_workers s" unready]
    count_pos [of i "be_workers s" "missing (fl_iterations fl)"]
  by (auto simp: groups_inv_def)

lemma worker_turn_inv:
  assumes "bench_inv fl s" "running s" "i < length (be_workers s)" "worker_turn (fl_iterations fl) i s = Some s'"
  shows "bench_inv fl s'"
proof -
  let ?w = "be_workers s ! i"
  note facts = worker_facts [OF assms(1-3)]
  show ?thesis
  proof (cases "wk_phase ?w")
    case Preparing
    then show ?thesis
      using assms(4) facts
      by (intro bench_inv_worker [OF assms(1-3), of "?w\<lparr>wk_phase := Subscribed\<rparr>"])
        (auto simp: worker_turn_def set_worker_def worker_inv_def unready_def missing_def Let_def)
  next
    case Subscribed
    then show ?thesis
      using assms(4) facts
      by (intro bench_inv_worker [OF assms(1-3), of "?w\<lparr>wk_phase := Starting\<rparr>"])
        (auto simp: worker_turn_def ready_Done_def set_worker_def worker_inv_def unready_def missing_def Let_def)
  next
    case Starting
    then show ?thesis
      using assms(4) facts
      by (intro bench_inv_worker [OF assms(1-3), of "?w\<lparr>wk_phase := Putting\<rparr>"])
        (auto simp: worker_turn_def set_worker_def worker_inv_def unready_def missing_def Let_def split: if_splits)
  next
    case Putting
    then show ?thesis
      using assms(4) facts
      by (intro bench_inv_worker [OF assms(1-3), of "if wk_sent ?w < fl_iterations fl
            then ?w\<lparr>wk_sent := wk_sent ?w + 1, wk_pending := wk_pending ?w + 1\<rparr> else ?w\<lparr>wk_phase := AllPut\<rparr>"])
        (auto simp: worker_turn_def set_worker_def worker_inv_def unready_def missing_def Let_def)
  next
    case AllPut
    then show ?thesis using assms(4) by (simp add: worker_turn_def)
  qed
qed

lemma receive_inv:
  assumes "bench_inv fl s" "running s" "i < length (be_workers s)" "0 < wk_pending (be_workers s ! i)"
  shows "bench_inv fl (receive (fl_iterations fl) i s)"
proof -
  let ?w = "be_workers s ! i"
  let ?w' = "?w\<lparr>wk_count := wk_count ?w + 1, wk_pending := wk_pending ?w - 1\<rparr>"
  note facts = worker_facts [OF assms(1-3)]
  have w': "worker_inv (fl_iterations fl) (be_starter s) ?w'" "be_starter s = 0 \<longrightarrow> \<not> unready ?w'" "unready ?w' = unready ?w"
    using facts(1,2) assms(4) by (auto simp: worker_inv_def unready_def)
  have m: "(if missing (fl_iterations fl) ?w then 1 else 0) - (if missing (fl_iterations fl) ?w' then 1 else 0) =
      (if wk_count ?w + 1 = fl_iterations fl then 1 else 0 :: int)"
    using facts(1) by (auto simp: missing_def worker_inv_def)
  have "wk_count ?w + 1 = fl_iterations fl \<longrightarrow> 0 < be_done s" using facts(4) m by (auto split: if_splits)
  then have "receive (fl_iterations fl) i s = s\<lparr>be_workers := (be_workers s)[i := ?w'], be_ready := be_ready s,
      be_done := be_done s - (if wk_count ?w + 1 = fl_iterations fl then 1 else 0)\<rparr>"
    by (auto simp: receive_def done_Done_def set_worker_def Let_def)
  then show ?thesis
    by (intro bench_inv_worker [OF assms(1-3) w'(1,2)]) (use m w'(3) in auto)
qed

lemma bench_step_inv: "bench_step fl s s' \<Longrightarrow> bench_inv fl s \<Longrightarrow> bench_inv fl s'"
proof (induction rule: bench_step.induct)
  case (arrive s i w)
  then show ?case
    using worker_facts [OF arrive(4,1,2)]
    by (intro bench_inv_worker [OF arrive(4,1,2), of "w\<lparr>wk_pending := wk_pending w + 1\<rparr>"])
      (auto simp: set_worker_def worker_inv_def unready_def missing_def)
next
  case (fatal s i)
  then show ?case by (simp add: bench_inv_def)
qed (auto intro: main_turn_inv worker_turn_inv receive_inv)

lemma bench_run_inv: "bench_run fl s \<Longrightarrow> bench_inv fl s"
proof (induction rule: rtranclp_induct)
  case base
  show ?case by (simp add: bench_init_def bench_inv_def groups_inv_def)
qed (rule bench_step_inv)

section \<open>Progress\<close>

text \<open>The work that is left: for the main function, and for a goroutine and its callback.\<close>

fun phase_work :: "worker_phase \<Rightarrow> nat" where
  "phase_work Preparing = 4"
| "phase_work Subscribed = 3"
| "phase_work Starting = 2"
| "phase_work Putting = 1"
| "phase_work AllPut = 0"

definition worker_work :: "int \<Rightarrow> worker \<Rightarrow> nat" where
  "worker_work it w = phase_work (wk_phase w) + nat (it - wk_sent w) + nat (it - wk_count w)"

definition main_work :: "flags \<Rightarrow> main_phase \<Rightarrow> nat" where
  "main_work fl p =
     (case p of
        Spawning i \<Rightarrow> 3 + (length (fl_queueList fl) - i) * (5 + 2 * nat (fl_iterations fl))
      | AwaitReady \<Rightarrow> 2
      | AwaitDone \<Rightarrow> 1
      | _ \<Rightarrow> 0)"

definition work :: "flags \<Rightarrow> bench \<Rightarrow> nat" where
  "work fl s = main_work fl (be_main s) + sum_list (map (worker_work (fl_iterations fl)) (be_workers s))"

definition enough_subjects :: "flags \<Rightarrow> bool" where
  "enough_subjects fl \<longleftrightarrow> (\<forall>ss. fl_subjectList fl = Some ss \<longrightarrow> length (fl_queueList fl) \<le> length ss)"

lemma work_set_worker:
  assumes "i < length (be_workers s)" "worker_work (fl_iterations fl) w < worker_work (fl_iterations fl) (be_workers s ! i)"
    "be_workers s' = (be_workers s)[i := w]" "be_main s' = be_main s"
  shows "work fl s' < work fl s"
proof -
  let ?f = "worker_work (fl_iterations fl)"
  have "?f (be_workers s ! i) \<le> sum_list (map ?f (be_workers s))"
    using assms(1) by (intro member_le_sum_list) simp_all
  moreover have "sum_list (map ?f ((be_workers s)[i := w])) = sum_list (map ?f (be_workers s)) + ?f w - ?f (be_workers s ! i)"
    using assms(1) by (simp add: map_update sum_list_update)
  ultimately show ?thesis using assms(2-4) by (simp add: work_def)
qed

lemma spawn_progress:
  assumes "bench_inv fl s" "be_main s = Spawning i" "enough_subjects fl"
  shows "work fl (spawn fl i s) < work fl s \<and> (\<forall>r. be_main (spawn fl i s) \<noteq> Gone r)"
proof (cases "length (fl_queueList fl) \<le> i")
  case False
  then obtain k where k: "length (fl_queueList fl) = Suc (i + k)" using less_imp_Suc_add by force
  show ?thesis
    using False assms(2,3)
    by (auto simp: spawn_def work_def main_work_def Let_def new_worker_def worker_work_def enough_subjects_def k
        split: option.split)
qed (use assms(2) in \<open>simp add: spawn_def work_def main_work_def\<close>)

text \<open>A goroutine that has to do something to let the main function go on can do it.\<close>

lemma unready_progress:
  assumes "bench_inv fl s" "running s" "i < length (be_workers s)" "unready (be_workers s ! i)"
  shows "\<exists>s'. bench_step fl s s' \<and> work fl s' < work fl s \<and> be_main s' = be_main s"
proof -
  let ?w = "be_workers s ! i"
  have ready: "0 < be_ready s" using worker_facts(3) [OF assms(1-3)] assms(4) by simp
  define s' where "s' = (if wk_phase ?w = Preparing then set_worker i (?w\<lparr>wk_phase := Subscribed\<rparr>) s
    else ready_Done (set_worker i (?w\<lparr>wk_phase := Starting\<rparr>) s))"
  have "worker_turn (fl_iterations fl) i s = Some s'"
    using assms(4) by (auto simp: worker_turn_def s'_def unready_def)
  then have "bench_step fl s s'" by (rule bench_step.work [OF assms(2,3)])
  moreover have "work fl s' < work fl s \<and> be_main s' = be_main s"
    using assms(3,4) ready
    by (intro conjI work_set_worker [of i, where w = "?w\<lparr>wk_phase := if wk_phase ?w = Preparing then Subscribed else Starting\<rparr>"])
      (auto simp: s'_def set_worker_def ready_Done_def Let_def unready_def worker_work_def)
  ultimately show ?thesis by blast
qed

lemma receive_progress:
  assumes "bench_inv fl s" "running s" "i < length (be_workers s)" "\<not> unready (be_workers s ! i)"
    "0 < wk_pending (be_workers s ! i)" "wk_count (be_workers s ! i) < fl_iterations fl"
  shows "\<exists>s'. bench_step fl s s' \<and> work fl s' < work fl s \<and> be_main s' = be_main s"
proof -
  let ?w = "be_workers s ! i" and ?s' = "receive (fl_iterations fl) i s"
  have "0 < be_done s" using worker_facts(4) [OF assms(1-3)] assms(6) by (simp add: missing_def)
  then have s': "be_main ?s' = be_main s"
    "be_workers ?s' = (be_workers s)[i := ?w\<lparr>wk_count := wk_count ?w + 1, wk_pending := wk_pending ?w - 1\<rparr>]"
    by (auto simp: receive_def done_Done_def set_worker_def Let_def)
  have "work fl ?s' < work fl s"
    by (rule work_set_worker [OF assms(3) _ s'(2,1)]) (use assms(6) in \<open>simp add: worker_work_def\<close>)
  moreover have "bench_step fl s ?s'"
    using assms(4) by (intro bench_step.deliver [OF assms(2,3) _ assms(5)]) (auto simp: unready_def)
  ultimately show ?thesis using s'(1) by blast
qed

lemma put_progress:
  assumes "bench_inv fl s" "running s" "i < length (be_workers s)" "be_starter s = 0"
    "wk_pending (be_workers s ! i) = 0" "wk_count (be_workers s ! i) < fl_iterations fl"
  shows "\<exists>s'. bench_step fl s s' \<and> work fl s' < work fl s \<and> be_main s' = be_main s"
proof -
  let ?w = "be_workers s ! i"
  note facts = worker_facts(1,2) [OF assms(1-3)]
  have phase: "wk_phase ?w = Starting \<or> wk_phase ?w = Putting \<and> wk_sent ?w < fl_iterations fl"
    using facts assms(4-6) by (cases "wk_phase ?w") (auto simp: worker_inv_def unready_def)
  define w where "w = (if wk_phase ?w = Starting then ?w\<lparr>wk_phase := Putting\<rparr>
    else ?w\<lparr>wk_sent := wk_sent ?w + 1, wk_pending := wk_pending ?w + 1\<rparr>)"
  have "worker_turn (fl_iterations fl) i s = Some (set_worker i w s)"
    using phase assms(4) by (auto simp: worker_turn_def w_def Let_def)
  then have "bench_step fl s (set_worker i w s)" by (rule bench_step.work [OF assms(2,3)])
  moreover have "work fl (set_worker i w s) < work fl s"
    using phase assms(3) by (intro work_set_worker [of i, where w = w]) (auto simp: w_def set_worker_def worker_work_def)
  ultimately show ?thesis by (auto simp: set_worker_def)
qed

lemma main_progress:
  assumes "running s" "main_turn fl s = Some s'" "work fl s' < work fl s" "\<forall>r. be_main s' \<noteq> Gone r"
  shows "\<exists>s'. bench_step fl s s' \<and> work fl s' < work fl s \<and> (\<forall>r. be_main s' \<noteq> Gone r)"
  using assms bench_step.main by blast

lemma bench_progress:
  assumes "bench_inv fl s" "running s" "enough_subjects fl" "1 \<le> fl_iterations fl"
  shows "\<exists>s'. bench_step fl s s' \<and> work fl s' < work fl s \<and> (\<forall>r. be_main s' \<noteq> Gone r)"
proof (cases "be_main s")
  case (Spawning i)
  then show ?thesis
    using spawn_progress [OF assms(1) Spawning assms(3)] by (intro main_progress [OF assms(2)]) (auto simp: main_turn_def)
next
  case AwaitReady
  have g: "groups_inv fl s" by (rule running_inv [OF assms(2,1)])
  show ?thesis
  proof (cases "be_ready s = 0")
    case True
    then show ?thesis
      using AwaitReady g
      by (intro main_progress [OF assms(2), of fl "starter_Done (s\<lparr>be_main := AwaitDone\<rparr>)"])
        (auto simp: main_turn_def starter_Done_def groups_inv_def work_def main_work_def Let_def)
  next
    case False
    then obtain i where "i < length (be_workers s)" "unready (be_workers s ! i)"
      using g by (auto simp: groups_inv_def count_eq_0_iff in_set_conv_nth)
    from unready_progress [OF assms(1,2) this] show ?thesis using AwaitReady by auto
  qed
next
  case AwaitDone
  have g: "groups_inv fl s" by (rule running_inv [OF assms(2,1)])
  show ?thesis
  proof (cases "be_done s = 0")
    case True
    then show ?thesis
      using AwaitDone
      by (intro main_progress [OF assms(2), of fl "s\<lparr>be_main := Printed\<rparr>"]) (auto simp: main_turn_def work_def main_work_def)
  next
    case False
    then obtain i where i: "i < length (be_workers s)" "missing (fl_iterations fl) (be_workers s ! i)"
      using g by (auto simp: groups_inv_def count_eq_0_iff in_set_conv_nth)
    have st: "be_starter s = 0" using g AwaitDone by (simp add: groups_inv_def)
    have few: "wk_count (be_workers s ! i) < fl_iterations fl" using i(2) assms(4) by (simp add: missing_def)
    show ?thesis
      using receive_progress [OF assms(1,2) i(1)] put_progress [OF assms(1,2) i(1) st] few
        worker_facts(2) [OF assms(1,2) i(1)] st AwaitDone
      by (cases "wk_pending (be_workers s ! i) = 0") auto
  qed
qed (use assms(2) in \<open>simp_all add: running_def\<close>)

lemma bench_finishes:
  assumes "bench_inv fl s" "\<forall>r. be_main s \<noteq> Gone r" "enough_subjects fl" "1 \<le> fl_iterations fl"
  shows "\<exists>s'. (bench_step fl)\<^sup>*\<^sup>* s s' \<and> be_main s' = Printed"
  using assms(1,2)
proof (induction "work fl s" arbitrary: s rule: less_induct)
  case less
  show ?case
  proof (cases "be_main s = Printed")
    case False
    then have "running s" using less.prems by (simp add: running_def)
    then obtain s1 where s1: "bench_step fl s s1" "work fl s1 < work fl s" "\<forall>r. be_main s1 \<noteq> Gone r"
      using bench_progress [OF less.prems(1) _ assms(3,4)] by blast
    have "bench_inv fl s1" by (rule bench_step_inv [OF s1(1) less.prems(1)])
    from less.hyps [OF s1(2) this s1(3)] show ?thesis using s1(1) by (meson converse_rtranclp_into_rtranclp)
  qed blast
qed

section \<open>Receivers\<close>

text \<open>
  What the three callbacks share, for counters of any width: each call counts one message, and signals
  when the counter meets the target.
\<close>

locale counting =
  fixes callback :: "'t \<Rightarrow> 'r \<Rightarrow> 'r" and counter :: "'r \<Rightarrow> 'n :: comm_ring_1" and signals :: "'r \<Rightarrow> nat" and target :: 'n
  assumes counts: "counter (callback t r) = counter r + 1"
    and signal: "signals (callback t r) = signals r + (if counter r + 1 = target then 1 else 0)"
begin

lemma counter_fold: "counter (fold callback ts r) = counter r + of_nat (length ts)"
  by (induction ts arbitrary: r) (simp_all add: counts)

lemma signals_fold:
  "signals (fold callback ts r) =
     signals r + card {k \<in> {1..length ts}. counter r + of_nat k = target}"
proof (induction ts rule: rev_induct)
  case (snoc t ts)
  have "{k \<in> {1..length (ts @ [t])}. counter r + of_nat k = target} =
      {k \<in> {1..length ts}. counter r + of_nat k = target} \<union>
      (if counter r + of_nat (Suc (length ts)) = target then {Suc (length ts)} else {})"
    by (auto simp: le_Suc_eq)
  then show ?case using snoc by (simp add: signal counter_fold add.assoc add.commute [of 1] card_insert_if)
qed simp

end

interpretation full_receiver: counting "full_testenv_callback it" rc_count rc_done it for it
  by unfold_locales (auto simp: full_testenv_callback_def Let_def)

interpretation single_receiver: counting "singlequeue_callback it" rc_count rc_done "it + 1" for it
  by unfold_locales (auto simp: singlequeue_callback_def Let_def)

interpretation multi_receiver: counting "multiqueue_callback limit" sr_count sr_done limit for limit
  by unfold_locales (auto simp: multiqueue_callback_def Let_def)

text \<open>Each program is told once that it is done, and not before all its messages are there.\<close>

lemma card_meets: "card {k \<in> {1..n}. int k = t} = (if 1 \<le> t \<and> t \<le> int n then 1 else 0)"
proof (cases "1 \<le> t \<and> t \<le> int n")
  case True
  then have "{k \<in> {1..n}. int k = t} = {nat t}" by auto
  then show ?thesis using True by simp
qed (auto intro!: card_eq_0_iff [THEN iffD2])

lemma receivers_done_once:
  assumes "length ts < 2 ^ 64" "0 \<le> it * int q" "it * int q < 2 ^ 64"
  shows "rc_done (fold (full_testenv_callback it) ts \<lparr>rc_count = 0, rc_start = t0, rc_done = 0\<rparr>) =
      (if 1 \<le> it \<and> it \<le> int (length ts) then 1 else 0)"
    and "rc_done (fold (singlequeue_callback it) ts \<lparr>rc_count = 0, rc_start = t0, rc_done = 0\<rparr>) =
      (if 1 \<le> it + 1 \<and> it + 1 \<le> int (length ts) then 1 else 0)"
    and "sr_done (fold (multiqueue_callback (maxCount it q)) ts \<lparr>sr_count = 0, sr_start = t0, sr_done = 0\<rparr>) =
      (if 1 \<le> it * int q \<and> it * int q \<le> int (length ts) then 1 else 0)"
proof -
  have "(of_nat k = maxCount it q) = (int k = it * int q)" if "k \<le> length ts" for k
  proof -
    have "k < 2 ^ 64" using that assms(1) by simp
    then have "int k < 2 ^ 64" by (metis of_nat_less_iff of_nat_numeral of_nat_power)
    then show ?thesis
      using assms(2,3) word_of_int_inj [where 'a = 64, of "int k" "it * int q"] by (simp add: maxCount_def)
  qed
  then have "{k \<in> {1..length ts}. of_nat k = maxCount it q} = {k \<in> {1..length ts}. int k = it * int q}" by auto
  then show "sr_done (fold (multiqueue_callback (maxCount it q)) ts \<lparr>sr_count = 0, sr_start = t0, sr_done = 0\<rparr>) =
      (if 1 \<le> it * int q \<and> it * int q \<le> int (length ts) then 1 else 0)"
    using card_meets [of "length ts" "it * int q"] by (simp add: multi_receiver.signals_fold)
  show "rc_done (fold (full_testenv_callback it) ts \<lparr>rc_count = 0, rc_start = t0, rc_done = 0\<rparr>) =
      (if 1 \<le> it \<and> it \<le> int (length ts) then 1 else 0)"
    using card_meets [of "length ts" it] by (simp add: full_receiver.signals_fold)
  show "rc_done (fold (singlequeue_callback it) ts \<lparr>rc_count = 0, rc_start = t0, rc_done = 0\<rparr>) =
      (if 1 \<le> it + 1 \<and> it + 1 \<le> int (length ts) then 1 else 0)"
    using card_meets [of "length ts" "it + 1"] by (simp add: single_receiver.signals_fold)
qed

lemma encodingperf_ok:
  assumes "\<And>m. SetProperty (NewBridgeMessage [104, 101, 108, 108, 111]) ''one'' (VInt32 249) = Ok m \<Longrightarrow> codec_faithful c m"
  shows "encodingperf c iterations = Ok ()"
proof -
  obtain m where m: "SetProperty (NewBridgeMessage [104, 101, 108, 108, 111]) ''one'' (VInt32 249) = Ok m"
    "msg_Body m = [104, 101, 108, 108, 111]"
    by (simp add: SetProperty_def prop_assign_def NewBridgeMessage_def)
  obtain d m2 where c: "Encode c m = Ok d" "DecodeBridgeMessage c (Some d) = Ok m2" "msg_Body m2 = msg_Body m"
    using assms [OF m(1)] by (auto simp: codec_faithful_def Encode_def DecodeBridgeMessage_def)
  have "encode_loop c m n = Ok ()" for n by (induction n) (simp_all add: c(1))
  moreover have "decode_loop c (msg_Body m) d n = Ok ()" for n by (induction n) (simp_all add: c(2,3))
  ultimately show ?thesis using m c(1) by (simp add: encodingperf_def Let_def)
qed

lemma Split_nonempty: "Split sep s \<noteq> []"
  by (induction s) (auto split: list.split)

lemma groups_inv_not_gone: "bench_inv fl s \<Longrightarrow> \<forall>r. be_main s \<noteq> Gone r \<Longrightarrow> groups_inv fl s"
  by (auto simp: bench_inv_def split: main_phase.splits)

lemma sent_after_ready:
  assumes "bench_inv fl s" "\<forall>r. be_main s \<noteq> Gone r" "w \<in> set (be_workers s)" "0 < wk_sent w"
  shows "length (be_workers s) = length (fl_queueList fl) \<and> (\<forall>v\<in>set (be_workers s). \<not> unready v)"
proof -
  have g: "groups_inv fl s" by (rule groups_inv_not_gone [OF assms(1,2)])
  then have "worker_inv (fl_iterations fl) (be_starter s) w" using assms(3) unfolding groups_inv_def by blast
  then have "be_starter s = 0" using assms(4) by (auto simp: worker_inv_def)
  then have "be_main s = AwaitDone \<or> be_main s = Printed" "be_ready s = 0"
    using g by (auto simp: groups_inv_def split: if_splits)
  then show ?thesis using assms(1) g by (auto simp: bench_inv_def groups_inv_def count_eq_0_iff)
qed

lemma printed_all_received:
  assumes "bench_inv fl s" "be_main s = Printed"
  shows "length (be_workers s) = length (fl_queueList fl) \<and> (\<forall>w\<in>set (be_workers s). fl_iterations fl \<le> wk_count w)
    \<and> (1 \<le> fl_iterations fl \<or> fl_queueList fl = [])"
proof -
  have "\<forall>w\<in>set (be_workers s). \<not> missing (fl_iterations fl) w" "length (be_workers s) = length (fl_queueList fl)"
    using assms by (auto simp: bench_inv_def groups_inv_def count_eq_0_iff)
  then show ?thesis by (cases "be_workers s") (auto simp: missing_def)
qed

section \<open>Properties\<close>



end
