(* ===== verification/Bridge_State.thy ===== *)
theory Bridge_State
  imports Connectors
begin

text \<open>
  The state of the bridge server (\<^verbatim>\<open>BridgeServer\<close> in \<^verbatim>\<open>src/nats-mq/core/bridge.go\<close>), the questions the
  connectors ask it, and the creation of connectors (\<^verbatim>\<open>CreateConnector\<close> in \<^verbatim>\<open>connector.go\<close>) with the
  table of reply addresses.

  A connector is an object that both the list \<open>connectors\<close> and the map \<open>reconnect\<close> refer to; the
  model keeps the objects in the list, and a reference is a position in it. The NATS connection is
  nil or an object that is connected or not (\<^verbatim>\<open>ConnectedUrl() != ""\<close>); the streaming connection is
  nil or not. A reconnect timer is a number; \<open>br_timers\<close> are the timers whose goroutine is waiting,
  oldest first, and \<open>br_nextTimer\<close> the number of the next one.
\<close>

section \<open>State\<close>

record BridgeServer =
  br_running :: bool
  br_startTime :: int
  br_config :: BridgeConfig
  br_nats :: "bool option"
  br_stan :: bool
  br_connectors :: "Connector list"
  br_replyToInfo :: replyToInfo
  br_reconnect :: "string \<rightharpoonup> nat"
  br_reconnectTimer :: "nat option"
  br_httpReqStats :: "(string \<rightharpoonup> i64) option"
  br_httpHandler :: bool
  br_monitoringServer :: bool
  br_httpListener :: bool
  br_monitoringURL :: string
  br_timers :: "nat list"
  br_nextTimer :: nat

definition zero_BridgeConfig :: BridgeConfig where
  "zero_BridgeConfig =
     \<lparr>cfg_ReconnectInterval = 0,
      cfg_NATS = \<lparr>nats_Servers = [], nats_ConnectTimeout = 0, nats_ReconnectWait = 0,
        nats_MaxReconnects = 0, nats_TLS = zero_TLSConf, nats_Username = '''',
        nats_Password = '''', nats_CredsFile = ''''\<rparr>,
      cfg_STAN = \<lparr>stan_ClusterID = '''', stan_ClientID = '''', stan_PubAckWait = 0,
        stan_DiscoverPrefix = '''', stan_MaxPubAcksInflight = 0, stan_ConnectWait = 0\<rparr>,
      cfg_Logging = \<lparr>log_Time = False, log_Debug = False, log_Trace = False, log_Colors = False,
        log_PID = False\<rparr>,
      cfg_Monitoring = \<lparr>mon_HTTPHost = '''', mon_HTTPPort = 0, mon_HTTPSPort = 0,
        mon_TLS = zero_TLSConf\<rparr>,
      cfg_Connect = []\<rparr>"

text \<open>The logger is not part of the model.\<close>

definition NewBridgeServer :: BridgeServer where
  "NewBridgeServer = \<lparr>br_running = False, br_startTime = 0, br_config = zero_BridgeConfig, br_nats = None,
     br_stan = False, br_connectors = [], br_replyToInfo = Map.empty, br_reconnect = Map.empty,
     br_reconnectTimer = None, br_httpReqStats = None, br_httpHandler = False,
     br_monitoringServer = False, br_httpListener = False, br_monitoringURL = '''',
     br_timers = [], br_nextTimer = 0\<rparr>"

definition LoadConfig :: "BridgeConfig \<Rightarrow> BridgeServer \<Rightarrow> BridgeServer" where
  "LoadConfig config bridge = bridge\<lparr>br_config := config\<rparr>"

section \<open>Questions of the connectors\<close>

definition CheckNATS :: "BridgeServer \<Rightarrow> bool" where
  "CheckNATS bridge = (case br_nats bridge of Some up \<Rightarrow> up | None \<Rightarrow> False)"

definition CheckStan :: "BridgeServer \<Rightarrow> bool" where
  "CheckStan bridge =
     (case br_nats bridge of
        Some up \<Rightarrow> if \<not> up then False else br_stan bridge
      | None \<Rightarrow> br_stan bridge)"

definition view_of :: "BridgeServer \<Rightarrow> bridge_view" where
  "view_of bridge = \<lparr>bv_CheckNATS = CheckNATS bridge, bv_CheckStan = CheckStan bridge,
     bv_Stan = br_stan bridge, bv_replyToInfo = br_replyToInfo bridge\<rparr>"

definition checkReconnecting :: "BridgeServer \<Rightarrow> bool" where
  "checkReconnecting bridge \<longleftrightarrow> br_reconnect bridge \<noteq> Map.empty"

section \<open>Creating connectors\<close>

definition RegisterReplyInfo :: "string \<Rightarrow> ConnectorConfig \<Rightarrow> replyToInfo \<Rightarrow> replyToInfo" where
  "RegisterReplyInfo desc config info = info(desc \<mapsto> config)"

definition CreateConnector :: "ConnectorConfig \<Rightarrow> string \<Rightarrow> replyToInfo \<Rightarrow> Connector outcome \<times> replyToInfo" where
  "CreateConnector config nuid info =
     (let t = cfg_Type config; qmgr = mq_QueueManager (cfg_MQ config) in
      if t = Queue2NATS then
        (Ok (Queue2NATSConnector (NewQueue2NATSConnector config nuid)),
         RegisterReplyInfo (subject_key (cfg_Subject config)) config info)
      else if t = Queue2Stan then
        (Ok (Queue2STANConnector (NewQueue2STANConnector config nuid)),
         RegisterReplyInfo (channel_key (cfg_Channel config)) config info)
      else if t = NATS2Queue then
        (Ok (NATS2QueueConnector (NewNATS2QueueConnector config nuid)),
         RegisterReplyInfo (queue_key (cfg_Queue config) qmgr) config info)
      else if t = Stan2Queue then
        (Ok (Stan2QueueConnector (NewStan2QueueConnector config nuid)),
         RegisterReplyInfo (queue_key (cfg_Queue config) qmgr) config info)
      else if t = Topic2NATS then
        (Ok (Topic2NATSConnector (NewTopic2NATSConnector config nuid)),
         RegisterReplyInfo (subject_key (cfg_Subject config)) config info)
      else if t = Topic2Stan then
        (Ok (Topic2StanConnector (NewTopic2StanConnector config nuid)),
         RegisterReplyInfo (channel_key (cfg_Channel config)) config info)
      else if t = NATS2Topic then
        (Ok (NATS2TopicConnector (NewNATS2TopicConnector config nuid)),
         RegisterReplyInfo (topic_key (cfg_Topic config) qmgr) config info)
      else if t = Stan2Topic then
        (Ok (Stan2TopicConnector (NewStan2TopicConnector config nuid)),
         RegisterReplyInfo (topic_key (cfg_Topic config) qmgr) config info)
      else (Err (Errorf (''unknown connector type '' @ t @ '' in configuration'')), info))"

text \<open>The loop of \<^verbatim>\<open>initializeConnectors\<close>; \<open>nuid\<close> is the stream of fresh identifiers.\<close>

fun createConnectors ::
  "(nat \<Rightarrow> string) \<Rightarrow> ConnectorConfig list \<Rightarrow> Connector list \<Rightarrow> replyToInfo \<Rightarrow>
   unit outcome \<times> Connector list \<times> replyToInfo" where
  "createConnectors nuid [] conns info = (Ok (), conns, info)"
| "createConnectors nuid (c # cs) conns info =
     (case CreateConnector c (nuid (length conns)) info of
        (Ok conn, info') \<Rightarrow> createConnectors nuid cs (conns @ [conn]) info'
      | (Err e, info') \<Rightarrow> (Err e, conns, info')
      | (Panic, info') \<Rightarrow> (Panic, conns, info'))"

definition initializeConnectors :: "(nat \<Rightarrow> string) \<Rightarrow> BridgeServer \<Rightarrow> unit outcome \<times> BridgeServer" where
  "initializeConnectors nuid bridge =
     (case createConnectors nuid (cfg_Connect (br_config bridge)) (br_connectors bridge) (br_replyToInfo bridge) of
        (r, conns, info) \<Rightarrow> (r, bridge\<lparr>br_connectors := conns, br_replyToInfo := info\<rparr>))"

section \<open>Facts about the creation\<close>

text \<open>The key under which a configuration is registered.\<close>

definition reply_key :: "ConnectorConfig \<Rightarrow> string option" where
  "reply_key c =
     (if cfg_Type c = Queue2NATS \<or> cfg_Type c = Topic2NATS then Some (subject_key (cfg_Subject c))
      else if cfg_Type c = Queue2Stan \<or> cfg_Type c = Topic2Stan then Some (channel_key (cfg_Channel c))
      else if cfg_Type c = NATS2Queue \<or> cfg_Type c = Stan2Queue then
        Some (queue_key (cfg_Queue c) (mq_QueueManager (cfg_MQ c)))
      else if cfg_Type c = NATS2Topic \<or> cfg_Type c = Stan2Topic then
        Some (topic_key (cfg_Topic c) (mq_QueueManager (cfg_MQ c)))
      else None)"

definition id_of :: "Connector \<Rightarrow> string" where
  "id_of c = connector_ID (base c)"

lemma CreateConnector_Ok:
  assumes "CreateConnector config nuid info = (Ok c, info')"
  shows "bc_config (base c) = config" "idle c" "\<not> st_Connected (bc_stats (base c))"
    "id_of c = (if cfg_ID config = '''' then nuid else cfg_ID config)"
    "\<exists>k. reply_key config = Some k \<and> info' = info(k \<mapsto> config)"
  using assms
  by (auto simp: CreateConnector_def Let_def connector_types new_defs id_of_def connector_ID_def
      BridgeConnector.defs QueueListener.defs TopicListener.defs QueuePublisher.defs TopicPublisher.defs
      NewConnectorStats_def reply_key_def RegisterReplyInfo_def split: if_splits)

lemma CreateConnector_cases:
  obtains (made) c k where "CreateConnector config nuid info = (Ok c, info(k \<mapsto> config))" "reply_key config = Some k"
  | (refused) e where "CreateConnector config nuid info = (Err e, info)" "reply_key config = None"
proof (cases "reply_key config")
  case None
  then have "CreateConnector config nuid info =
      (Err (Errorf (''unknown connector type '' @ cfg_Type config @ '' in configuration'')), info)"
    by (auto simp: CreateConnector_def reply_key_def Let_def split: if_splits)
  then show thesis using None refused by blast
next
  case (Some k)
  then have "\<exists>c. CreateConnector config nuid info = (Ok c, info(k \<mapsto> config))"
    by (auto simp: CreateConnector_def reply_key_def RegisterReplyInfo_def Let_def connector_types split: if_splits)
  then show thesis using Some made by blast
qed

text \<open>The entry of a key is the last configuration that registers it.\<close>

definition last_with :: "string \<Rightarrow> ConnectorConfig list \<Rightarrow> ConnectorConfig option" where
  "last_with k cs = find (\<lambda>c. reply_key c = Some k) (rev cs)"

lemma find_append: "find P (xs @ ys) = (case find P xs of None \<Rightarrow> find P ys | Some x \<Rightarrow> Some x)"
  by (induction xs) auto

lemma createConnectors_spec:
  assumes "createConnectors nuid cs conns info = (Ok (), conns', info')"
  shows "length conns' = length conns + length cs \<and> take (length conns) conns' = conns
    \<and> (\<forall>i<length cs. let c = conns' ! (length conns + i) in
         bc_config (base c) = cs ! i \<and> idle c \<and> \<not> st_Connected (bc_stats (base c))
         \<and> id_of c = (if cfg_ID (cs ! i) = '''' then nuid (length conns + i) else cfg_ID (cs ! i)))
    \<and> (\<forall>k. info' k = (case last_with k cs of None \<Rightarrow> info k | Some c \<Rightarrow> Some c))"
  using assms
proof (induction cs arbitrary: conns info)
  case Nil
  then show ?case by (simp add: last_with_def)
next
  case (Cons c cs)
  from CreateConnector_cases [of c "nuid (length conns)" info] show ?case
  proof cases
    case (made conn k)
    note ok = CreateConnector_Ok [OF made(1)]
    have rest: "createConnectors nuid cs (conns @ [conn]) (info(k \<mapsto> c)) = (Ok (), conns', info')"
      using Cons.prems made(1) by simp
    note IH = Cons.IH [OF rest]
    have nth: "conns' ! length conns = conn" "take (length conns) conns' = conns"
      using IH [THEN conjunct2, THEN conjunct1]
      by (metis length_append_singleton lessI nth_append_length nth_take)
        (metis IH append_eq_conv_conj append_take_drop_id length_append_singleton take_Suc_conv_app_nth
          append_same_eq le_add1 length_take min.absorb2 take_take add.commute lessI)
    have "let c' = conns' ! (length conns + i) in
         bc_config (base c') = (c # cs) ! i \<and> idle c' \<and> \<not> st_Connected (bc_stats (base c'))
         \<and> id_of c' = (if cfg_ID ((c # cs) ! i) = '''' then nuid (length conns + i) else cfg_ID ((c # cs) ! i))"
      if "i < length (c # cs)" for i
      using that IH nth ok by (cases i) (auto simp: Let_def)
    moreover have "info' k' = (case last_with k' (c # cs) of None \<Rightarrow> info k' | Some c \<Rightarrow> Some c)" for k'
      using IH made(2) by (auto simp: last_with_def find_append split: option.splits)
    ultimately show ?thesis using IH nth by auto
  next
    case (refused e)
    then show ?thesis using Cons.prems by simp
  qed
qed

text \<open>Creation fails exactly at a configuration of unknown type.\<close>

lemma createConnectors_Ok_iff:
  "fst (createConnectors nuid cs conns info) = Ok () \<longleftrightarrow> (\<forall>c\<in>set cs. reply_key c \<noteq> None)"
proof (induction cs arbitrary: conns info)
  case (Cons c cs)
  from CreateConnector_cases [of c "nuid (length conns)" info] show ?case
    by cases (use Cons in auto)
qed simp

section \<open>Properties\<close>

text \<open>
  C13. Request and reply across the bridge. After the connectors are created from a configuration, for a
  connector that is the only one of its key: a message from MQ whose reply queue is the destination of a
  NATS (or streaming) connector gets that connector's subject (or channel) as its reply address, and a
  message from NATS whose reply subject (or channel) is the destination of a queue connector gets that
  connector's queue and queue manager; so a reply sent to the address reaches the requester.
\<close>

theorem request_reply_mapping:
  assumes "initializeConnectors nuid b = (Ok (), b')"
    and "br_connectors b = []" and "br_replyToInfo b = Map.empty"
    and "c \<in> set (cfg_Connect (br_config b))"
    and "\<forall>d\<in>set (cfg_Connect (br_config b)). reply_key d = reply_key c \<longrightarrow> d = c"
    and "cfg_Queue c \<noteq> ''''" and "mq_QueueManager (cfg_MQ c) \<noteq> ''''"
    and "md_ReplyToQ md = cfg_Queue c" and "md_ReplyToQMgr md = mq_QueueManager (cfg_MQ c)"
    and "hdr_ReplyToChannel h = cfg_Channel c"
  shows "(cfg_Type c = NATS2Queue \<and> cfg_Subject c \<noteq> '''' \<longrightarrow>
      replyAddress (br_replyToInfo b') (Some md) = (cfg_Subject c, ''''))
    \<and> (cfg_Type c = Stan2Queue \<and> cfg_Subject c = '''' \<longrightarrow>
      replyAddress (br_replyToInfo b') (Some md) = ('''', cfg_Channel c))
    \<and> (cfg_Type c = Queue2NATS \<and> cfg_Subject c \<noteq> '''' \<longrightarrow>
      replyQueue (br_replyToInfo b') (cfg_Subject c) = (cfg_Queue c, mq_QueueManager (cfg_MQ c)))
    \<and> (cfg_Type c = Queue2Stan \<and> cfg_Channel c \<noteq> '''' \<longrightarrow>
      replyQueueOfHeader (br_replyToInfo b') h r = (cfg_Queue c, mq_QueueManager (cfg_MQ c)))"
proof -
  have entry: "br_replyToInfo b' k = Some c" if k: "reply_key c = Some k" for k
  proof -
    obtain conns info where cc: "createConnectors nuid (cfg_Connect (br_config b)) [] Map.empty = (Ok (), conns, info)"
      "br_replyToInfo b' = info"
      using assms(1-3) by (auto simp: initializeConnectors_def split: prod.splits)
    have "last_with k (cfg_Connect (br_config b)) = Some c"
    proof (cases "last_with k (cfg_Connect (br_config b))")
      case None
      then show ?thesis using assms(4) k by (auto simp: last_with_def find_None_iff)
    next
      case (Some d)
      then have "d \<in> set (cfg_Connect (br_config b))" "reply_key d = Some k"
        by (auto simp: last_with_def find_Some_iff dest: nth_mem) (metis nth_mem set_rev length_rev)
      then show ?thesis using assms(5) k Some by auto
    qed
    then show ?thesis using createConnectors_spec [OF cc(1)] cc(2) by simp
  qed
  show ?thesis
    using entry assms(6-10)
    by (auto simp: reply_key_def replyAddress_def replyQueue_def replyQueueOfHeader_def connector_types Let_def)
qed

definition example_bridge_config :: BridgeConfig where
  "example_bridge_config = zero_BridgeConfig\<lparr>cfg_Connect :=
     [zero_ConnectorConfig\<lparr>cfg_ID := ''in'', cfg_Type := NATS2Queue, cfg_Subject := ''s'', cfg_Queue := ''Q1'',
        cfg_MQ := zero_MQConfig\<lparr>mq_QueueManager := ''QM1''\<rparr>\<rparr>,
      zero_ConnectorConfig\<lparr>cfg_ID := ''out'', cfg_Type := Queue2NATS, cfg_Subject := ''t'', cfg_Queue := ''Q2'',
        cfg_MQ := zero_MQConfig\<lparr>mq_QueueManager := ''QM1''\<rparr>\<rparr>]\<rparr>"

definition example_bridge :: BridgeServer where
  "example_bridge = snd (initializeConnectors (\<lambda>_. ''x'') (LoadConfig example_bridge_config NewBridgeServer))"

theorem request_reply_mapping_witness:
  "replyAddress (br_replyToInfo example_bridge) (Some (example_md\<lparr>md_ReplyToQ := ''Q1'', md_ReplyToQMgr := ''QM1''\<rparr>)) =
     (''s'', '''')"
proof -
  let ?b = "LoadConfig example_bridge_config NewBridgeServer"
  let ?c = "cfg_Connect example_bridge_config ! 0"
  have "fst (initializeConnectors (\<lambda>_. ''x'') ?b) = Ok ()"
    by (simp add: initializeConnectors_def LoadConfig_def NewBridgeServer_def example_bridge_config_def
        CreateConnector_def connector_types RegisterReplyInfo_def Let_def)
  then have i: "initializeConnectors (\<lambda>_. ''x'') ?b = (Ok (), example_bridge)"
    by (metis example_bridge_def prod.collapse)
  show ?thesis
    using request_reply_mapping [OF i, of ?c
        "example_md\<lparr>md_ReplyToQ := ''Q1'', md_ReplyToQMgr := ''QM1''\<rparr>" "zero_header"]
    by (simp add: LoadConfig_def NewBridgeServer_def example_bridge_config_def zero_header_def
        zero_ConnectorConfig_def reply_key_def connector_types queue_key_def subject_key_def)
qed

end
