(* ===== verification/Go_Text.thy ===== *)
theory Go_Text
  imports Prelude
begin

text \<open>
  What the bridge uses of Go's text functions: \<^verbatim>\<open>strconv.Itoa\<close> and \<^verbatim>\<open>strconv.Atoi\<close>,
  \<^verbatim>\<open>net.JoinHostPort\<close> and \<^verbatim>\<open>net.SplitHostPort\<close>, and \<^verbatim>\<open>strings.ToLower\<close> on the ASCII letters
  (the bridge only compares the result with names and words made of ASCII letters).
\<close>

section \<open>Decimal numbers\<close>

definition digit :: "nat \<Rightarrow> char" where
  "digit n = char_of (48 + n)"

definition digit_value :: "char \<Rightarrow> nat option" where
  "digit_value c = (let n = of_char c in if 48 \<le> n \<and> n < 58 then Some (n - 48) else None)"

lemma digit_value_digit [simp]: "n < 10 \<Longrightarrow> digit_value (digit n) = Some n"
  by (simp add: digit_value_def digit_def Let_def)

fun nat_digits :: "nat \<Rightarrow> string" where
  "nat_digits n = (if n < 10 then [digit n] else nat_digits (n div 10) @ [digit (n mod 10)])"

declare nat_digits.simps [simp del]

fun digits_value :: "nat \<Rightarrow> string \<Rightarrow> nat option" where
  "digits_value acc [] = Some acc"
| "digits_value acc (c # cs) =
     (case digit_value c of None \<Rightarrow> None | Some d \<Rightarrow> digits_value (10 * acc + d) cs)"

lemma digits_value_append:
  "digits_value acc (xs @ ys) = (case digits_value acc xs of None \<Rightarrow> None | Some a \<Rightarrow> digits_value a ys)"
  by (induction xs arbitrary: acc) (auto split: option.splits)

lemma digits_value_nat_digits [simp]: "digits_value 0 (nat_digits n) = Some n"
proof (induction n rule: nat_digits.induct)
  case (1 n)
  then show ?case
    by (subst nat_digits.simps) (auto simp: digits_value_append)
qed

lemma nat_digits_nonempty [simp]: "nat_digits n \<noteq> []"
  by (subst nat_digits.simps) simp

lemma set_nat_digits: "c \<in> set (nat_digits n) \<Longrightarrow> \<exists>d<10. c = digit d"
proof (induction n rule: nat_digits.induct)
  case (1 n)
  then show ?case
    by (subst (asm) (2) nat_digits.simps) (auto split: if_splits intro: exI [of _ "n mod 10"])
qed

lemma of_char_digit: "d < 10 \<Longrightarrow> of_char (digit d) = (48 + d :: nat)"
  by (simp add: digit_def)

lemma digit_neq: "d < 10 \<Longrightarrow> of_char c < (48 :: nat) \<or> 58 \<le> (of_char c :: nat) \<Longrightarrow> digit d \<noteq> c"
  using of_char_digit [of d] by auto

lemma nat_digits_free:
  "of_char c < (48 :: nat) \<or> 58 \<le> (of_char c :: nat) \<Longrightarrow> c \<notin> set (nat_digits n)"
  using set_nat_digits digit_neq by metis

definition Itoa :: "int \<Rightarrow> string" where
  "Itoa i = (if i < 0 then CHR ''-'' # nat_digits (nat (- i)) else nat_digits (nat i))"

text \<open>Signs, decimal digits, and the range of a 64-bit \<^verbatim>\<open>int\<close>.\<close>

definition Atoi :: "string \<Rightarrow> int option" where
  "Atoi s =
     (let (neg, ds) = (case s of
            [] \<Rightarrow> (False, [])
          | c # cs \<Rightarrow> if c = CHR ''-'' then (True, cs) else if c = CHR ''+'' then (False, cs) else (False, s))
      in if ds = [] then None
         else (case digits_value 0 ds of
                 None \<Rightarrow> None
               | Some n \<Rightarrow>
                   let i = (if neg then - int n else int n)
                   in if - (2 ^ 63) \<le> i \<and> i < 2 ^ 63 then Some i else None))"

lemma Atoi_Itoa:
  assumes "- (2 ^ 63) \<le> i" "i < 2 ^ 63"
  shows "Atoi (Itoa i) = Some i"
proof (cases "i < 0")
  case True
  then show ?thesis using assms by (simp add: Itoa_def Atoi_def)
next
  case False
  obtain c cs where ds: "nat_digits (nat i) = c # cs" by (cases "nat_digits (nat i)") auto
  then have "c \<noteq> CHR ''-''" "c \<noteq> CHR ''+''"
    using nat_digits_free [of "CHR ''-''" "nat i"] nat_digits_free [of "CHR ''+''" "nat i"] by auto
  moreover have "digits_value 0 (c # cs) = Some (nat i)" using digits_value_nat_digits [of "nat i"] ds by simp
  ultimately show ?thesis using assms False ds by (simp add: Itoa_def Atoi_def)
qed

section \<open>Hosts and ports\<close>

definition JoinHostPort :: "string \<Rightarrow> string \<Rightarrow> string" where
  "JoinHostPort host port =
     (if CHR '':'' \<in> set host then CHR ''['' # host @ '']:'' @ port else host @ CHR '':'' # port)"

text \<open>The position of the first and of the last occurrence of a character.\<close>

fun index_of :: "char \<Rightarrow> string \<Rightarrow> nat option" where
  "index_of c [] = None"
| "index_of c (d # ds) = (if c = d then Some 0 else map_option Suc (index_of c ds))"

definition last_index_of :: "char \<Rightarrow> string \<Rightarrow> nat option" where
  "last_index_of c s = map_option (\<lambda>k. length s - 1 - k) (index_of c (rev s))"

text \<open>\<open>None\<close> stands for the errors, which the bridge does not tell apart.\<close>

definition SplitHostPort :: "string \<Rightarrow> (string \<times> string) option" where
  "SplitHostPort hp =
     (case last_index_of (CHR '':'') hp of
        None \<Rightarrow> None
      | Some i \<Rightarrow>
          (case (if hd hp = CHR ''['' then
                   (case index_of (CHR '']'') hp of
                      None \<Rightarrow> None
                    | Some e \<Rightarrow> if e + 1 = i then Some (take (e - 1) (tl hp), 1, e + 1) else None)
                 else if CHR '':'' \<in> set (take i hp) then None
                 else Some (take i hp, 0, 0)) of
             None \<Rightarrow> None
           | Some (host, j, k) \<Rightarrow>
               if CHR ''['' \<in> set (drop j hp) \<or> CHR '']'' \<in> set (drop k hp) then None
               else Some (host, drop (i + 1) hp)))"

lemma index_of_None [simp]: "c \<notin> set s \<Longrightarrow> index_of c s = None"
  by (induction s) auto

lemma index_of_append: "c \<notin> set xs \<Longrightarrow> index_of c (xs @ c # ys) = Some (length xs)"
  by (induction xs) auto

lemma last_index_of_append: "c \<notin> set ys \<Longrightarrow> last_index_of c (xs @ c # ys) = Some (length xs)"
  using index_of_append [of c "rev ys" "rev xs"] by (simp add: last_index_of_def)

lemma SplitHostPort_JoinHostPort:
  assumes "CHR '':'' \<notin> set port" "CHR ''['' \<notin> set port" "CHR '']'' \<notin> set port"
    and "CHR ''['' \<notin> set host" "CHR '']'' \<notin> set host"
  shows "SplitHostPort (JoinHostPort host port) = Some (host, port)"
proof (cases "CHR '':'' \<in> set host")
  case True
  let ?hp = "CHR ''['' # host @ '']:'' @ port"
  have i: "last_index_of (CHR '':'') ?hp = Some (length host + 2)"
    using last_index_of_append [OF assms(1), of "CHR ''['' # host @ '']''"] by simp
  have e: "index_of (CHR '']'') ?hp = Some (length host + 1)"
    using index_of_append [of "CHR '']''" "CHR ''['' # host" "'':'' @ port"] assms(5) by simp
  show ?thesis using True i e assms by (simp add: JoinHostPort_def SplitHostPort_def)
next
  case False
  let ?hp = "host @ CHR '':'' # port"
  have i: "last_index_of (CHR '':'') ?hp = Some (length host)"
    using last_index_of_append [OF assms(1)] by simp
  have h: "hd ?hp \<noteq> CHR ''[''" using assms(4) by (cases host) auto
  show ?thesis using False i h assms by (simp add: JoinHostPort_def SplitHostPort_def)
qed

lemma Itoa_free:
  assumes "0 \<le> i" "of_char c < (48 :: nat) \<or> 58 \<le> (of_char c :: nat)"
  shows "c \<notin> set (Itoa i)"
  using assms nat_digits_free [of c "nat i"] by (simp add: Itoa_def)

section \<open>Lower case\<close>

definition lower :: "char \<Rightarrow> char" where
  "lower c = (let n = (of_char c :: nat) in if 65 \<le> n \<and> n \<le> 90 then char_of (n + 32) else c)"

definition ToLower :: "string \<Rightarrow> string" where
  "ToLower s = map lower s"

end
