(* ===== verification/Monitoring.thy ===== *)
theory Monitoring
  imports Bridge_State Go_Text
begin

text \<open>
  The monitoring server (\<^verbatim>\<open>src/nats-mq/core/monitoring.go\<close>) and the statistics it reports
  (\<^verbatim>\<open>BridgeStats\<close> in \<^verbatim>\<open>stats.go\<close>). Listening, the TLS key pair, the JSON encoder and the shutdown of
  the HTTP server are parameters; a time is a number of nanoseconds.
\<close>

section \<open>Starting and stopping\<close>

definition RootPath :: string where "RootPath = ''/''"
definition VarzPath :: string where "VarzPath = ''/varz''"
definition HealthzPath :: string where "HealthzPath = ''/healthz''"

lemmas path_defs = RootPath_def VarzPath_def HealthzPath_def

text \<open>\<open>me_Listen\<close> answers with the port that the listener has.\<close>

record mon_env =
  me_LoadX509KeyPair :: "string \<Rightarrow> string \<Rightarrow> go_error option"
  me_Listen :: "bool \<Rightarrow> string \<Rightarrow> go_error + int"
  me_Shutdown :: "go_error option"
  me_ErrorText :: "go_error \<Rightarrow> string"

definition monitoringURL_of :: "string \<Rightarrow> string \<Rightarrow> int \<Rightarrow> string" where
  "monitoringURL_of monitorProtocol host port =
     (let mhp = JoinHostPort host (Itoa port);
          mhp = (if host = '''' then ''localhost'' @ mhp else mhp)
      in monitorProtocol @ ''://'' @ mhp @ ''/'')"

text \<open>
  After the checks of the ports: \<open>secure\<close> says which one is used; a port of -1 means any port.
\<close>

definition listenMonitoring :: "mon_env \<Rightarrow> bool \<Rightarrow> BridgeServer \<Rightarrow> unit outcome \<times> BridgeServer" where
  "listenMonitoring me secure bridge =
     (let config = cfg_Monitoring (br_config bridge);
          bridge = bridge\<lparr>br_httpReqStats := Some [RootPath \<mapsto> 0, VarzPath \<mapsto> 0, HealthzPath \<mapsto> 0]\<rparr>;
          port = (if secure then mon_HTTPSPort config else mon_HTTPPort config);
          hp = JoinHostPort (mon_HTTPHost config) (Itoa (if port = - 1 then 0 else port));
          certError = (if secure then me_LoadX509KeyPair me (tls_Cert (mon_TLS config)) (tls_Key (mon_TLS config))
                       else None)
      in case certError of
           Some e \<Rightarrow> (Err e, bridge)
         | None \<Rightarrow>
             (case me_Listen me secure hp of
                Inl e \<Rightarrow> (Err (Errorf (''can't listen to the monitor port: '' @ me_ErrorText me e)), bridge)
              | Inr actual \<Rightarrow>
                  (Ok (), bridge\<lparr>
                     br_monitoringURL := monitoringURL_of (if secure then ''https'' else ''http'')
                       (mon_HTTPHost config) actual,
                     br_httpListener := True, br_httpHandler := True, br_monitoringServer := True\<rparr>)))"

definition startMonitoring :: "mon_env \<Rightarrow> BridgeServer \<Rightarrow> unit outcome \<times> BridgeServer" where
  "startMonitoring me bridge =
     (let config = cfg_Monitoring (br_config bridge) in
      if mon_HTTPPort config \<noteq> 0 \<and> mon_HTTPSPort config \<noteq> 0 then
        (Err (Errorf (''can't specify both HTTP ('' @ Itoa (mon_HTTPPort config) @ '') and HTTPs ('' @
           Itoa (mon_HTTPSPort config) @ '') ports'')), bridge)
      else if mon_HTTPPort config = 0 \<and> mon_HTTPSPort config = 0 then (Ok (), bridge)
      else if mon_HTTPSPort config \<noteq> 0 then
        (if tls_Cert (mon_TLS config) = '''' \<or> tls_Key (mon_TLS config) = '''' then
           (Err (Errorf ''TLS cert and key required for HTTPS''), bridge)
         else listenMonitoring me True bridge)
      else listenMonitoring me False bridge)"

definition StopMonitoring :: "mon_env \<Rightarrow> BridgeServer \<Rightarrow> go_error option \<times> BridgeServer" where
  "StopMonitoring me bridge =
     (let serving = (br_monitoringServer bridge \<and> br_httpHandler bridge) in
      case (if serving then me_Shutdown me else None) of
        Some e \<Rightarrow> (Some e, bridge)
      | None \<Rightarrow>
          (let bridge = (if serving then bridge\<lparr>br_monitoringServer := False, br_httpHandler := False\<rparr> else bridge)
           in (None, bridge\<lparr>br_httpListener := False\<rparr>)))"

section \<open>The statistics of the server\<close>

record BridgeStats =
  sta_StartTime :: int
  sta_ServerTime :: int
  sta_UpTime :: string
  sta_Connections :: "ConnectorStats list"
  sta_HTTPRequests :: "string \<rightharpoonup> i64"

text \<open>\<open>now\<close> is the current time and \<open>durationText\<close> is \<^verbatim>\<open>Duration.String\<close>; a nil map has no entries.\<close>

definition bridge_stats :: "(int \<Rightarrow> string) \<Rightarrow> int \<Rightarrow> BridgeServer \<Rightarrow> BridgeStats" where
  "bridge_stats durationText now bridge =
     \<lparr>sta_StartTime = br_startTime bridge div 10 ^ 9,
      sta_ServerTime = now div 10 ^ 9,
      sta_UpTime = durationText (now - br_startTime bridge),
      sta_Connections = map (\<lambda>c. UpdateQuintiles f64 (bc_stats (base c))) (br_connectors bridge),
      sta_HTTPRequests = (case br_httpReqStats bridge of None \<Rightarrow> Map.empty | Some f \<Rightarrow> f)\<rparr>"

definition GetMonitoringRootURL :: "BridgeServer \<Rightarrow> string" where
  "GetMonitoringRootURL bridge = br_monitoringURL bridge"

section \<open>The handlers\<close>

datatype response = NotFound | RootPage | VarzJSON bytes | StatusOK | InternalServerError

text \<open>\<^verbatim>\<open>bridge.httpReqStats[path]++\<close>: a missing entry counts from 0, a nil map panics.\<close>

definition countRequest :: "string \<Rightarrow> BridgeServer \<Rightarrow> BridgeServer outcome" where
  "countRequest path bridge =
     (case br_httpReqStats bridge of
        None \<Rightarrow> Panic
      | Some f \<Rightarrow> Ok (bridge\<lparr>br_httpReqStats :=
          Some (f(path \<mapsto> (case f path of None \<Rightarrow> 0 | Some n \<Rightarrow> n) + 1))\<rparr>))"

definition HandleRoot :: "string \<Rightarrow> BridgeServer \<Rightarrow> (response \<times> BridgeServer) outcome" where
  "HandleRoot path bridge =
     (if path \<noteq> ''/'' then Ok (NotFound, bridge)
      else outcome_bind (countRequest RootPath bridge) (\<lambda>b. Ok (RootPage, b)))"

definition HandleVarz ::
  "(BridgeStats \<Rightarrow> go_error + bytes) \<Rightarrow> (int \<Rightarrow> string) \<Rightarrow> int \<Rightarrow> BridgeServer \<Rightarrow> (response \<times> BridgeServer) outcome" where
  "HandleVarz marshal durationText now bridge =
     outcome_bind (countRequest VarzPath bridge) (\<lambda>b.
       Ok (case marshal (bridge_stats durationText now b) of
             Inl _ \<Rightarrow> InternalServerError
           | Inr varzJSON \<Rightarrow> VarzJSON varzJSON, b))"

definition HandleHealthz :: "BridgeServer \<Rightarrow> (response \<times> BridgeServer) outcome" where
  "HandleHealthz bridge = outcome_bind (countRequest HealthzPath bridge) (\<lambda>b. Ok (StatusOK, b))"

text \<open>The multiplexer: the root pattern takes every path that has no handler of its own.\<close>

definition serve ::
  "(BridgeStats \<Rightarrow> go_error + bytes) \<Rightarrow> (int \<Rightarrow> string) \<Rightarrow> string \<times> int \<Rightarrow> BridgeServer \<Rightarrow>
   (response \<times> BridgeServer) outcome" where
  "serve marshal durationText req bridge =
     (case req of (path, now) \<Rightarrow>
        if path = VarzPath then HandleVarz marshal durationText now bridge
        else if path = HealthzPath then HandleHealthz bridge
        else HandleRoot path bridge)"

fun serve_all ::
  "(BridgeStats \<Rightarrow> go_error + bytes) \<Rightarrow> (int \<Rightarrow> string) \<Rightarrow> (string \<times> int) list \<Rightarrow> BridgeServer \<Rightarrow>
   (response list \<times> BridgeServer) outcome" where
  "serve_all marshal dt [] bridge = Ok ([], bridge)"
| "serve_all marshal dt (r # rs) bridge =
     outcome_bind (serve marshal dt r bridge) (\<lambda>(x, b).
       outcome_bind (serve_all marshal dt rs b) (\<lambda>(xs, b'). Ok (x # xs, b')))"

section \<open>Facts\<close>

lemmas monitoring_defs = startMonitoring_def listenMonitoring_def Let_def

lemma startMonitoring_frame:
  assumes "startMonitoring me b = (r, b')"
  shows "br_running b' = br_running b \<and> br_config b' = br_config b \<and> br_connectors b' = br_connectors b
    \<and> br_reconnect b' = br_reconnect b \<and> br_reconnectTimer b' = br_reconnectTimer b
    \<and> br_timers b' = br_timers b \<and> br_nats b' = br_nats b \<and> br_stan b' = br_stan b \<and> r \<noteq> Panic
    \<and> br_nextTimer b' = br_nextTimer b \<and> br_replyToInfo b' = br_replyToInfo b"
  using assms by (auto simp: monitoring_defs split: if_splits option.splits sum.splits)

lemma StopMonitoring_frame:
  assumes "StopMonitoring me b = (r, b')"
  shows "br_running b' = br_running b \<and> br_config b' = br_config b \<and> br_connectors b' = br_connectors b
    \<and> br_reconnect b' = br_reconnect b \<and> br_reconnectTimer b' = br_reconnectTimer b
    \<and> br_timers b' = br_timers b \<and> br_nats b' = br_nats b \<and> br_stan b' = br_stan b
    \<and> br_nextTimer b' = br_nextTimer b"
  using assms by (auto simp: StopMonitoring_def Let_def split: if_splits option.splits)

lemma listenMonitoring_spec:
  assumes "listenMonitoring me secure b = (r, b')"
    and "config = cfg_Monitoring (br_config b)"
    and "port = (if secure then mon_HTTPSPort config else mon_HTTPPort config)"
    and "answer = me_Listen me secure (JoinHostPort (mon_HTTPHost config) (Itoa (if port = - 1 then 0 else port)))"
  shows "r = Ok () \<longleftrightarrow> \<not> isl answer
      \<and> (secure \<longrightarrow> me_LoadX509KeyPair me (tls_Cert (mon_TLS config)) (tls_Key (mon_TLS config)) = None)"
    and "r = Ok () \<Longrightarrow> br_httpListener b' \<and> br_monitoringServer b'
      \<and> br_httpReqStats b' = Some [RootPath \<mapsto> 0, VarzPath \<mapsto> 0, HealthzPath \<mapsto> 0]
      \<and> br_monitoringURL b' = monitoringURL_of (if secure then ''https'' else ''http'') (mon_HTTPHost config) (projr answer)"
    and "r \<noteq> Ok () \<Longrightarrow> br_httpListener b' = br_httpListener b \<and> br_monitoringServer b' = br_monitoringServer b"
  using assms(1) unfolding assms(2-4)
  by (auto simp: listenMonitoring_def Let_def split: if_splits option.splits sum.splits)

text \<open>Which requests are counted for a path.\<close>

definition hits :: "string \<Rightarrow> (string \<times> int) list \<Rightarrow> nat" where
  "hits path reqs = length (filter (\<lambda>r. fst r = path) reqs)"

lemma serve_Some:
  assumes "br_httpReqStats b = Some f" "path \<in> {RootPath, VarzPath, HealthzPath}"
    and "\<forall>p\<in>{RootPath, VarzPath, HealthzPath}. f p \<noteq> None"
  shows "\<exists>x b' f'. serve marshal dt req b = Ok (x, b') \<and> br_httpReqStats b' = Some f'
    \<and> (\<forall>p\<in>{RootPath, VarzPath, HealthzPath}. f' p \<noteq> None)
    \<and> the (f' path) = the (f path) + (if fst req = path then 1 else 0)
    \<and> (x = NotFound) = (fst req \<notin> {RootPath, VarzPath, HealthzPath})"
  using assms
  by (cases req) (auto simp: serve_def HandleVarz_def HandleHealthz_def HandleRoot_def countRequest_def path_defs
      split: sum.splits)

lemma serve_all_Some:
  assumes "br_httpReqStats b = Some f" "path \<in> {RootPath, VarzPath, HealthzPath}"
    and "\<forall>p\<in>{RootPath, VarzPath, HealthzPath}. f p \<noteq> None"
  shows "\<exists>xs b' f'. serve_all marshal dt reqs b = Ok (xs, b') \<and> br_httpReqStats b' = Some f'
    \<and> the (f' path) = the (f path) + of_nat (hits path reqs) \<and> f' path \<noteq> None
    \<and> map (\<lambda>x. x = NotFound) xs = map (\<lambda>r. fst r \<notin> {RootPath, VarzPath, HealthzPath}) reqs"
  using assms
proof (induction reqs arbitrary: b f)
  case Nil
  then show ?case by (auto simp: hits_def)
next
  case (Cons r rs)
  obtain x b1 f1 where 1: "serve marshal dt r b = Ok (x, b1)" "br_httpReqStats b1 = Some f1"
    "\<forall>p\<in>{RootPath, VarzPath, HealthzPath}. f1 p \<noteq> None"
    "the (f1 path) = the (f path) + (if fst r = path then 1 else 0)"
    "(x = NotFound) = (fst r \<notin> {RootPath, VarzPath, HealthzPath})"
    using serve_Some [OF Cons.prems] by blast
  obtain xs b2 f2 where 2: "serve_all marshal dt rs b1 = Ok (xs, b2)" "br_httpReqStats b2 = Some f2"
    "the (f2 path) = the (f1 path) + of_nat (hits path rs)" "f2 path \<noteq> None"
    "map (\<lambda>x. x = NotFound) xs = map (\<lambda>r. fst r \<notin> {RootPath, VarzPath, HealthzPath}) rs"
    using Cons.IH [OF 1(2) Cons.prems(2) 1(3)] by blast
  have "the (f2 path) = the (f path) + of_nat (hits path (r # rs))"
    using 1(4) 2(3) by (simp add: hits_def)
  then show ?case using 1(1,5) 2 by simp
qed

section \<open>Properties\<close>

text \<open>
  C37. Starting the monitoring server, on every branch: it refuses two ports, does nothing without a
  port, refuses HTTPS without certificate and key; otherwise it succeeds exactly when the key pair (for
  HTTPS) can be loaded and the address can be listened to, and then the published URL has the port that
  the listener really has (also when any port was asked for) and the server is up with all request
  counters at 0. When it fails, no listener and no server is recorded.
\<close>

theorem start_monitoring_spec:
  assumes "startMonitoring me b = (r, b')"
    and "config = cfg_Monitoring (br_config b)"
    and "secure = (mon_HTTPSPort config \<noteq> 0)"
    and "port = (if secure then mon_HTTPSPort config else mon_HTTPPort config)"
    and "answer = me_Listen me secure (JoinHostPort (mon_HTTPHost config) (Itoa (if port = - 1 then 0 else port)))"
  shows "(mon_HTTPPort config \<noteq> 0 \<and> mon_HTTPSPort config \<noteq> 0 \<longrightarrow> r \<noteq> Ok ())
    \<and> (port = 0 \<longrightarrow> r = Ok () \<and> b' = b)
    \<and> ((mon_HTTPPort config = 0) \<noteq> (mon_HTTPSPort config = 0) \<longrightarrow>
        (r = Ok () \<longleftrightarrow> \<not> isl answer \<and> (secure \<longrightarrow> tls_Cert (mon_TLS config) \<noteq> '''' \<and> tls_Key (mon_TLS config) \<noteq> ''''
           \<and> me_LoadX509KeyPair me (tls_Cert (mon_TLS config)) (tls_Key (mon_TLS config)) = None)))
    \<and> (r = Ok () \<and> port \<noteq> 0 \<longrightarrow> br_httpListener b' \<and> br_monitoringServer b'
        \<and> br_httpReqStats b' = Some [RootPath \<mapsto> 0, VarzPath \<mapsto> 0, HealthzPath \<mapsto> 0]
        \<and> br_monitoringURL b' =
            monitoringURL_of (if secure then ''https'' else ''http'') (mon_HTTPHost config) (projr answer))
    \<and> (r \<noteq> Ok () \<longrightarrow> br_httpListener b' = br_httpListener b \<and> br_monitoringServer b' = br_monitoringServer b)"
proof (cases "(mon_HTTPPort config = 0) = (mon_HTTPSPort config = 0)
    \<or> secure \<and> (tls_Cert (mon_TLS config) = '''' \<or> tls_Key (mon_TLS config) = '''')")
  case True
  then show ?thesis using assms(1,3,4) unfolding assms(2)
    by (auto simp: startMonitoring_def Let_def split: if_splits)
next
  case False
  then have l: "listenMonitoring me secure b = (r, b')"
    using assms(1,3) unfolding assms(2) by (auto simp: startMonitoring_def Let_def split: if_splits)
  have "port \<noteq> 0" using False assms(3,4) by auto
  with listenMonitoring_spec [OF l assms(2,4,5)] False show ?thesis by blast
qed

text \<open>
  C36. The request counters are exact: after a successful start of the monitoring server, any sequence of
  requests is answered without a panic, an unknown path is answered with "not found" and not counted,
  and the statistics report for each of the three paths how often it was asked for (modulo \<open>2 ^ 64\<close>).
\<close>

theorem http_requests_counted:
  assumes "startMonitoring me b = (Ok (), b1)" and "br_httpListener b1" and "\<not> br_httpListener b"
    and "path \<in> {RootPath, VarzPath, HealthzPath}"
  shows "\<exists>xs b2. serve_all marshal dt reqs b1 = Ok (xs, b2)
    \<and> sta_HTTPRequests (bridge_stats dt now b2) path = Some (of_nat (hits path reqs))
    \<and> map (\<lambda>x. x = NotFound) xs = map (\<lambda>r. fst r \<notin> {RootPath, VarzPath, HealthzPath}) reqs"
proof -
  let ?f = "[RootPath \<mapsto> 0, VarzPath \<mapsto> 0, HealthzPath \<mapsto> 0]"
  have s: "br_httpReqStats b1 = Some ?f"
    using assms(1-3) by (auto simp: monitoring_defs split: if_splits option.splits sum.splits)
  have "\<forall>p\<in>{RootPath, VarzPath, HealthzPath}. ?f p \<noteq> None" "the (?f path) = 0"
    using assms(4) by (auto simp: path_defs)
  with serve_all_Some [OF s assms(4), of marshal dt reqs] show ?thesis
    by (fastforce simp: bridge_stats_def)
qed

section \<open>Concrete instances\<close>

definition example_mon_env :: mon_env where
  "example_mon_env = \<lparr>me_LoadX509KeyPair = \<lambda>_ _. None, me_Listen = \<lambda>_ _. Inr 8222, me_Shutdown = None,
     me_ErrorText = \<lambda>_. ''''\<rparr>"

definition example_monitored :: BridgeServer where
  "example_monitored = LoadConfig (zero_BridgeConfig\<lparr>cfg_Monitoring := \<lparr>mon_HTTPHost = '''', mon_HTTPPort = - 1,
     mon_HTTPSPort = 0, mon_TLS = zero_TLSConf\<rparr>\<rparr>) NewBridgeServer"

lemma example_monitored_start:
  "fst (startMonitoring example_mon_env example_monitored) = Ok ()"
  "br_httpListener (snd (startMonitoring example_mon_env example_monitored))"
  "\<not> br_httpListener example_monitored" "\<not> br_monitoringServer example_monitored"
  by (simp_all add: monitoring_defs example_mon_env_def example_monitored_def LoadConfig_def NewBridgeServer_def
      zero_BridgeConfig_def)

theorem start_monitoring_spec_witness:
  "br_monitoringURL (snd (startMonitoring example_mon_env example_monitored)) = monitoringURL_of ''http'' '''' 8222"
proof -
  have "cfg_Monitoring (br_config example_monitored) = \<lparr>mon_HTTPHost = '''', mon_HTTPPort = - 1,
     mon_HTTPSPort = 0, mon_TLS = zero_TLSConf\<rparr>"
    by (simp add: example_monitored_def LoadConfig_def)
  then show ?thesis
    using start_monitoring_spec [OF surjective_pairing refl refl refl refl, of example_monitored example_mon_env]
      example_monitored_start(1)
    by (simp add: example_mon_env_def)
qed

theorem http_requests_counted_witness:
  "\<exists>xs b. serve_all (\<lambda>_. Inr []) (\<lambda>_. '''') [(''/varz'', 1), (''/nothing'', 2)]
       (snd (startMonitoring example_mon_env example_monitored)) = Ok (xs, b)
     \<and> sta_HTTPRequests (bridge_stats (\<lambda>_. '''') 3 b) VarzPath = Some 1"
proof -
  have s: "startMonitoring example_mon_env example_monitored =
      (Ok (), snd (startMonitoring example_mon_env example_monitored))"
    using example_monitored_start(1) by (metis prod.collapse)
  show ?thesis
    using http_requests_counted [OF s example_monitored_start(2,3), of VarzPath "\<lambda>_. Inr []" "\<lambda>_. ''''"
        "[(''/varz'', 1), (''/nothing'', 2)]" 3]
    by (auto simp: hits_def path_defs)
qed

end
