(* ===== verification/Bridge.thy ===== *)
theory Bridge
  imports Monitoring "HOL-Library.List_Lexorder" "HOL-Library.Char_ord"
begin

text \<open>
  The bridge server (\<^verbatim>\<open>src/nats-mq/core/bridge.go\<close>), the handlers of the NATS and streaming
  connections (\<^verbatim>\<open>handlers.go\<close>) and the reconnect timer (\<^verbatim>\<open>reconnecttimer.go\<close>): starting, stopping, and
  the machinery that shuts down connectors that have failed and starts them again.

  Every function that runs under the lock \<^verbatim>\<open>reconnectLock\<close> is one function of the model; what runs
  between two locked parts is a task that waits, and the relation \<open>sys_step\<close> lets the tasks, the timers, the
  connections and the stopping of the server interleave in every order that the locks allow.
\<close>

section \<open>The libraries\<close>

datatype nats_option =
    MaxReconnects int
  | ReconnectWait int
  | Timeout int
  | Handlers
  | RootCAs string
  | ClientCert string string
  | UserCredentials string

datatype stan_option =
    PubAckWait int
  | MaxPubAcksInflight int
  | ConnectWait int
  | ConnectionLostHandler
  | DiscoverPrefix string

text \<open>
  The libraries as the connectors see them (each connector may get other answers), fresh identifiers,
  the order in which the runtime visits a map, the answers of the connect calls, the monitoring
  environment and the time. Waiting times are in milliseconds, as configured.
\<close>

record bridge_env =
  be_conn :: "nat \<Rightarrow> env"
  be_nuid :: "nat \<Rightarrow> string"
  be_order :: "(string \<rightharpoonup> nat) \<Rightarrow> string list"
  be_nats_connect :: "string \<Rightarrow> nats_option list \<Rightarrow> go_error option"
  be_stan_connect :: "string \<Rightarrow> string \<Rightarrow> stan_option list \<Rightarrow> go_error option"
  be_mon :: mon_env
  be_now :: int

section \<open>Connecting\<close>

fun join_comma :: "string list \<Rightarrow> string" where
  "join_comma [] = []"
| "join_comma [s] = s"
| "join_comma (s # ss) = s @ '','' @ join_comma ss"

definition natsOptions :: "NATSConfig \<Rightarrow> nats_option list" where
  "natsOptions config =
     [MaxReconnects (nats_MaxReconnects config), ReconnectWait (nats_ReconnectWait config),
      Timeout (nats_ConnectTimeout config), Handlers]
     @ (if tls_Root (nats_TLS config) \<noteq> '''' then [RootCAs (tls_Root (nats_TLS config))] else [])
     @ (if tls_Cert (nats_TLS config) \<noteq> '''' then
          [ClientCert (tls_Cert (nats_TLS config)) (tls_Key (nats_TLS config))] else [])
     @ (if nats_CredsFile config \<noteq> '''' then [UserCredentials (nats_CredsFile config)] else [])"

definition connectToNATS :: "bridge_env \<Rightarrow> BridgeServer \<Rightarrow> unit outcome \<times> BridgeServer" where
  "connectToNATS be bridge =
     (let config = cfg_NATS (br_config bridge) in
      case be_nats_connect be (join_comma (nats_Servers config)) (natsOptions config) of
        Some e \<Rightarrow> (Err e, bridge)
      | None \<Rightarrow> (Ok (), bridge\<lparr>br_nats := Some True\<rparr>))"

definition connectToSTAN :: "bridge_env \<Rightarrow> BridgeServer \<Rightarrow> unit outcome \<times> BridgeServer" where
  "connectToSTAN be bridge =
     (let config = cfg_STAN (br_config bridge) in
      if br_stan bridge then (Ok (), bridge)
      else if stan_ClusterID config = '''' then (Ok (), bridge)
      else (case be_stan_connect be (stan_ClusterID config) (stan_ClientID config)
               [PubAckWait (stan_PubAckWait config), MaxPubAcksInflight (stan_MaxPubAcksInflight config),
                ConnectWait (stan_ConnectWait config), ConnectionLostHandler,
                DiscoverPrefix (stan_DiscoverPrefix config)] of
              Some e \<Rightarrow> (Err e, bridge)
            | None \<Rightarrow> (Ok (), bridge\<lparr>br_stan := True\<rparr>)))"

section \<open>Starting and shutting down connectors\<close>

text \<open>The connector at a position, started or shut down in place; the error of a shutdown is only logged.\<close>

definition start_at :: "bridge_env \<Rightarrow> nat \<Rightarrow> BridgeServer \<Rightarrow> unit outcome \<times> BridgeServer" where
  "start_at be i bridge =
     (case Connector_Start (be_conn be i) (view_of bridge) (br_connectors bridge ! i) of
        (r, c) \<Rightarrow> (r, bridge\<lparr>br_connectors := (br_connectors bridge)[i := c]\<rparr>))"

definition shutdown_at :: "bridge_env \<Rightarrow> nat \<Rightarrow> BridgeServer \<Rightarrow> BridgeServer" where
  "shutdown_at be i bridge =
     bridge\<lparr>br_connectors := (br_connectors bridge)[i := snd (Connector_Shutdown (be_conn be i) (br_connectors bridge ! i))]\<rparr>"

fun start_from :: "bridge_env \<Rightarrow> nat list \<Rightarrow> BridgeServer \<Rightarrow> unit outcome \<times> BridgeServer" where
  "start_from be [] bridge = (Ok (), bridge)"
| "start_from be (i # is) bridge = or_return (start_at be i bridge) (\<lambda>_. start_from be is)"

definition startConnectors :: "bridge_env \<Rightarrow> BridgeServer \<Rightarrow> unit outcome \<times> BridgeServer" where
  "startConnectors be bridge = start_from be [0..<length (br_connectors bridge)] bridge"

section \<open>Start and stop\<close>

definition Start :: "bridge_env \<Rightarrow> BridgeServer \<Rightarrow> unit outcome \<times> BridgeServer" where
  "Start be bridge =
     (let bridge = bridge\<lparr>br_running := True, br_startTime := be_now be, br_replyToInfo := Map.empty,
            br_connectors := [], br_reconnect := Map.empty\<rparr> in
      or_return (connectToNATS be bridge) (\<lambda>_ bridge.
      or_return (connectToSTAN be bridge) (\<lambda>_ bridge.
      or_return (initializeConnectors (be_nuid be) bridge) (\<lambda>_ bridge.
      or_return (startConnectors be bridge) (\<lambda>_ bridge.
      or_return (startMonitoring (be_mon be) bridge) (\<lambda>_ bridge.
      (Ok (), bridge)))))))"

definition stopReconnectTimer :: "BridgeServer \<Rightarrow> BridgeServer" where
  "stopReconnectTimer bridge =
     (case br_reconnectTimer bridge of
        None \<Rightarrow> bridge
      | Some t \<Rightarrow> bridge\<lparr>br_timers := removeAll t (br_timers bridge), br_reconnectTimer := None\<rparr>)"

text \<open>The first part of \<^verbatim>\<open>Stop\<close>, and the last one after all connectors are shut down.\<close>

definition stop_begin :: "BridgeServer \<Rightarrow> BridgeServer" where
  "stop_begin bridge = stopReconnectTimer (bridge\<lparr>br_running := False\<rparr>)"

definition stop_end :: "bridge_env \<Rightarrow> BridgeServer \<Rightarrow> BridgeServer" where
  "stop_end be bridge =
     snd (StopMonitoring (be_mon be) (bridge\<lparr>br_nats := map_option (\<lambda>_. False) (br_nats bridge)\<rparr>))"

fun shutdown_all :: "bridge_env \<Rightarrow> nat list \<Rightarrow> BridgeServer \<Rightarrow> BridgeServer" where
  "shutdown_all be [] bridge = bridge"
| "shutdown_all be (i # is) bridge = shutdown_all be is (shutdown_at be i bridge)"

definition Stop :: "bridge_env \<Rightarrow> BridgeServer \<Rightarrow> BridgeServer" where
  "Stop be bridge =
     (if \<not> br_running bridge then bridge
      else (let bridge = (stop_begin bridge)\<lparr>br_reconnect := Map.empty\<rparr>
            in stop_end be (shutdown_all be [0..<length (br_connectors bridge)] bridge)))"

section \<open>Reconnecting\<close>

definition ensureReconnectTimer :: "BridgeServer \<Rightarrow> BridgeServer" where
  "ensureReconnectTimer bridge =
     (case br_reconnectTimer bridge of
        Some _ \<Rightarrow> bridge
      | None \<Rightarrow> bridge\<lparr>br_reconnectTimer := Some (br_nextTimer bridge),
          br_timers := br_timers bridge @ [br_nextTimer bridge], br_nextTimer := Suc (br_nextTimer bridge)\<rparr>)"

text \<open>The part of \<^verbatim>\<open>ConnectorError\<close> that holds the lock; the check whether the server runs comes before.\<close>

definition connectorErrorLocked :: "bridge_env \<Rightarrow> nat \<Rightarrow> BridgeServer \<Rightarrow> BridgeServer" where
  "connectorErrorLocked be i bridge =
     (let iden = id_of (br_connectors bridge ! i) in
      if br_reconnect bridge iden \<noteq> None then bridge
      else (let bridge = shutdown_at be i bridge;
                bridge = bridge\<lparr>br_reconnect := (br_reconnect bridge)(iden \<mapsto> i)\<rparr>
            in ensureReconnectTimer bridge))"

definition ConnectorError :: "bridge_env \<Rightarrow> nat \<Rightarrow> BridgeServer \<Rightarrow> BridgeServer" where
  "ConnectorError be i bridge = (if br_running bridge then connectorErrorLocked be i bridge else bridge)"

definition checkOne :: "bridge_env \<Rightarrow> nat \<Rightarrow> BridgeServer \<Rightarrow> BridgeServer" where
  "checkOne be i bridge =
     (let conn = br_connectors bridge ! i; iden = id_of conn in
      if br_reconnect bridge iden \<noteq> None then bridge
      else if Connector_CheckConnections (view_of bridge) conn = None then bridge
      else (let bridge = shutdown_at be i bridge
            in bridge\<lparr>br_reconnect := (br_reconnect bridge)(iden \<mapsto> i)\<rparr>))"

fun checkAll :: "bridge_env \<Rightarrow> nat list \<Rightarrow> BridgeServer \<Rightarrow> BridgeServer" where
  "checkAll be [] bridge = bridge"
| "checkAll be (i # is) bridge = checkAll be is (checkOne be i bridge)"

definition checkConnectionsLocked :: "bridge_env \<Rightarrow> BridgeServer \<Rightarrow> BridgeServer" where
  "checkConnectionsLocked be bridge =
     ensureReconnectTimer (checkAll be [0..<length (br_connectors bridge)] bridge)"

definition checkConnections :: "bridge_env \<Rightarrow> BridgeServer \<Rightarrow> BridgeServer" where
  "checkConnections be bridge = (if br_running bridge then checkConnectionsLocked be bridge else bridge)"

text \<open>
  The reconnect goroutine once its timer has fired and it has the lock. There is no return after a
  check that failed: the function goes on in both cases. \<open>None\<close> stands for a start that panics, which
  ends the process.
\<close>

fun restartAll :: "bridge_env \<Rightarrow> string list \<Rightarrow> BridgeServer \<Rightarrow> BridgeServer option" where
  "restartAll be [] bridge = Some bridge"
| "restartAll be (iden # idens) bridge =
     (case br_reconnect bridge iden of
        None \<Rightarrow> restartAll be idens bridge
      | Some i \<Rightarrow>
          (case start_at be i bridge of
             (Ok _, bridge') \<Rightarrow> restartAll be idens (bridge'\<lparr>br_reconnect := (br_reconnect bridge')(iden := None)\<rparr>)
           | (Err _, bridge') \<Rightarrow> restartAll be idens bridge'
           | (Panic, _) \<Rightarrow> None))"

definition retryNATS :: "BridgeServer \<Rightarrow> BridgeServer" where
  "retryNATS bridge =
     (if \<not> CheckNATS bridge then ensureReconnectTimer (bridge\<lparr>br_reconnectTimer := None\<rparr>) else bridge)"

definition retrySTAN :: "bridge_env \<Rightarrow> BridgeServer \<Rightarrow> BridgeServer" where
  "retrySTAN be bridge =
     (if br_stan bridge then bridge
      else (case connectToSTAN be bridge of
              (Ok _, bridge') \<Rightarrow> bridge'
            | (_, bridge') \<Rightarrow> ensureReconnectTimer (bridge'\<lparr>br_reconnectTimer := None\<rparr>)))"

definition reconnectBody :: "bridge_env \<Rightarrow> BridgeServer \<Rightarrow> BridgeServer option" where
  "reconnectBody be bridge =
     (let bridge = retrySTAN be (retryNATS bridge) in
      case restartAll be (be_order be (br_reconnect bridge)) bridge of
        None \<Rightarrow> None
      | Some bridge \<Rightarrow>
          (let bridge = bridge\<lparr>br_reconnectTimer := None\<rparr>
           in Some (if checkReconnecting bridge then ensureReconnectTimer bridge else bridge)))"

section \<open>Handlers of the connections\<close>

text \<open>
  The first part of \<^verbatim>\<open>stanConnectionLost\<close> is a step of its own in the interleaving model below. Handlers
  that only log are left out.
\<close>

definition loseStan :: "BridgeServer \<Rightarrow> BridgeServer" where
  "loseStan bridge = (if br_running bridge then bridge\<lparr>br_stan := False\<rparr> else bridge)"

definition stanConnectionLost :: "bridge_env \<Rightarrow> BridgeServer \<Rightarrow> BridgeServer" where
  "stanConnectionLost be bridge = (if br_running bridge then checkConnections be (loseStan bridge) else bridge)"

definition natsDisconnected :: "bridge_env \<Rightarrow> BridgeServer \<Rightarrow> BridgeServer" where
  "natsDisconnected be bridge = (if br_running bridge then checkConnections be bridge else bridge)"

definition natsClosed :: "bridge_env \<Rightarrow> BridgeServer \<Rightarrow> BridgeServer" where
  "natsClosed be bridge = (if br_running bridge then Stop be bridge else bridge)"

section \<open>Interleaving\<close>

text \<open>
  What waits: an error of the connector at a position whose call has seen that the server runs; a check of
  all connections that has seen it too; the goroutine of a timer that has fired; a stop that has
  begun and shuts down the connectors from a position on.
\<close>

datatype task = TError nat | TCheck | TFired nat | TStop nat

record sys =
  sy_bridge :: BridgeServer
  sy_tasks :: "task list"

text \<open>The order in which the runtime visits a map lists every key once.\<close>

definition visits :: "bridge_env \<Rightarrow> bool" where
  "visits be \<longleftrightarrow> (\<forall>m. finite (dom m) \<longrightarrow> distinct (be_order be m) \<and> set (be_order be m) = dom m)"

text \<open>
  The libraries may answer differently at every step, so each step chooses its own environment.
\<close>

inductive sys_step :: "sys \<Rightarrow> sys \<Rightarrow> bool" where
  raise_error: "br_running b \<Longrightarrow> i < length (br_connectors b) \<Longrightarrow>
    sys_step \<lparr>sy_bridge = b, sy_tasks = ts\<rparr> \<lparr>sy_bridge = b, sy_tasks = TError i # ts\<rparr>"
| handle_error: "sys_step \<lparr>sy_bridge = b, sy_tasks = ts @ TError i # us\<rparr>
    \<lparr>sy_bridge = connectorErrorLocked be i b, sy_tasks = ts @ us\<rparr>"
| nats_down: "br_nats b = Some True \<Longrightarrow>
    sys_step \<lparr>sy_bridge = b, sy_tasks = ts\<rparr>
      \<lparr>sy_bridge = b\<lparr>br_nats := Some False\<rparr>, sy_tasks = (if br_running b then TCheck # ts else ts)\<rparr>"
| nats_up: "br_nats b = Some False \<Longrightarrow> br_running b \<Longrightarrow>
    sys_step \<lparr>sy_bridge = b, sy_tasks = ts\<rparr> \<lparr>sy_bridge = b\<lparr>br_nats := Some True\<rparr>, sy_tasks = ts\<rparr>"
| stan_lost: "sys_step \<lparr>sy_bridge = b, sy_tasks = ts\<rparr>
    \<lparr>sy_bridge = loseStan b, sy_tasks = (if br_running b then TCheck # ts else ts)\<rparr>"
| check: "sys_step \<lparr>sy_bridge = b, sy_tasks = ts @ TCheck # us\<rparr>
    \<lparr>sy_bridge = checkConnectionsLocked be b, sy_tasks = ts @ us\<rparr>"
| fire: "t \<in> set (br_timers b) \<Longrightarrow>
    sys_step \<lparr>sy_bridge = b, sy_tasks = ts\<rparr>
      \<lparr>sy_bridge = b\<lparr>br_timers := remove1 t (br_timers b)\<rparr>, sy_tasks = TFired t # ts\<rparr>"
| reconnect: "visits be \<Longrightarrow> reconnectBody be b = Some b' \<Longrightarrow>
    sys_step \<lparr>sy_bridge = b, sy_tasks = ts @ TFired t # us\<rparr> \<lparr>sy_bridge = b', sy_tasks = ts @ us\<rparr>"
| stop: "br_running b \<Longrightarrow>
    sys_step \<lparr>sy_bridge = b, sy_tasks = ts\<rparr>
      \<lparr>sy_bridge = (stop_begin b)\<lparr>br_reconnect := Map.empty\<rparr>, sy_tasks = TStop 0 # ts\<rparr>"
| stop_next: "i < length (br_connectors b) \<Longrightarrow>
    sys_step \<lparr>sy_bridge = b, sy_tasks = ts @ TStop i # us\<rparr>
      \<lparr>sy_bridge = shutdown_at be i b, sy_tasks = ts @ TStop (Suc i) # us\<rparr>"
| stop_last: "\<not> i < length (br_connectors b) \<Longrightarrow>
    sys_step \<lparr>sy_bridge = b, sy_tasks = ts @ TStop i # us\<rparr>
      \<lparr>sy_bridge = stop_end be b, sy_tasks = ts @ us\<rparr>"

inductive reachable :: "sys \<Rightarrow> bool" where
  started: "Start be b0 = (Ok (), b) \<Longrightarrow> br_reconnectTimer b0 = None \<Longrightarrow>
    reachable \<lparr>sy_bridge = b, sy_tasks = []\<rparr>"
| step: "reachable s \<Longrightarrow> sys_step s s' \<Longrightarrow> reachable s'"

section \<open>The invariant of the bridge\<close>

definition is_connected :: "Connector \<Rightarrow> bool" where
  "is_connected c \<longleftrightarrow> st_Connected (bc_stats (base c))"

text \<open>What the map of waiting connectors refers to.\<close>

definition reconnect_ok :: "BridgeServer \<Rightarrow> bool" where
  "reconnect_ok b \<longleftrightarrow> (\<forall>iden i. br_reconnect b iden = Some i \<longrightarrow>
     i < length (br_connectors b) \<and> id_of (br_connectors b ! i) = iden)"

text \<open>Every connector that is not connected waits for its restart.\<close>

definition all_cared :: "BridgeServer \<Rightarrow> bool" where
  "all_cared b \<longleftrightarrow> (\<forall>i<length (br_connectors b). \<not> is_connected (br_connectors b ! i) \<longrightarrow>
     br_reconnect b (id_of (br_connectors b ! i)) = Some i)"

text \<open>While connectors wait there is a timer.\<close>

definition timer_set :: "BridgeServer \<Rightarrow> bool" where
  "timer_set b \<longleftrightarrow> (br_reconnect b \<noteq> Map.empty \<longrightarrow> br_reconnectTimer b \<noteq> None)"

definition idens :: "BridgeServer \<Rightarrow> string list" where
  "idens b = map id_of (br_connectors b)"

lemma id_of_Start [simp]: "id_of (snd (Connector_Start ev bv c)) = id_of c"
  using Connector_Start_frame [of ev bv c "fst (Connector_Start ev bv c)" "snd (Connector_Start ev bv c)"]
  by (auto simp: id_of_def connector_ID_def AddConnect_def)

lemma id_of_Shutdown [simp]: "id_of (snd (Connector_Shutdown ev c)) = id_of c"
  using Connector_Shutdown_frame [of ev c "fst (Connector_Shutdown ev c)" "snd (Connector_Shutdown ev c)"]
  by (auto simp: id_of_def connector_ID_def AddDisconnect_def)

lemma is_connected_Start: "is_connected (snd (Connector_Start ev bv c)) \<longleftrightarrow>
    fst (Connector_Start ev bv c) = Ok () \<or> is_connected c"
  using Connector_Start_frame [of ev bv c "fst (Connector_Start ev bv c)" "snd (Connector_Start ev bv c)"]
  by (auto simp: is_connected_def AddConnect_def)

lemma is_connected_Shutdown [simp]: "\<not> is_connected (snd (Connector_Shutdown ev c))"
  using Connector_Shutdown_frame [of ev c "fst (Connector_Shutdown ev c)" "snd (Connector_Shutdown ev c)"]
  by (auto simp: is_connected_def AddDisconnect_def)

text \<open>What the steps on single connectors change.\<close>

definition same_server :: "BridgeServer \<Rightarrow> BridgeServer \<Rightarrow> bool" where
  "same_server b b' \<longleftrightarrow> idens b' = idens b \<and> length (br_connectors b') = length (br_connectors b)
     \<and> br_running b' = br_running b \<and> br_config b' = br_config b \<and> br_nats b' = br_nats b"

lemma same_server_refl [simp]: "same_server b b"
  by (simp add: same_server_def)

lemma same_server_trans: "same_server a b \<Longrightarrow> same_server b c \<Longrightarrow> same_server a c"
  by (simp add: same_server_def)

lemma same_server_sel:
  assumes "same_server b b'"
  shows "idens b' = idens b" "length (br_connectors b') = length (br_connectors b)"
    "br_running b' = br_running b"
  using assms by (simp_all add: same_server_def)

lemma idens_update: "id_of c = id_of (br_connectors b ! i) \<Longrightarrow>
    map id_of ((br_connectors b)[i := c]) = map id_of (br_connectors b)"
  by (metis list_update_beyond list_update_id map_update not_le)

lemma same_server_steps:
  "same_server b (shutdown_at be i b)"
  "same_server b (snd (start_at be i b))"
  "same_server b (ensureReconnectTimer b)"
  "same_server b (b\<lparr>br_reconnect := m\<rparr>)"
  "same_server b (b\<lparr>br_reconnectTimer := t\<rparr>)"
  by (auto simp: same_server_def idens_def shutdown_at_def start_at_def ensureReconnectTimer_def idens_update
      split_beta split: option.splits)

lemma nth_idens: "i < length (br_connectors b) \<Longrightarrow> idens b ! i = id_of (br_connectors b ! i)"
  by (simp add: idens_def)

lemma ensure_simps [simp]:
  "br_connectors (ensureReconnectTimer b) = br_connectors b"
  "br_reconnect (ensureReconnectTimer b) = br_reconnect b"
  "br_reconnectTimer (ensureReconnectTimer b) \<noteq> None"
  "br_stan (ensureReconnectTimer b) = br_stan b"
  "br_running (ensureReconnectTimer b) = br_running b"
  by (auto simp: ensureReconnectTimer_def split: option.splits)

text \<open>The state of the connectors and of the map, without the timers; a server that stops cares no more.\<close>

definition cared :: "BridgeServer \<Rightarrow> bool" where
  "cared b \<longleftrightarrow> reconnect_ok b \<and> (br_running b \<longrightarrow> all_cared b)"

lemma cared_cong: "br_connectors b' = br_connectors b \<Longrightarrow> br_reconnect b' = br_reconnect b \<Longrightarrow>
    br_running b' = br_running b \<Longrightarrow> cared b' = cared b"
  by (simp add: cared_def reconnect_ok_def all_cared_def)

lemma cared_ensure [simp]: "cared (ensureReconnectTimer b) = cared b"
  by (rule cared_cong) simp_all

text \<open>Shutting a connector down and making it wait keeps the order.\<close>

lemma cared_shutdown:
  assumes "cared b" "distinct (idens b)" "i < length (br_connectors b)"
  shows "cared ((shutdown_at be i b)\<lparr>br_reconnect := (br_reconnect b)(id_of (br_connectors b ! i) \<mapsto> i)\<rparr>)"
proof -
  have "id_of (br_connectors b ! j) \<noteq> id_of (br_connectors b ! i)" if "j < length (br_connectors b)" "j \<noteq> i" for j
    using assms(2,3) that by (auto simp: idens_def distinct_conv_nth)
  then show ?thesis
    using assms(1,3) unfolding cared_def reconnect_ok_def all_cared_def
    by (auto simp: shutdown_at_def nth_list_update)
qed

text \<open>A start that succeeds and leaves the map, and one that fails and stays in it.\<close>

lemma view_of_cong:
  "br_nats b' = br_nats b \<Longrightarrow> br_stan b' = br_stan b \<Longrightarrow> br_replyToInfo b' = br_replyToInfo b \<Longrightarrow>
   view_of b' = view_of b"
  by (simp add: view_of_def CheckNATS_def CheckStan_def split: option.split)

lemma start_at_view: "start_at be i b = (r, b') \<Longrightarrow> view_of b' = view_of b"
  by (rule view_of_cong) (auto simp: start_at_def split_beta)

lemma start_at_sel:
  assumes "start_at be i b = (r, b')"
  shows "br_reconnect b' = br_reconnect b" "length (br_connectors b') = length (br_connectors b)"
    "br_reconnectTimer b' = br_reconnectTimer b" "br_timers b' = br_timers b" "br_stan b' = br_stan b"
    "br_running b' = br_running b"
    "j < length (br_connectors b) \<Longrightarrow> id_of (br_connectors b' ! j) = id_of (br_connectors b ! j)"
    "j < length (br_connectors b) \<Longrightarrow> is_connected (br_connectors b' ! j) \<longleftrightarrow>
       j = i \<and> r = Ok () \<or> is_connected (br_connectors b ! j)"
  using assms
  by (cases "i = j"; auto simp: start_at_def split_beta is_connected_Start)+

lemma cared_start_fails:
  assumes "cared b" "start_at be i b = (r, b')"
  shows "cared b'"
  using assms(1) unfolding cared_def reconnect_ok_def all_cared_def
  by (simp add: start_at_sel [OF assms(2)])

lemma cared_start_ok:
  assumes "cared b" "distinct (idens b)" "br_reconnect b iden = Some i" "start_at be i b = (Ok (), b')"
  shows "cared (b'\<lparr>br_reconnect := (br_reconnect b')(iden := None)\<rparr>)"
proof -
  have i: "i < length (br_connectors b)" "id_of (br_connectors b ! i) = iden"
    using assms(1,3) by (auto simp: cared_def reconnect_ok_def)
  have "id_of (br_connectors b ! j) \<noteq> iden" if "j < length (br_connectors b)" "j \<noteq> i" for j
    using assms(2) i that by (auto simp: idens_def distinct_conv_nth)
  then show ?thesis
    using assms(1) i unfolding cared_def reconnect_ok_def all_cared_def
    by (auto simp: start_at_sel [OF assms(4)])
qed

section \<open>Every step keeps the invariant\<close>

lemma restartAll_keeps:
  assumes "restartAll be ids b = Some b'" "cared b" "distinct (idens b)"
  shows "cared b' \<and> same_server b b' \<and> br_stan b' = br_stan b"
  using assms
proof (induction be ids b rule: restartAll.induct)
  case (2 be iden ids b)
  show ?case
  proof (cases "br_reconnect b iden")
    case None
    then show ?thesis using 2 by simp
  next
    case (Some i)
    obtain r b1 where s: "start_at be i b = (r, b1)" by fastforce
    have b1: "same_server b b1" using same_server_steps(2) [of b be i] s by simp
    show ?thesis
    proof (cases r)
      case (Ok u)
      let ?b = "b1\<lparr>br_reconnect := (br_reconnect b1)(iden := None)\<rparr>"
      have "cared ?b" "same_server b ?b" "br_stan ?b = br_stan b"
        using cared_start_ok [OF "2.prems"(2,3) Some] s Ok b1 same_server_steps(4) same_server_trans start_at_sel(5) [OF s]
        by auto
      moreover from this have "distinct (idens ?b)" using "2.prems"(3) same_server_sel(1) by metis
      ultimately show ?thesis
        using "2.IH"(2) [OF Some s [symmetric] Ok] "2.prems"(1) Some s Ok same_server_trans [of b ?b] by auto
    next
      case (Err e)
      have "cared b1" "distinct (idens b1)" "br_stan b1 = br_stan b"
        using cared_start_fails [OF "2.prems"(2) s] "2.prems"(3) same_server_sel(1) [OF b1] start_at_sel(5) [OF s] by auto
      then show ?thesis
        using "2.IH"(3) [OF Some s [symmetric] Err] "2.prems"(1) Some s Err b1 same_server_trans [of b b1] by auto
    next
      case Panic
      then show ?thesis using "2.prems"(1) Some s by simp
    qed
  qed
qed simp

lemma connectorErrorLocked_keeps:
  assumes "cared b" "distinct (idens b)" "i < length (br_connectors b)" "timer_set b"
    and "b' = connectorErrorLocked be i b"
  shows "cared b' \<and> same_server b b' \<and> timer_set b'"
proof (cases "br_reconnect b (id_of (br_connectors b ! i))")
  case None
  let ?b = "(shutdown_at be i b)\<lparr>br_reconnect := (br_reconnect b)(id_of (br_connectors b ! i) \<mapsto> i)\<rparr>"
  have b': "b' = ensureReconnectTimer ?b"
    using None assms(5) by (simp add: connectorErrorLocked_def Let_def shutdown_at_def)
  have "same_server b ?b"
    using same_server_steps(1) [of b be i] same_server_steps(4) same_server_trans by blast
  then show ?thesis
    using cared_shutdown [OF assms(1-3), of be] same_server_steps(3) [of ?b] same_server_trans
    by (auto simp: b' timer_set_def)
next
  case (Some j)
  then show ?thesis using assms by (simp add: connectorErrorLocked_def)
qed

lemma checkOne_keeps:
  assumes "cared b" "distinct (idens b)" "i < length (br_connectors b)"
  shows "cared (checkOne be i b) \<and> same_server b (checkOne be i b)"
proof -
  let ?b = "(shutdown_at be i b)\<lparr>br_reconnect := (br_reconnect b)(id_of (br_connectors b ! i) \<mapsto> i)\<rparr>"
  have "checkOne be i b = b \<or> checkOne be i b = ?b"
    by (simp add: checkOne_def Let_def shutdown_at_def)
  moreover have "same_server b ?b"
    using same_server_steps(1) [of b be i] same_server_steps(4) same_server_trans by blast
  ultimately show ?thesis using cared_shutdown [OF assms] assms(1) by auto
qed

lemma checkAll_keeps:
  assumes "cared b" "distinct (idens b)" "\<forall>i\<in>set is. i < length (br_connectors b)"
  shows "cared (checkAll be is b) \<and> same_server b (checkAll be is b)"
  using assms
proof (induction "is" arbitrary: b)
  case (Cons i "is")
  let ?b = "checkOne be i b"
  have 1: "cared ?b" "same_server b ?b" using checkOne_keeps [of b i be] Cons.prems by auto
  then have "distinct (idens ?b)" "\<forall>i\<in>set is. i < length (br_connectors ?b)"
    using Cons.prems same_server_sel [OF 1(2)] by auto
  then show ?case using Cons.IH [OF 1(1)] same_server_trans [OF 1(2)] by simp
qed simp

lemma checkConnectionsLocked_keeps:
  assumes "cared b" "distinct (idens b)" "b' = checkConnectionsLocked be b"
  shows "cared b' \<and> same_server b b' \<and> timer_set b'"
  using checkAll_keeps [OF assms(1,2), of "[0..<length (br_connectors b)]" be] same_server_steps(3) same_server_trans
  by (auto simp: assms(3) checkConnectionsLocked_def timer_set_def)

lemma retry_sel:
  "br_connectors (retryNATS b) = br_connectors b" "br_reconnect (retryNATS b) = br_reconnect b"
  "br_connectors (retrySTAN be b) = br_connectors b" "br_reconnect (retrySTAN be b) = br_reconnect b"
  "br_running (retryNATS b) = br_running b" "br_running (retrySTAN be b) = br_running b"
  "br_config (retryNATS b) = br_config b" "br_config (retrySTAN be b) = br_config b"
  "br_nats (retryNATS b) = br_nats b" "br_nats (retrySTAN be b) = br_nats b"
  "br_stan (retryNATS b) = br_stan b"
  by (auto simp: retryNATS_def retrySTAN_def connectToSTAN_def ensureReconnectTimer_def Let_def
      split: option.splits outcome.splits)

text \<open>The current timer, if there is one, is among those that wait.\<close>

definition timer_waits :: "BridgeServer \<Rightarrow> bool" where
  "timer_waits b \<longleftrightarrow> (\<forall>t. br_reconnectTimer b = Some t \<longrightarrow> t \<in> set (br_timers b))"

lemma reconnectBody_keeps:
  assumes "reconnectBody be b = Some b'" "cared b" "distinct (idens b)"
  shows "cared b' \<and> same_server b b' \<and> timer_set b' \<and> timer_waits b'"
proof -
  define b1 where "b1 = retrySTAN be (retryNATS b)"
  have sel: "br_connectors b1 = br_connectors b" "br_reconnect b1 = br_reconnect b" "br_running b1 = br_running b"
    "br_config b1 = br_config b" "br_nats b1 = br_nats b"
    by (simp_all add: b1_def retry_sel)
  have b1: "cared b1" "same_server b b1" "distinct (idens b1)"
    using cared_cong [OF sel(1-3)] assms(2,3) by (simp_all add: same_server_def idens_def sel)
  obtain b2 where b2: "restartAll be (be_order be (br_reconnect b1)) b1 = Some b2"
    and b': "b' = (if checkReconnecting (b2\<lparr>br_reconnectTimer := None\<rparr>)
      then ensureReconnectTimer (b2\<lparr>br_reconnectTimer := None\<rparr>) else b2\<lparr>br_reconnectTimer := None\<rparr>)"
    using assms(1) by (auto simp: reconnectBody_def b1_def Let_def split: option.splits)
  have 2: "cared b2" "same_server b1 b2" using restartAll_keeps [OF b2 b1(1,3)] by auto
  have "cared (b2\<lparr>br_reconnectTimer := None\<rparr>)"
    using 2(1) cared_cong [of "b2\<lparr>br_reconnectTimer := None\<rparr>" b2] by simp
  moreover have "same_server b (b2\<lparr>br_reconnectTimer := None\<rparr>)"
    using b1(2) 2(2) same_server_steps(5) same_server_trans by blast
  moreover have "same_server b (ensureReconnectTimer (b2\<lparr>br_reconnectTimer := None\<rparr>))"
    using calculation(2) same_server_steps(3) same_server_trans by blast
  ultimately have "cared b'" "same_server b b'" unfolding b' by simp_all
  moreover have "timer_set b'" by (auto simp: b' timer_set_def checkReconnecting_def ensureReconnectTimer_def)
  moreover have "timer_waits b'" by (simp add: b' timer_waits_def ensureReconnectTimer_def)
  ultimately show ?thesis by simp
qed

section \<open>Reachable states\<close>

text \<open>The current timer waits, or its goroutine has fired and waits for the lock.\<close>

definition timer_alive :: "sys \<Rightarrow> bool" where
  "timer_alive s \<longleftrightarrow> (\<forall>t. br_reconnectTimer (sy_bridge s) = Some t \<longrightarrow>
     t \<in> set (br_timers (sy_bridge s)) \<or> TFired t \<in> set (sy_tasks s))"

text \<open>Errors name connectors that exist, and a server that is being stopped does not run.\<close>

definition tasks_ok :: "sys \<Rightarrow> bool" where
  "tasks_ok s \<longleftrightarrow> (\<forall>i. TError i \<in> set (sy_tasks s) \<longrightarrow> i < length (br_connectors (sy_bridge s)))
     \<and> (br_running (sy_bridge s) \<longrightarrow> (\<forall>i. TStop i \<notin> set (sy_tasks s)))"

definition sys_inv :: "sys \<Rightarrow> bool" where
  "sys_inv s \<longleftrightarrow> cared (sy_bridge s) \<and> timer_set (sy_bridge s) \<and> timer_alive s \<and> tasks_ok s"

lemmas sys_inv_defs = sys_inv_def timer_alive_def tasks_ok_def

text \<open>The timers of a step that only adds timers.\<close>

definition timers_grow :: "BridgeServer \<Rightarrow> BridgeServer \<Rightarrow> bool" where
  "timers_grow b b' \<longleftrightarrow> set (br_timers b) \<subseteq> set (br_timers b')
     \<and> (br_reconnectTimer b' = br_reconnectTimer b \<or> timer_waits b')"

lemma timers_grow_ensure: "timers_grow b (ensureReconnectTimer b)"
  by (auto simp: timers_grow_def ensureReconnectTimer_def timer_waits_def split: option.splits)

lemma timers_checkAll: "br_timers (checkAll be is b) = br_timers b \<and> br_reconnectTimer (checkAll be is b) = br_reconnectTimer b"
  by (induction be "is" b rule: checkAll.induct) (auto simp: checkOne_def shutdown_at_def Let_def)

lemma timers_grow_steps:
  "timers_grow b (connectorErrorLocked be i b)"
  "timers_grow b (checkConnectionsLocked be b)"
proof -
  show "timers_grow b (connectorErrorLocked be i b)"
    using timers_grow_ensure [of "(shutdown_at be i b)\<lparr>br_reconnect :=
        (br_reconnect (shutdown_at be i b))(id_of (br_connectors b ! i) \<mapsto> i)\<rparr>"]
    by (auto simp: connectorErrorLocked_def Let_def timers_grow_def shutdown_at_def)
  show "timers_grow b (checkConnectionsLocked be b)"
    using timers_grow_ensure [of "checkAll be [0..<length (br_connectors b)] b"]
      timers_checkAll [of be "[0..<length (br_connectors b)]" b]
    by (auto simp: checkConnectionsLocked_def timers_grow_def)
qed

lemma timer_alive_grow:
  assumes "timer_alive \<lparr>sy_bridge = b, sy_tasks = ts\<rparr>" "timers_grow b b'"
    and "\<And>t. TFired t \<in> set ts \<Longrightarrow> TFired t \<in> set ts'"
  shows "timer_alive \<lparr>sy_bridge = b', sy_tasks = ts'\<rparr>"
  using assms by (auto simp: timer_alive_def timers_grow_def timer_waits_def)

lemma cared_nats: "cared (b\<lparr>br_nats := x\<rparr>) = cared b" "cared (b\<lparr>br_timers := y\<rparr>) = cared b"
  by (rule cared_cong; simp)+

lemma loseStan_sel [simp]:
  "br_connectors (loseStan b) = br_connectors b" "br_reconnect (loseStan b) = br_reconnect b"
  "br_running (loseStan b) = br_running b" "br_timers (loseStan b) = br_timers b"
  "br_reconnectTimer (loseStan b) = br_reconnectTimer b"
  by (simp_all add: loseStan_def)

lemma stop_begin_sel [simp]:
  "br_connectors (stop_begin b) = br_connectors b" "br_running (stop_begin b) = False"
  "br_reconnectTimer (stop_begin b) = None"
  by (auto simp: stop_begin_def stopReconnectTimer_def split: option.splits)

lemma stop_end_sel [simp]:
  "br_connectors (stop_end be b) = br_connectors b" "br_reconnect (stop_end be b) = br_reconnect b"
  "br_running (stop_end be b) = br_running b" "br_timers (stop_end be b) = br_timers b"
  "br_reconnectTimer (stop_end be b) = br_reconnectTimer b"
  "br_nats (stop_end be b) = map_option (\<lambda>_. False) (br_nats b)"
  using StopMonitoring_frame [of "be_mon be" "b\<lparr>br_nats := map_option (\<lambda>_. False) (br_nats b)\<rparr>"
      "fst (StopMonitoring (be_mon be) (b\<lparr>br_nats := map_option (\<lambda>_. False) (br_nats b)\<rparr>))"
      "stop_end be b"]
  by (simp_all add: stop_end_def)

lemma shutdown_at_sel [simp]:
  "length (br_connectors (shutdown_at be i b)) = length (br_connectors b)"
  "br_reconnect (shutdown_at be i b) = br_reconnect b" "br_running (shutdown_at be i b) = br_running b"
  "br_timers (shutdown_at be i b) = br_timers b" "br_reconnectTimer (shutdown_at be i b) = br_reconnectTimer b"
  by (simp_all add: shutdown_at_def)

lemma reconnect_ok_shutdown: "reconnect_ok b \<Longrightarrow> reconnect_ok (shutdown_at be i b)"
  unfolding reconnect_ok_def
  by (metis (no_types, lifting) idens_def nth_map same_server_sel(1) same_server_steps(1) shutdown_at_sel(1,2))

text \<open>Identifiers never change.\<close>

lemma same_server_shutdown: "same_server b ((shutdown_at be i b)\<lparr>br_reconnect := m\<rparr>)"
  using same_server_steps(1,4) same_server_trans by blast

lemma same_server_checkAll: "same_server b (checkAll be is b)"
proof (induction "is" arbitrary: b)
  case (Cons i "is")
  have "same_server b (checkOne be i b)" by (simp add: checkOne_def Let_def same_server_shutdown)
  then show ?case using Cons same_server_trans by simp
qed simp

lemma same_server_restartAll: "restartAll be ids b = Some b' \<Longrightarrow> same_server b b'"
proof (induction ids arbitrary: b)
  case (Cons iden ids)
  show ?case
  proof (cases "br_reconnect b iden")
    case (Some i)
    obtain r b1 where s: "start_at be i b = (r, b1)" by fastforce
    have "same_server b b1" "same_server b (b1\<lparr>br_reconnect := m\<rparr>)" for m
      using same_server_steps(2) [of b be i] s same_server_steps(4) same_server_trans by auto
    then show ?thesis
      using Cons Some s same_server_trans by (cases r) (auto, blast+)
  qed (use Cons in simp)
qed simp

lemma same_server_reconnectBody:
  assumes "reconnectBody be b = Some b'"
  shows "idens b' = idens b"
proof -
  obtain b2 where r: "restartAll be (be_order be (br_reconnect (retrySTAN be (retryNATS b))))
      (retrySTAN be (retryNATS b)) = Some b2" "br_connectors b' = br_connectors b2"
    using assms by (auto simp: reconnectBody_def Let_def split: option.splits)
  show ?thesis
    using same_server_sel(1) [OF same_server_restartAll [OF r(1)]] r(2) by (simp add: idens_def retry_sel)
qed

lemma sys_step_idens: "sys_step s s' \<Longrightarrow> idens (sy_bridge s') = idens (sy_bridge s)"
proof (induction rule: sys_step.induct)
  case (handle_error b ts i us be)
  have "idens ((shutdown_at be i b)\<lparr>br_reconnect := m\<rparr>) = idens b" for m
    using same_server_sel(1) [OF same_server_shutdown] .
  then show ?case by (simp add: connectorErrorLocked_def idens_def Let_def)
next
  case (check b ts us be)
  show ?case using same_server_sel(1) [OF same_server_checkAll]
    by (simp add: checkConnectionsLocked_def idens_def)
next
  case (stop_next i b ts us be)
  show ?case using same_server_sel(1) [OF same_server_steps(1)] by simp
qed (auto simp: idens_def dest: same_server_reconnectBody [unfolded idens_def])

lemma sys_step_inv: "sys_step s s' \<Longrightarrow> sys_inv s \<Longrightarrow> distinct (idens (sy_bridge s)) \<Longrightarrow> sys_inv s'"
proof (induction rule: sys_step.induct)
  case (handle_error b ts i us be)
  have "cared (connectorErrorLocked be i b) \<and> same_server b (connectorErrorLocked be i b) \<and> timer_set (connectorErrorLocked be i b)"
    using connectorErrorLocked_keeps handle_error by (auto simp: sys_inv_defs)
  moreover have "timer_alive \<lparr>sy_bridge = connectorErrorLocked be i b, sy_tasks = ts @ us\<rparr>"
    by (rule timer_alive_grow [OF _ timers_grow_steps(1)]) (use handle_error in \<open>auto simp: sys_inv_def\<close>)
  ultimately show ?case using handle_error same_server_sel(2,3) by (fastforce simp: sys_inv_def tasks_ok_def)
next
  case (check b ts us be)
  have "cared (checkConnectionsLocked be b) \<and> same_server b (checkConnectionsLocked be b) \<and> timer_set (checkConnectionsLocked be b)"
    using checkConnectionsLocked_keeps check by (auto simp: sys_inv_defs)
  moreover have "timer_alive \<lparr>sy_bridge = checkConnectionsLocked be b, sy_tasks = ts @ us\<rparr>"
    by (rule timer_alive_grow [OF _ timers_grow_steps(2)]) (use check in \<open>auto simp: sys_inv_def\<close>)
  ultimately show ?case using check same_server_sel(2,3) by (fastforce simp: sys_inv_def tasks_ok_def)
next
  case (reconnect be b b' ts t us)
  have "cared b' \<and> same_server b b' \<and> timer_set b' \<and> timer_waits b'"
    using reconnectBody_keeps reconnect by (auto simp: sys_inv_defs)
  then show ?case using reconnect same_server_sel(2,3) by (fastforce simp: sys_inv_defs timer_waits_def)
next
  case (stop_next i b ts us be)
  then show ?case
    using reconnect_ok_shutdown by (fastforce simp: sys_inv_defs cared_def timer_set_def)
next
  case (stop_last i b ts us be)
  then show ?case
    using cared_cong [of "stop_end be b" b] by (fastforce simp: sys_inv_defs timer_set_def)
next
  case (stop b ts)
  then show ?case by (auto simp: sys_inv_defs timer_set_def cared_def reconnect_ok_def)
next
  case (stan_lost b ts)
  then show ?case
    using cared_cong [of "loseStan b" b] by (auto simp: sys_inv_defs timer_set_def)
next
  case (fire t b ts)
  have "t' \<in> set (br_timers b) \<Longrightarrow> t' \<in> set (remove1 t (br_timers b)) \<or> t' = t" for t'
    by (metis in_set_remove1)
  then show ?case using fire by (fastforce simp: sys_inv_defs timer_set_def cared_nats)
qed (auto simp: sys_inv_defs timer_set_def cared_nats)

text \<open>A server that has just started has all its connectors connected.\<close>

lemma start_from_spec:
  assumes "start_from be is b = (Ok (), b')"
  shows "length (br_connectors b') = length (br_connectors b) \<and> br_reconnect b' = br_reconnect b
    \<and> br_running b' = br_running b \<and> br_reconnectTimer b' = br_reconnectTimer b \<and> br_timers b' = br_timers b
    \<and> br_config b' = br_config b \<and> idens b' = idens b
    \<and> (\<forall>j<length (br_connectors b). j \<in> set is \<or> is_connected (br_connectors b ! j) \<longrightarrow> is_connected (br_connectors b' ! j))"
  using assms
proof (induction "is" arbitrary: b)
  case (Cons i "is")
  then obtain b1 where s: "start_at be i b = (Ok (), b1)" "start_from be is b1 = (Ok (), b')"
    by (auto simp: or_return_eq_Ok)
  have "br_config b1 = br_config b" "idens b1 = idens b"
    using same_server_steps(2) [of b be i] s(1) by (simp_all add: same_server_def)
  then show ?case using Cons.IH [OF s(2)] start_at_sel [OF s(1)] by auto
qed simp

lemma Start_spec:
  assumes "Start be b0 = (Ok (), b)"
  shows "br_running b \<and> br_reconnect b = Map.empty \<and> br_reconnectTimer b = br_reconnectTimer b0
    \<and> br_config b = br_config b0 \<and> length (br_connectors b) = length (cfg_Connect (br_config b0))
    \<and> (\<forall>i<length (br_connectors b). is_connected (br_connectors b ! i))"
proof -
  define b1 where "b1 = b0\<lparr>br_running := True, br_startTime := be_now be, br_replyToInfo := Map.empty,
            br_connectors := [], br_reconnect := Map.empty\<rparr>"
  obtain b2 b3 b4 b5 where s: "connectToNATS be b1 = (Ok (), b2)" "connectToSTAN be b2 = (Ok (), b3)"
    "initializeConnectors (be_nuid be) b3 = (Ok (), b4)" "startConnectors be b4 = (Ok (), b5)"
    "startMonitoring (be_mon be) b5 = (Ok (), b)"
    using assms by (auto simp: Start_def or_return_eq_Ok Let_def b1_def)
  have b3: "br_running b3 \<and> br_reconnect b3 = Map.empty \<and> br_reconnectTimer b3 = br_reconnectTimer b0
      \<and> br_config b3 = br_config b0 \<and> br_connectors b3 = []"
    using s(1,2)
    by (auto simp: connectToNATS_def connectToSTAN_def b1_def Let_def split: option.splits if_splits)
  then have "br_running b4 \<and> br_reconnect b4 = Map.empty \<and> br_reconnectTimer b4 = br_reconnectTimer b0
      \<and> br_config b4 = br_config b0 \<and> length (br_connectors b4) = length (cfg_Connect (br_config b0))"
    using s(3) createConnectors_spec [of "be_nuid be" "cfg_Connect (br_config b0)" "[]"]
    by (auto simp: initializeConnectors_def split: prod.splits)
  moreover note start_from_spec [OF s(4) [unfolded startConnectors_def]] startMonitoring_frame [OF s(5)]
  ultimately show ?thesis by simp
qed

lemma reachable_inv:
  assumes "reachable s" "distinct (idens (sy_bridge s))"
  shows "sys_inv s"
  using assms
proof (induction rule: reachable.induct)
  case (started be b0 b)
  then show ?case using Start_spec [OF started(1)]
    by (auto simp: sys_inv_defs cared_def reconnect_ok_def all_cared_def timer_set_def)
next
  case (step s s')
  then show ?case using sys_step_inv sys_step_idens by metis
qed


section \<open>Starts that succeed\<close>

text \<open>Libraries that answer every call of a start.\<close>

definition answers :: "env \<Rightarrow> bool" where
  "answers ev \<longleftrightarrow> (\<forall>cs n opts. ext_Connx ev cs n opts = None) \<and> (\<forall>cs c. ext_Open ev cs c = None)
     \<and> (\<forall>cs. ext_Ctl ev cs = None) \<and> (\<forall>cs x. ext_CB ev cs x = None)
     \<and> (\<forall>cs s q. ext_nats_sub ev cs s q = None) \<and> (\<forall>cs c opts. ext_stan_sub ev cs c opts = None)
     \<and> (\<forall>cs. \<not> isl (CrtMH (ext_mqlib ev cs)))"

definition buffer_ok :: "Connector \<Rightarrow> bool" where
  "buffer_ok c \<longleftrightarrow> 0 \<le> cfg_IncomingBufferSize (bc_config (base c))"

lemma createHandle_answers:
  assumes "answers ev"
  obtains h where "createHandle ev mq = (Ok h, add_call (CrtMH_call True) mq)"
proof -
  have "\<not> isl (CrtMH (ext_mqlib ev (bc_calls mq)))" using assms by (simp add: answers_def)
  then obtain h where "CrtMH (ext_mqlib ev (bc_calls mq)) = Inr h" by (metis sum.collapse(2))
  then show thesis using that by (simp add: createHandle_def)
qed

lemma setUpListener_answers:
  assumes "answers ev" "0 \<le> cfg_IncomingBufferSize (bc_config mq)"
  shows "\<exists>cb mq'. setUpListener ev t mq = (Ok cb, mq')"
proof -
  obtain h where "createHandle ev mq = (Ok h, add_call (CrtMH_call True) mq)"
    by (rule createHandle_answers [OF assms(1)])
  then show ?thesis
    using assms by (simp add: setUpListener_def setUpPolling_def setUpCallback_def call_new_def answers_def Let_def)
qed

lemma starts_answer:
  assumes "answers ev"
  shows "0 \<le> cfg_IncomingBufferSize (bc_config a) \<Longrightarrow> fst (ql_start ev a) = Ok ()"
    and "0 \<le> cfg_IncomingBufferSize (bc_config b) \<Longrightarrow> fst (tl_start ev b) = Ok ()"
    and "fst (qp_start ev (nats_subscribe ev) c) = Ok ()" and "fst (tp_start ev (nats_subscribe ev) d) = Ok ()"
    and "bv_Stan bv \<Longrightarrow> fst (qp_start ev (subscribeToChannel ev bv) c) = Ok ()"
    and "bv_Stan bv \<Longrightarrow> fst (tp_start ev (subscribeToChannel ev bv) d) = Ok ()"
proof -
  note ans = assms [unfolded answers_def]
  note defs = connectToMQ_def ConnectToQueueManager_def connectToQueue_def connectToTopic_def
    subscribeToTopic_def subscribeToNATS_def subscribeToChannel_def call_new_def add_call_def Let_def
  show "fst (ql_start ev a) = Ok ()" if pos: "0 \<le> cfg_IncomingBufferSize (bc_config a)"
  proof -
    let ?m = "a\<lparr>bc_qMgr := Some (length (bc_calls a)), bc_calls := bc_calls a @
        [Connx (mq_QueueManager (cfg_MQ (bc_config a))) True, OpenQueue (cfg_Queue (bc_config a)) MQOO_INPUT_SHARED True],
        ql_queue := Some (QueueObj (Suc (length (bc_calls a))))\<rparr>"
    obtain cb m' where "setUpListener ev (QueueObj (Suc (length (bc_calls a)))) ?m = (Ok cb, m')"
      using setUpListener_answers [OF assms, of ?m "QueueObj (Suc (length (bc_calls a)))"] pos by auto
    then show ?thesis using ans by (simp add: ql_start_def defs)
  qed
  show "fst (tl_start ev b) = Ok ()" if pos: "0 \<le> cfg_IncomingBufferSize (bc_config b)"
  proof -
    let ?n = "Suc (length (bc_calls b))"
    let ?m = "b\<lparr>bc_qMgr := Some (length (bc_calls b)), bc_calls := bc_calls b @
        [Connx (mq_QueueManager (cfg_MQ (bc_config b))) True, SubTopic (cfg_Topic (bc_config b)) True],
        tl_topic := Some (TopicObj ?n), tl_sub := Some (SubObj ?n)\<rparr>"
    obtain cb m' where "setUpListener ev (TopicObj ?n) ?m = (Ok cb, m')"
      using setUpListener_answers [OF assms, of ?m "TopicObj ?n"] pos by auto
    then show ?thesis using ans by (simp add: tl_start_def defs)
  qed
qed (use assms [unfolded answers_def] in \<open>simp_all add: qp_start_def tp_start_def connectToMQ_def ConnectToQueueManager_def
    connectToQueue_def connectToTopic_def subscribeToNATS_def subscribeToChannel_def call_new_def add_call_def Let_def\<close>)

lemma Connector_Start_answers:
  assumes "answers ev" "buffer_ok c" "bv_CheckNATS bv" "needs_stan c \<longrightarrow> bv_CheckStan bv \<and> bv_Stan bv"
  shows "fst (Connector_Start ev bv c) = Ok ()"
  using assms(2-4) starts_answer [OF assms(1)] by (cases c) (simp_all add: start_shapes buffer_ok_def)

section \<open>Recovery\<close>

text \<open>The circumstances in which one run of the reconnect goroutine repairs everything.\<close>

definition recovers :: "bridge_env \<Rightarrow> BridgeServer \<Rightarrow> bool" where
  "recovers be b \<longleftrightarrow> visits be \<and> br_nats b = Some True \<and> (\<forall>i. answers (be_conn be i))
     \<and> (\<forall>c i opts. be_stan_connect be c i opts = None)
     \<and> (\<forall>c\<in>set (br_connectors b). buffer_ok c
          \<and> (needs_stan c \<longrightarrow> br_stan b \<or> stan_ClusterID (cfg_STAN (br_config b)) \<noteq> ''''))"

text \<open>The same without the streaming server, once its connection is there.\<close>

definition startable :: "bridge_env \<Rightarrow> BridgeServer \<Rightarrow> bool" where
  "startable be b \<longleftrightarrow> br_nats b = Some True \<and> (\<forall>i. answers (be_conn be i))
     \<and> (\<forall>c\<in>set (br_connectors b). buffer_ok c \<and> (needs_stan c \<longrightarrow> br_stan b))"

lemma start_at_startable:
  assumes "startable be b" "i < length (br_connectors b)"
  shows "\<exists>b'. start_at be i b = (Ok (), b') \<and> startable be b'"
proof -
  let ?c = "br_connectors b ! i"
  obtain r c' where s: "Connector_Start (be_conn be i) (view_of b) ?c = (r, c')" by fastforce
  have c: "?c \<in> set (br_connectors b)" using assms(2) by simp
  have "r = Ok ()"
    using Connector_Start_answers [of "be_conn be i" ?c "view_of b"] assms(1) c s
    by (auto simp: startable_def view_of_def CheckNATS_def CheckStan_def)
  moreover have "buffer_ok c' = buffer_ok ?c" "needs_stan c' = needs_stan ?c"
    using Connector_Start_frame [OF s] by (simp_all add: buffer_ok_def)
  ultimately show ?thesis
    using s assms(1) c set_update_subset_insert [of "br_connectors b" i c']
    by (auto simp: start_at_def startable_def)
qed

lemma restartAll_startable:
  assumes "startable be b" "reconnect_ok b"
  shows "\<exists>b'. restartAll be ids b = Some b' \<and> br_reconnect b' = br_reconnect b |` (- set ids)"
  using assms
proof (induction ids arbitrary: b)
  case Nil
  then show ?case by simp
next
  case (Cons iden ids)
  show ?case
  proof (cases "br_reconnect b iden")
    case None
    obtain b' where "restartAll be ids b = Some b'" "br_reconnect b' = br_reconnect b |` (- set ids)"
      using Cons.IH [OF Cons.prems] by blast
    then show ?thesis using None by (auto simp: fun_eq_iff restrict_map_def)
  next
    case (Some i)
    have i: "i < length (br_connectors b)" using Cons.prems(2) Some by (auto simp: reconnect_ok_def)
    obtain b1 where s: "start_at be i b = (Ok (), b1)" "startable be b1"
      using start_at_startable [OF Cons.prems(1) i] by blast
    let ?b = "b1\<lparr>br_reconnect := (br_reconnect b1)(iden := None)\<rparr>"
    have "startable be ?b" "reconnect_ok ?b"
      using s(2) Cons.prems(2) start_at_sel [OF s(1)] by (auto simp: startable_def reconnect_ok_def)
    from Cons.IH [OF this] obtain b' where "restartAll be ids ?b = Some b'"
      "br_reconnect b' = br_reconnect ?b |` (- set ids)" by blast
    moreover have "br_reconnect ?b |` (- set ids) = br_reconnect b |` (- set (iden # ids))"
      using start_at_sel(1) [OF s(1)] by (auto simp: fun_eq_iff restrict_map_def)
    ultimately show ?thesis using Some s(1) by simp
  qed
qed

lemma reconnect_finite: "reconnect_ok b \<Longrightarrow> finite (dom (br_reconnect b))"
proof -
  assume "reconnect_ok b"
  then have "dom (br_reconnect b) \<subseteq> set (idens b)"
    by (fastforce simp: reconnect_ok_def idens_def dom_def intro: nth_mem)
  then show ?thesis by (rule finite_subset) simp
qed

lemma reconnectBody_recovers:
  assumes "recovers be b" "reconnect_ok b"
  shows "\<exists>b'. reconnectBody be b = Some b' \<and> br_reconnect b' = Map.empty"
proof -
  define b1 where "b1 = retrySTAN be (retryNATS b)"
  have sel: "br_connectors b1 = br_connectors b" "br_reconnect b1 = br_reconnect b" "br_nats b1 = br_nats b"
    by (simp_all add: b1_def retry_sel)
  have "retryNATS b = b" using assms(1) by (simp add: retryNATS_def recovers_def CheckNATS_def)
  then have "br_stan b1 = (br_stan b \<or> stan_ClusterID (cfg_STAN (br_config b)) \<noteq> '''')"
    using assms(1) by (simp add: b1_def retrySTAN_def connectToSTAN_def recovers_def Let_def)
  then have st: "startable be b1" using assms(1) sel by (auto simp: startable_def recovers_def)
  have ok: "reconnect_ok b1" using assms(2) sel by (simp add: reconnect_ok_def)
  obtain b2 where b2: "restartAll be (be_order be (br_reconnect b1)) b1 = Some b2"
    "br_reconnect b2 = br_reconnect b1 |` (- set (be_order be (br_reconnect b1)))"
    using restartAll_startable [OF st ok] by blast
  have "set (be_order be (br_reconnect b1)) = dom (br_reconnect b1)"
    using assms(1) reconnect_finite [OF ok] by (simp add: recovers_def visits_def)
  then have "br_reconnect b2 = Map.empty" using b2(2) by (auto simp: fun_eq_iff restrict_map_def dom_def)
  then show ?thesis using b2(1) by (simp add: reconnectBody_def b1_def checkReconnecting_def Let_def)
qed

lemma all_connected:
  "cared b \<Longrightarrow> br_running b \<Longrightarrow> br_reconnect b = Map.empty \<Longrightarrow> \<forall>c\<in>set (br_connectors b). is_connected c"
  by (auto simp: cared_def all_cared_def in_set_conv_nth)

text \<open>The goroutine of the current timer fires, if it has not, and runs.\<close>

lemma reconnect_path:
  assumes "reconnectBody be b = Some b'" "visits be" "br_reconnectTimer b = Some t"
    and "timer_alive \<lparr>sy_bridge = b, sy_tasks = ts\<rparr>"
    and "\<And>x. reconnectBody be (b\<lparr>br_timers := x\<rparr>) \<noteq> None"
  shows "\<exists>b2 ts2 x. sys_step\<^sup>*\<^sup>* \<lparr>sy_bridge = b, sy_tasks = ts\<rparr> \<lparr>sy_bridge = b2, sy_tasks = ts2\<rparr>
    \<and> reconnectBody be (b\<lparr>br_timers := x\<rparr>) = Some b2"
proof (cases "TFired t \<in> set ts")
  case True
  then obtain us vs where "ts = us @ TFired t # vs" by (metis split_list)
  then have "sys_step \<lparr>sy_bridge = b, sy_tasks = ts\<rparr> \<lparr>sy_bridge = b', sy_tasks = us @ vs\<rparr>"
    using sys_step.reconnect [OF assms(2,1)] by simp
  then show ?thesis using assms(1)
    by (intro exI [of _ b'] exI [of _ "us @ vs"] exI [of _ "br_timers b"] conjI r_into_rtranclp) simp_all
next
  case False
  then have t: "t \<in> set (br_timers b)" using assms(3,4) by (auto simp: timer_alive_def)
  let ?b = "b\<lparr>br_timers := remove1 t (br_timers b)\<rparr>"
  obtain b2 where b2: "reconnectBody be ?b = Some b2" using assms(5) by blast
  have "sys_step \<lparr>sy_bridge = b, sy_tasks = ts\<rparr> \<lparr>sy_bridge = ?b, sy_tasks = TFired t # ts\<rparr>"
    by (rule sys_step.fire [OF t])
  moreover have "sys_step \<lparr>sy_bridge = ?b, sy_tasks = [] @ TFired t # ts\<rparr> \<lparr>sy_bridge = b2, sy_tasks = [] @ ts\<rparr>"
    by (rule sys_step.reconnect [OF assms(2) b2])
  ultimately have "sys_step\<^sup>*\<^sup>* \<lparr>sy_bridge = b, sy_tasks = ts\<rparr> \<lparr>sy_bridge = b2, sy_tasks = ts\<rparr>" by simp
  then show ?thesis using b2 by blast
qed

section \<open>Timers that multiply\<close>

lemma start_at_down:
  assumes "br_nats b = Some False"
  shows "\<exists>e. start_at be i b = (Err e, b)"
proof -
  have v: "\<not> bv_CheckNATS (view_of b)" "\<not> bv_CheckStan (view_of b)"
    using assms by (simp_all add: view_of_def CheckNATS_def CheckStan_def)
  obtain e where "Connector_Start (be_conn be i) (view_of b) (br_connectors b ! i) = (Err e, br_connectors b ! i)"
    using v by (cases "br_connectors b ! i") (simp_all add: start_shapes)
  then show ?thesis by (simp add: start_at_def)
qed

lemma restartAll_down: "br_nats b = Some False \<Longrightarrow> restartAll be ids b = Some b"
proof (induction ids)
  case (Cons iden ids)
  show ?case
  proof (cases "br_reconnect b iden")
    case (Some i)
    obtain e where "start_at be i b = (Err e, b)" using start_at_down [OF Cons.prems] by blast
    then show ?thesis using Cons Some by simp
  qed (use Cons in simp)
qed simp

text \<open>
  The oldest of the waiting timers fires and its goroutine runs; \<open>fire_times\<close> does so a number of
  times, and a round lets every timer fire that waits at its beginning.
\<close>

definition fire_oldest :: "bridge_env \<Rightarrow> BridgeServer \<Rightarrow> BridgeServer option" where
  "fire_oldest be b = (case br_timers b of [] \<Rightarrow> Some b | t # ts \<Rightarrow> reconnectBody be (b\<lparr>br_timers := ts\<rparr>))"

fun fire_times :: "bridge_env \<Rightarrow> nat \<Rightarrow> BridgeServer \<Rightarrow> BridgeServer option" where
  "fire_times be 0 b = Some b"
| "fire_times be (Suc n) b = Option.bind (fire_oldest be b) (fire_times be n)"

fun timer_rounds :: "bridge_env \<Rightarrow> nat \<Rightarrow> BridgeServer \<Rightarrow> BridgeServer option" where
  "timer_rounds be 0 b = Some b"
| "timer_rounds be (Suc n) b = Option.bind (fire_times be (length (br_timers b)) b) (timer_rounds be n)"

text \<open>NATS is down, connectors wait, and streaming is up or not configured.\<close>

definition outage :: "BridgeServer \<Rightarrow> bool" where
  "outage b \<longleftrightarrow> br_nats b = Some False \<and> br_reconnect b \<noteq> Map.empty
     \<and> (br_stan b \<or> stan_ClusterID (cfg_STAN (br_config b)) = '''')"

lemma reconnectBody_outage:
  assumes "outage b"
  shows "\<exists>b'. reconnectBody be b = Some b' \<and> outage b' \<and> length (br_timers b') = length (br_timers b) + 2"
proof -
  define b1 where "b1 = ensureReconnectTimer (b\<lparr>br_reconnectTimer := None\<rparr>)"
  have out: "br_nats b = Some False" "br_reconnect b \<noteq> Map.empty"
    "br_stan b \<or> stan_ClusterID (cfg_STAN (br_config b)) = ''''"
    using assms by (auto simp: outage_def)
  have b1: "retryNATS b = b1" "br_nats b1 = Some False" "br_stan b1 = br_stan b" "br_config b1 = br_config b"
    "br_reconnect b1 = br_reconnect b" "length (br_timers b1) = Suc (length (br_timers b))"
    using out(1) by (simp_all add: b1_def retryNATS_def CheckNATS_def ensureReconnectTimer_def)
  have "retrySTAN be b1 = b1"
    using out(3) b1 by (auto simp: retrySTAN_def connectToSTAN_def Let_def)
  then have "reconnectBody be b = Some (ensureReconnectTimer (b1\<lparr>br_reconnectTimer := None\<rparr>))"
    using b1 out(2) restartAll_down [of b1 be] by (simp add: reconnectBody_def checkReconnecting_def Let_def)
  then show ?thesis using b1 out by (simp add: ensureReconnectTimer_def outage_def)
qed

lemma fire_times_outage:
  assumes "outage b" "br_timers b \<noteq> []"
  shows "\<exists>b'. fire_times be n b = Some b' \<and> outage b' \<and> length (br_timers b') = length (br_timers b) + n"
  using assms
proof (induction n arbitrary: b)
  case (Suc n)
  obtain t ts where ts: "br_timers b = t # ts" using Suc.prems(2) by (cases "br_timers b") auto
  have "outage (b\<lparr>br_timers := ts\<rparr>)" using Suc.prems(1) by (simp add: outage_def)
  from reconnectBody_outage [OF this, of be] obtain b1 where b1: "fire_oldest be b = Some b1" "outage b1"
    "length (br_timers b1) = length (br_timers b) + 1"
    using ts by (auto simp: fire_oldest_def)
  then have "br_timers b1 \<noteq> []" by auto
  from Suc.IH [OF b1(2) this] b1 show ?case by auto
qed simp

lemma timer_rounds_outage:
  assumes "outage b" "br_timers b \<noteq> []"
  shows "\<exists>b'. timer_rounds be n b = Some b' \<and> outage b' \<and> length (br_timers b') = 2 ^ n * length (br_timers b)"
  using assms
proof (induction n arbitrary: b)
  case (Suc n)
  obtain b1 where b1: "fire_times be (length (br_timers b)) b = Some b1" "outage b1"
    "length (br_timers b1) = 2 * length (br_timers b)"
    using fire_times_outage [OF Suc.prems, of be "length (br_timers b)"] by auto
  then have "br_timers b1 \<noteq> []" using Suc.prems(2) by auto
  from Suc.IH [OF b1(2) this] b1 show ?case by auto
qed simp

section \<open>Stopping\<close>

lemma shutdown_all_sel:
  "length (br_connectors (shutdown_all be is b)) = length (br_connectors b)"
  "br_reconnect (shutdown_all be is b) = br_reconnect b" "br_running (shutdown_all be is b) = br_running b"
  "br_timers (shutdown_all be is b) = br_timers b" "br_nats (shutdown_all be is b) = br_nats b"
  "br_reconnectTimer (shutdown_all be is b) = br_reconnectTimer b"
  by (induction be "is" b rule: shutdown_all.induct) (simp_all add: shutdown_at_def)

lemma shutdown_all_connected:
  "j < length (br_connectors b) \<Longrightarrow> j \<in> set is \<or> \<not> is_connected (br_connectors b ! j) \<Longrightarrow>
   \<not> is_connected (br_connectors (shutdown_all be is b) ! j)"
proof (induction be "is" b rule: shutdown_all.induct)
  case (2 be i "is" b)
  show ?case
    by (cases "i = j") (use 2 in \<open>auto simp: shutdown_at_def\<close>)
qed simp

text \<open>The steps of a stop that nothing interrupts do what the function does.\<close>

lemma stop_path:
  assumes "i \<le> length (br_connectors b)"
  shows "sys_step\<^sup>*\<^sup>* \<lparr>sy_bridge = b, sy_tasks = TStop i # ts\<rparr>
    \<lparr>sy_bridge = stop_end be (shutdown_all be [i..<length (br_connectors b)] b), sy_tasks = ts\<rparr>"
  using assms
proof (induction "length (br_connectors b) - i" arbitrary: i b)
  case 0
  then have "sys_step \<lparr>sy_bridge = b, sy_tasks = [] @ TStop i # ts\<rparr> \<lparr>sy_bridge = stop_end be b, sy_tasks = [] @ ts\<rparr>"
    by (intro sys_step.stop_last) simp
  then show ?case using 0 by auto
next
  case (Suc n)
  then have i: "i < length (br_connectors b)" by simp
  have "sys_step \<lparr>sy_bridge = b, sy_tasks = [] @ TStop i # ts\<rparr>
      \<lparr>sy_bridge = shutdown_at be i b, sy_tasks = [] @ TStop (Suc i) # ts\<rparr>"
    by (rule sys_step.stop_next [OF i])
  moreover have "sys_step\<^sup>*\<^sup>* \<lparr>sy_bridge = shutdown_at be i b, sy_tasks = TStop (Suc i) # ts\<rparr>
      \<lparr>sy_bridge = stop_end be (shutdown_all be [Suc i..<length (br_connectors b)] (shutdown_at be i b)), sy_tasks = ts\<rparr>"
    using Suc.hyps(1) [of "shutdown_at be i b" "Suc i"] Suc.hyps(2) i by simp
  moreover have "[i..<length (br_connectors b)] = i # [Suc i..<length (br_connectors b)]"
    using i by (simp add: upt_conv_Cons)
  ultimately show ?case by simp
qed

lemma stop_run:
  assumes "br_running b"
  shows "sys_step\<^sup>*\<^sup>* \<lparr>sy_bridge = b, sy_tasks = ts\<rparr> \<lparr>sy_bridge = Stop be b, sy_tasks = ts\<rparr>"
proof -
  let ?b = "(stop_begin b)\<lparr>br_reconnect := Map.empty\<rparr>"
  have "sys_step \<lparr>sy_bridge = b, sy_tasks = ts\<rparr> \<lparr>sy_bridge = ?b, sy_tasks = TStop 0 # ts\<rparr>"
    by (rule sys_step.stop [OF assms])
  moreover have "sys_step\<^sup>*\<^sup>* \<lparr>sy_bridge = ?b, sy_tasks = TStop 0 # ts\<rparr>
      \<lparr>sy_bridge = stop_end be (shutdown_all be [0..<length (br_connectors ?b)] ?b), sy_tasks = ts\<rparr>"
    by (rule stop_path) simp
  ultimately show ?thesis using assms by (simp add: Stop_def Let_def)
qed

lemma Stop_facts:
  assumes "br_running b"
  shows "\<not> br_running (Stop be b) \<and> br_reconnect (Stop be b) = Map.empty \<and> br_reconnectTimer (Stop be b) = None
    \<and> (\<forall>c\<in>set (br_connectors (Stop be b)). \<not> is_connected c)
    \<and> length (br_connectors (Stop be b)) = length (br_connectors b) \<and> \<not> CheckNATS (Stop be b)"
proof -
  define b1 where "b1 = (stop_begin b)\<lparr>br_reconnect := Map.empty\<rparr>"
  define b2 where "b2 = shutdown_all be [0..<length (br_connectors b1)] b1"
  have e: "Stop be b = stop_end be b2" using assms by (simp add: Stop_def Let_def b1_def b2_def)
  have "\<not> CheckNATS (stop_end be b2)" by (simp add: CheckNATS_def split: option.split)
  moreover have "\<forall>c\<in>set (br_connectors b2). \<not> is_connected c"
    using shutdown_all_connected [of _ b1 "[0..<length (br_connectors b1)]" be]
    by (auto simp: b2_def in_set_conv_nth shutdown_all_sel)
  ultimately show ?thesis
    using e by (simp add: b2_def b1_def shutdown_all_sel)
qed

section \<open>Properties\<close>

text \<open>
  C2. No connector is forgotten. In every state that the bridge can reach from a successful start, with
  errors, losses of the connections, checks, timers and restarts interleaved in any order: while the
  server runs, a connector that is not connected is in the map of connectors that wait for a restart, and
  there is a current timer whose goroutine waits or has fired. (The identifiers of the connectors are
  distinct.)
\<close>

theorem no_connector_forgotten:
  assumes "reachable s" and "br_running (sy_bridge s)" and "distinct (map id_of (br_connectors (sy_bridge s)))"
    and "i < length (br_connectors (sy_bridge s))" and "\<not> is_connected (br_connectors (sy_bridge s) ! i)"
  shows "br_reconnect (sy_bridge s) (id_of (br_connectors (sy_bridge s) ! i)) = Some i
    \<and> (\<exists>t. br_reconnectTimer (sy_bridge s) = Some t
         \<and> (t \<in> set (br_timers (sy_bridge s)) \<or> TFired t \<in> set (sy_tasks s)))"
  using reachable_inv [OF assms(1)] assms(2-5)
  by (fastforce simp: idens_def sys_inv_defs cared_def all_cared_def timer_set_def)



text \<open>
  C38. Reconnect timers multiply. While NATS is down and a connector waits, every timer that fires
  leaves two new ones: the goroutine starts a timer because NATS is down, does not return, forgets that
  timer and starts another one because a connector still waits. After \<open>n\<close> rounds of the reconnect interval there
  are \<open>2 ^ n\<close> times as many goroutines.
\<close>

theorem reconnect_timers_multiply:
  assumes "br_nats b = Some False" and "br_reconnect b \<noteq> Map.empty" and "br_timers b \<noteq> []"
    and "br_stan b \<or> stan_ClusterID (cfg_STAN (br_config b)) = ''''"
  shows "\<exists>b'. timer_rounds be n b = Some b' \<and> length (br_timers b') = 2 ^ n * length (br_timers b)"
  using timer_rounds_outage [of b be n] assms by (auto simp: outage_def)

text \<open>
  C39. A connector error that has seen the server run and gets the lock after the server was stopped
  brings the reconnecting back to life: the server does not run and nothing is being stopped any
  more, but a connector waits for its restart and a timer is set (which, as NATS is closed, never ends).
\<close>

theorem error_after_stop_revives:
  assumes "reachable s" and "br_running (sy_bridge s)" and "i < length (br_connectors (sy_bridge s))"
    and "sy_tasks s = []"
  shows "\<exists>s'. sys_step\<^sup>*\<^sup>* s s' \<and> reachable s' \<and> sy_tasks s' = [] \<and> \<not> br_running (sy_bridge s')
    \<and> br_reconnect (sy_bridge s') \<noteq> Map.empty \<and> br_timers (sy_bridge s') \<noteq> [] \<and> \<not> CheckNATS (sy_bridge s')"
proof -
  fix be :: bridge_env
  obtain b where s: "s = \<lparr>sy_bridge = b, sy_tasks = []\<rparr>" using assms(4) by (cases s) simp
  define b1 where "b1 = (stop_begin b)\<lparr>br_reconnect := Map.empty\<rparr>"
  define b2 where "b2 = stop_end be (shutdown_all be [0..<length (br_connectors b1)] b1)"
  have b2: "Stop be b = b2" "\<not> br_running b2" "br_reconnect b2 = Map.empty" "br_reconnectTimer b2 = None"
    "\<not> CheckNATS b2" "length (br_connectors b2) = length (br_connectors b)"
    using assms(2) s by (auto simp: Stop_def Let_def b1_def b2_def shutdown_all_sel CheckNATS_def split: option.split)
  define b3 where "b3 = connectorErrorLocked be i b2"
  have b3: "br_reconnect b3 \<noteq> Map.empty" "br_timers b3 \<noteq> []" "\<not> br_running b3" "\<not> CheckNATS b3"
    using b2 by (auto simp: b3_def connectorErrorLocked_def ensureReconnectTimer_def CheckNATS_def Let_def shutdown_at_def
        fun_eq_iff)
  have "sys_step s \<lparr>sy_bridge = b, sy_tasks = [TError i]\<rparr>"
    using sys_step.raise_error [of b i "[]"] assms(2,3) s by simp
  moreover have "sys_step\<^sup>*\<^sup>* \<lparr>sy_bridge = b, sy_tasks = [TError i]\<rparr> \<lparr>sy_bridge = b2, sy_tasks = [TError i]\<rparr>"
    using stop_run [of b "[TError i]" be] assms(2) s b2(1) by simp
  moreover have "sys_step \<lparr>sy_bridge = b2, sy_tasks = [TError i]\<rparr> \<lparr>sy_bridge = b3, sy_tasks = []\<rparr>"
    using sys_step.handle_error [of b2 "[]" i "[]" be] by (simp add: b3_def)
  ultimately have path: "sys_step\<^sup>*\<^sup>* s \<lparr>sy_bridge = b3, sy_tasks = []\<rparr>" by simp
  moreover have "reachable \<lparr>sy_bridge = b3, sy_tasks = []\<rparr>"
    using path assms(1) by (induction rule: rtranclp_induct) (auto intro: reachable.step)
  ultimately show ?thesis using b3 by (intro exI [of _ "\<lparr>sy_bridge = b3, sy_tasks = []\<rparr>"]) simp
qed

section \<open>A concrete bridge\<close>

definition example_be :: bridge_env where
  "example_be = \<lparr>be_conn = \<lambda>_. example_env None, be_nuid = \<lambda>_. ''x'',
     be_order = \<lambda>m. sorted_list_of_set (dom m), be_nats_connect = \<lambda>_ _. None, be_stan_connect = \<lambda>_ _ _. None,
     be_mon = example_mon_env, be_now = 0\<rparr>"

lemma example_be_ok: "visits example_be" "answers (be_conn example_be i)"
  by (simp_all add: visits_def answers_def example_be_def example_env_def example_lib_def)

lemma start_from_startable:
  assumes "startable be b" "\<forall>i\<in>set is. i < length (br_connectors b)"
  shows "\<exists>b'. start_from be is b = (Ok (), b') \<and> startable be b'"
  using assms
proof (induction "is" arbitrary: b)
  case (Cons i "is")
  obtain b1 where s: "start_at be i b = (Ok (), b1)" "startable be b1"
    using start_at_startable [OF Cons.prems(1), of i] Cons.prems(2) by auto
  then show ?case using Cons.IH [OF s(2)] Cons.prems(2) start_at_sel(2) [OF s(1)] by auto
qed simp

definition example_server :: BridgeServer where
  "example_server = LoadConfig example_bridge_config NewBridgeServer"

text \<open>It starts, and its two connectors are connected.\<close>

lemma example_started:
  obtains b where "Start example_be example_server = (Ok (), b)" "idens b = [''in'', ''out'']"
    "startable example_be b" "br_running b"
proof -
  define b4 where "b4 = snd (initializeConnectors (be_nuid example_be) (example_server\<lparr>br_running := True,
    br_startTime := 0, br_replyToInfo := Map.empty, br_connectors := [], br_reconnect := Map.empty,
    br_nats := Some True\<rparr>))"
  note ev = example_server_def LoadConfig_def NewBridgeServer_def example_bridge_config_def zero_BridgeConfig_def
    initializeConnectors_def CreateConnector_def connector_types RegisterReplyInfo_def Let_def
  have i: "initializeConnectors (be_nuid example_be) (example_server\<lparr>br_running := True,
      br_startTime := 0, br_replyToInfo := Map.empty, br_connectors := [], br_reconnect := Map.empty,
      br_nats := Some True\<rparr>) = (Ok (), b4)"
    by (simp add: b4_def ev)
  have b4: "br_connectors b4 = [NATS2QueueConnector (NewNATS2QueueConnector (cfg_Connect example_bridge_config ! 0) ''x''),
      Queue2NATSConnector (NewQueue2NATSConnector (cfg_Connect example_bridge_config ! 1) ''x'')]"
    "br_nats b4 = Some True" "br_running b4" "br_config b4 = example_bridge_config"
    by (simp_all add: b4_def ev example_be_def)
  have st: "startable example_be b4"
    using example_be_ok(2) b4
    by (simp add: startable_def buffer_ok_def new_defs example_bridge_config_def zero_ConnectorConfig_def
        BridgeConnector.defs)
  obtain b5 where b5: "startConnectors example_be b4 = (Ok (), b5)" "startable example_be b5"
    using start_from_startable [OF st, of "[0..<length (br_connectors b4)]"] by (auto simp: startConnectors_def)
  have b5': "idens b5 = idens b4" "br_config b5 = br_config b4" "br_running b5 = br_running b4"
    using start_from_spec [OF b5(1) [unfolded startConnectors_def]] by simp_all
  have "idens b4 = [''in'', ''out'']"
    using b4 by (simp add: idens_def id_of_def connector_ID_def new_defs example_bridge_config_def BridgeConnector.defs)
  moreover have "startMonitoring (be_mon example_be) b5 = (Ok (), b5)"
    using b5'(2) b4(4)
    by (simp add: startMonitoring_def Let_def example_bridge_config_def zero_BridgeConfig_def)
  moreover have "Start example_be example_server = or_return (startConnectors example_be b4) (\<lambda>_ b.
      or_return (startMonitoring (be_mon example_be) b) (\<lambda>_ b. (Ok (), b)))"
    using i by (simp add: Start_def connectToNATS_def connectToSTAN_def example_be_def example_server_def
        LoadConfig_def example_bridge_config_def zero_BridgeConfig_def NewBridgeServer_def Let_def)
  ultimately show thesis using that [of b5] b5 b5' b4(3) by simp
qed

lemma example_reachable:
  obtains b where "reachable \<lparr>sy_bridge = b, sy_tasks = []\<rparr>" "idens b = [''in'', ''out'']"
    "startable example_be b" "br_running b" "length (br_connectors b) = 2" "br_reconnect b = Map.empty"
proof -
  obtain b where b: "Start example_be example_server = (Ok (), b)" "idens b = [''in'', ''out'']"
    "startable example_be b" "br_running b" by (rule example_started)
  have "reachable \<lparr>sy_bridge = b, sy_tasks = []\<rparr>"
    by (rule reachable.started [OF b(1)]) (simp add: example_server_def LoadConfig_def NewBridgeServer_def)
  moreover have "length (br_connectors b) = 2" using arg_cong [OF b(2), of length] by (simp add: idens_def)
  moreover have "br_reconnect b = Map.empty" using Start_spec [OF b(1)] by simp
  ultimately show thesis using that b by blast
qed

text \<open>A connector of it fails.\<close>

lemma example_failed:
  obtains b where "reachable \<lparr>sy_bridge = b, sy_tasks = []\<rparr>" "idens b = [''in'', ''out'']"
    "startable example_be b" "br_running b" "length (br_connectors b) = 2" "\<not> is_connected (br_connectors b ! 0)"
proof -
  obtain b where b: "reachable \<lparr>sy_bridge = b, sy_tasks = []\<rparr>" "idens b = [''in'', ''out'']"
    "startable example_be b" "br_running b" "length (br_connectors b) = 2" "br_reconnect b = Map.empty" by (rule example_reachable)
  define b' where "b' = connectorErrorLocked example_be 0 b"
  have inv: "sys_inv \<lparr>sy_bridge = b, sy_tasks = []\<rparr>" using reachable_inv [OF b(1)] b(2) by simp
  have "reachable \<lparr>sy_bridge = b, sy_tasks = [] @ TError 0 # []\<rparr>"
    using reachable.step [OF b(1) sys_step.raise_error [of b 0]] b(4,5) by simp
  from reachable.step [OF this sys_step.handle_error] have r: "reachable \<lparr>sy_bridge = b', sy_tasks = []\<rparr>"
    by (simp add: b'_def)
  have k: "cared b'" "same_server b b'"
    using connectorErrorLocked_keeps [of b 0 b' example_be] inv b(2,5) by (simp_all add: sys_inv_def b'_def)
  let ?c = "br_connectors b ! 0"
  have c: "br_connectors b' = (br_connectors b)[0 := snd (Connector_Shutdown (be_conn example_be 0) ?c)]"
    "br_stan b' = br_stan b"
    using b(6) by (simp_all add: b'_def connectorErrorLocked_def Let_def shutdown_at_def)
  have f: "buffer_ok (snd (Connector_Shutdown (be_conn example_be 0) ?c)) = buffer_ok ?c"
    "needs_stan (snd (Connector_Shutdown (be_conn example_be 0) ?c)) = needs_stan ?c"
    using Connector_Shutdown_frame [OF surjective_pairing, of "be_conn example_be 0" ?c]
    by (simp_all add: buffer_ok_def)
  have "?c \<in> set (br_connectors b)" using b(5) by simp
  then have "startable example_be b'"
    using b(3) f c(2) k(2) set_update_subset_insert [of "br_connectors b" 0]
    unfolding startable_def same_server_def c(1) by fastforce
  moreover have "\<not> is_connected (br_connectors b' ! 0)" using c b(5) by simp
  ultimately show thesis using that [OF r] k(2) b by (simp add: same_server_def)
qed

theorem no_connector_forgotten_witness:
  "\<exists>s. reachable s \<and> br_reconnect (sy_bridge s) (id_of (br_connectors (sy_bridge s) ! 0)) = Some 0
     \<and> br_reconnectTimer (sy_bridge s) \<noteq> None"
proof -
  obtain b where b: "reachable \<lparr>sy_bridge = b, sy_tasks = []\<rparr>" "idens b = [''in'', ''out'']"
    "startable example_be b" "br_running b" "length (br_connectors b) = 2" "\<not> is_connected (br_connectors b ! 0)"
    by (rule example_failed)
  from no_connector_forgotten [OF b(1), of 0] b(2,4-6) show ?thesis
    by (intro exI [of _ "\<lparr>sy_bridge = b, sy_tasks = []\<rparr>"]) (auto simp: b(1) idens_def)
qed



theorem reconnect_timers_multiply_witness:
  "\<exists>b'. timer_rounds example_be 3
       (NewBridgeServer\<lparr>br_nats := Some False, br_reconnect := [''in'' \<mapsto> 0], br_timers := [0]\<rparr>) = Some b'
     \<and> length (br_timers b') = 8"
  using reconnect_timers_multiply [of "NewBridgeServer\<lparr>br_nats := Some False, br_reconnect := [''in'' \<mapsto> 0],
      br_timers := [0]\<rparr>" example_be 3]
  by (simp add: NewBridgeServer_def zero_BridgeConfig_def)

theorem error_after_stop_revives_witness:
  "\<exists>s. reachable s \<and> \<not> br_running (sy_bridge s) \<and> br_timers (sy_bridge s) \<noteq> []"
proof -
  obtain b where b: "reachable \<lparr>sy_bridge = b, sy_tasks = []\<rparr>" "idens b = [''in'', ''out'']"
    "startable example_be b" "br_running b" "length (br_connectors b) = 2" "br_reconnect b = Map.empty"
    by (rule example_reachable)
  from error_after_stop_revives [OF b(1), of 0] b(4,5) show ?thesis by auto
qed

end
