(* ===== verification/Go_Number.thy ===== *)
theory Go_Number
  imports Go_Float Go_Text
begin

text \<open>
  \<^verbatim>\<open>strconv.ParseFloat(s, 64)\<close> and the conversion of an integer to a string, which the
  configuration loader uses. A number is read as Go's floating-point literals are: decimal with an
  optional exponent, or hexadecimal with a mandatory binary exponent, with underscores between
  digits; its exact value is then rounded to a \<^verbatim>\<open>float64\<close>.
\<close>

section \<open>Reading a number\<close>

definition hex_value :: "char \<Rightarrow> nat option" where
  "hex_value c =
     (let n = of_char (lower c)
      in if 97 \<le> n \<and> n < 103 then Some (n - 87) else digit_value c)"

definition based_digit :: "bool \<Rightarrow> char \<Rightarrow> nat option" where
  "based_digit hex c = (if hex then hex_value c else digit_value c)"

text \<open>The digits before and after the point: the number without its point, the number of
  fractional digits, whether there was a digit, and what is left.\<close>

fun scanMantissa :: "bool \<Rightarrow> bool \<Rightarrow> bool \<Rightarrow> nat \<Rightarrow> nat \<Rightarrow> string \<Rightarrow> nat \<times> nat \<times> bool \<times> string" where
  "scanMantissa hex sawdot sawdigits m f [] = (m, f, sawdigits, [])"
| "scanMantissa hex sawdot sawdigits m f (c # cs) =
     (if c = CHR ''_'' then scanMantissa hex sawdot sawdigits m f cs
      else if c = CHR ''.'' then
        (if sawdot then (m, f, sawdigits, c # cs) else scanMantissa hex True sawdigits m f cs)
      else (case based_digit hex c of
              Some d \<Rightarrow>
                scanMantissa hex sawdot True (m * (if hex then 16 else 10) + d) (if sawdot then f + 1 else f) cs
            | None \<Rightarrow> (m, f, sawdigits, c # cs)))"

fun scanExponent :: "int \<Rightarrow> string \<Rightarrow> int \<times> string" where
  "scanExponent e [] = (e, [])"
| "scanExponent e (c # cs) =
     (if c = CHR ''_'' then scanExponent e cs
      else (case digit_value c of
              Some d \<Rightarrow> scanExponent (if e < 10000 then e * 10 + int d else e) cs
            | None \<Rightarrow> (e, c # cs)))"

text \<open>The exponent, if there is one; a hexadecimal number must have one.\<close>

definition readExponent :: "bool \<Rightarrow> string \<Rightarrow> (int \<times> string) option" where
  "readExponent hex s =
     (case s of
        c # cs \<Rightarrow>
          if lower c = (if hex then CHR ''p'' else CHR ''e'') then
            (let (esign, ds) = (case cs of
                   d # ds \<Rightarrow> if d = CHR ''+'' then (1, ds) else if d = CHR ''-'' then (-1, ds) else (1, cs)
                 | [] \<Rightarrow> (1, cs))
             in case ds of
                  [] \<Rightarrow> None
                | d # _ \<Rightarrow> if digit_value d = None then None
                          else (case scanExponent 0 ds of (e, rest) \<Rightarrow> Some (e * esign, rest)))
          else if hex then None else Some (0, s)
      | [] \<Rightarrow> if hex then None else Some (0, s))"

text \<open>Underscores stand between digits only; a base prefix counts as a digit.\<close>

datatype prev = Beginning | Digit | Underscore | Neither

fun underscores_between :: "bool \<Rightarrow> prev \<Rightarrow> string \<Rightarrow> bool" where
  "underscores_between hex p [] = (p \<noteq> Underscore)"
| "underscores_between hex p (c # cs) =
     (if based_digit hex c \<noteq> None then underscores_between hex Digit cs
      else if c = CHR ''_'' then p = Digit \<and> underscores_between hex Underscore cs
      else p \<noteq> Underscore \<and> underscores_between hex Neither cs)"

definition strip_sign :: "string \<Rightarrow> bool \<times> string" where
  "strip_sign s =
     (case s of
        [] \<Rightarrow> (False, s)
      | c # cs \<Rightarrow> if c = CHR ''-'' then (True, cs) else if c = CHR ''+'' then (False, cs) else (False, s))"

definition hex_prefix :: "string \<Rightarrow> bool" where
  "hex_prefix s \<longleftrightarrow> 2 < length s \<and> s ! 0 = CHR ''0'' \<and> lower (s ! 1) = CHR ''x''"

text \<open>The exact value of an unsigned number that takes the whole text.\<close>

definition readFloat :: "string \<Rightarrow> rat option" where
  "readFloat s =
     (let hex = hex_prefix s;
          body = (if hex then drop 2 s else s);
          (m, f, sawdigits, rest) = scanMantissa hex False False 0 0 body
      in if \<not> sawdigits then None
         else case readExponent hex rest of
                None \<Rightarrow> None
              | Some (e, rest') \<Rightarrow>
                  if rest' \<noteq> [] \<or> CHR ''_'' \<in> set s \<and>
                     \<not> underscores_between hex (if hex then Digit else Beginning) body then None
                  else Some (of_nat m * (if hex then 2 powi (e - 4 * int f) else 10 powi (e - int f))))"

definition ParseFloat :: "string \<Rightarrow> gfloat option" where
  "ParseFloat s =
     (let (neg, body) = strip_sign s
      in if ToLower body = ''inf'' \<or> ToLower body = ''infinity'' then Some (Inf neg)
         else if ToLower s = ''nan'' then Some NaN
         else case readFloat body of
                None \<Rightarrow> None
              | Some x \<Rightarrow>
                  let y = f64 x
                  in if 2 ^ 1024 \<le> y then None
                     else if y = 0 then Some (if neg then NegZero else Fin 0)
                     else Some (Fin (if neg then - y else y)))"

section \<open>The string of a code point\<close>

text \<open>\<^verbatim>\<open>string(n)\<close>: the UTF-8 encoding of the code point, of U+FFFD if there is no such code point.\<close>

definition utf8 :: "int \<Rightarrow> string" where
  "utf8 n =
     (if n < 128 then [char_of n]
      else if n < 2048 then [char_of (192 + n div 64), char_of (128 + n mod 64)]
      else if n < 65536 then
        [char_of (224 + n div 4096), char_of (128 + n div 64 mod 64), char_of (128 + n mod 64)]
      else
        [char_of (240 + n div 262144), char_of (128 + n div 4096 mod 64), char_of (128 + n div 64 mod 64),
         char_of (128 + n mod 64)])"

definition string_of_rune :: "int \<Rightarrow> string" where
  "string_of_rune n = utf8 (if n < 0 \<or> 1114111 < n \<or> 55296 \<le> n \<and> n \<le> 57343 then 65533 else n)"

end
