(* ===== verification/Conf_Parse.thy ===== *)
theory Conf_Parse
  imports Conf Go_Number
begin

text \<open>
  The configuration loader (\<^verbatim>\<open>src/nats-mq/conf/parse.go\<close>, \<^verbatim>\<open>load.go\<close>, \<^verbatim>\<open>hostport.go\<close>, \<^verbatim>\<open>utils.go\<close>).
  It fills a struct from a map by reflection: the fields of the struct are visited in their order,
  looked up by name, parsed according to their type and set. A Go type is a \<open>gtype\<close>, a value of
  it a \<open>gval\<close>, and what the map holds, an \<^verbatim>\<open>interface{}\<close>, is a \<open>cval\<close>.

  The struct is changed in place, so the loader returns how it ended together with the struct it
  left, also when it failed halfway. The parser of \<^verbatim>\<open>nats-server\<close> and the file system are arguments.
\<close>

section \<open>Types and values\<close>

datatype ikind = KInt | Int8 | Int16 | Int32 | Int64
datatype fkind = Float32 | Float64

fun bits :: "ikind \<Rightarrow> nat" where
  "bits KInt = 64" | "bits Int8 = 8" | "bits Int16 = 16" | "bits Int32 = 32" | "bits Int64 = 64"

text \<open>
  What an \<^verbatim>\<open>interface{}\<close> in the map can hold. \<open>CUint\<close> is a value of any unsigned integer type and
  \<open>COther\<close> one of a type, such as \<^verbatim>\<open>time.Time\<close>, that converts to no type of numbers or strings.
\<close>

datatype cval =
    CNil
  | CBool bool
  | CInt ikind int
  | CUint nat
  | CFloat fkind gfloat
  | CString string
  | CList "cval list"
  | CMap "(string \<times> cval) list"
  | COther string

text \<open>
  The types of fields: \<open>TMap True\<close> is \<^verbatim>\<open>map[string]interface{}\<close>, \<open>TMap False\<close> another map type,
  \<open>TOther\<close> a type of a kind the loader does not name. A field has a name, is exported
  or not, and has a type.
\<close>

datatype gtype =
    TBool
  | TInt ikind
  | TFloat fkind
  | TString
  | TMap bool
  | THostPort
  | TStruct "gfield list"
  | TSlice gtype
  | TArray nat gtype
  | TOther
  and gfield = Field (fieldName: string) (exported: bool) (fieldType: gtype)

record HostPort =
  Host :: string
  Port :: int

datatype gval =
    GBool bool
  | GInt int
  | GFloat gfloat
  | GString string
  | GMap "(string \<times> cval) list option"
  | GHostPort HostPort
  | GStruct "gval list"
  | GSlice "gval list"
  | GArray "gval list"
  | GOther string

lemma size_fieldType [termination_simp]: "f \<in> set fs \<Longrightarrow> size (fieldType f) < Suc (size_list size fs)"
  using size_list_estimation [of f fs "size (fieldType f)" size] by (cases f) auto

text \<open>The zero value of a type, which \<^verbatim>\<open>reflect.New\<close> creates.\<close>

fun zero_of :: "gtype \<Rightarrow> gval" where
  "zero_of TBool = GBool False"
| "zero_of (TInt k) = GInt 0"
| "zero_of (TFloat k) = GFloat (Fin 0)"
| "zero_of TString = GString ''''"
| "zero_of (TMap k) = GMap None"
| "zero_of THostPort = GHostPort \<lparr>Host = '''', Port = 0\<rparr>"
| "zero_of (TStruct fs) = GStruct (map (\<lambda>f. zero_of (fieldType f)) fs)"
| "zero_of (TSlice t) = GSlice []"
| "zero_of (TArray n t) = GArray (replicate n (zero_of t))"
| "zero_of TOther = GOther ''''"

section \<open>Scalars\<close>

definition parseBoolean :: "string \<Rightarrow> cval \<Rightarrow> bool outcome" where
  "parseBoolean keyname v =
     (case v of
        CBool t \<Rightarrow> Ok t
      | CString sv \<Rightarrow> Ok (ToLower sv = ''true'')
      | _ \<Rightarrow> Err (Errorf (''error parsing '' @ keyname @ '' option'')))"

definition parseInt :: "string \<Rightarrow> cval \<Rightarrow> int outcome" where
  "parseInt keyname v =
     (case v of
        CInt k i \<Rightarrow> Ok i
      | CString s \<Rightarrow>
          (case Atoi s of
             None \<Rightarrow> Err (Errorf (''unable to parse integer for key '' @ keyname))
           | Some i \<Rightarrow> Ok i)
      | _ \<Rightarrow> Err (Errorf (''unable to parse integer for key '' @ keyname)))"

definition parseFloat :: "string \<Rightarrow> cval \<Rightarrow> gfloat outcome" where
  "parseFloat keyname v =
     (case v of
        CFloat k x \<Rightarrow> Ok x
      | CString s \<Rightarrow>
          (case ParseFloat s of
             None \<Rightarrow> Err (Errorf (''unable to parse float for key '' @ keyname))
           | Some x \<Rightarrow> Ok x)
      | _ \<Rightarrow> Err (Errorf (''unable to parse float for key '' @ keyname)))"

definition parseString :: "string \<Rightarrow> cval \<Rightarrow> string outcome" where
  "parseString keyName v =
     (case v of
        CString sv \<Rightarrow> Ok sv
      | _ \<Rightarrow> Err (Errorf (''error parsing '' @ keyName @ '' option'')))"

definition parseHostPort :: "string \<Rightarrow> cval \<Rightarrow> HostPort outcome" where
  "parseHostPort keyName v =
     (case v of
        CInt Int64 i \<Rightarrow> Ok \<lparr>Host = '''', Port = i\<rparr>
      | CString s \<Rightarrow>
          (case SplitHostPort s of
             None \<Rightarrow> Err (Errorf (''unable to parse hostport for key '' @ keyName))
           | Some (h, p) \<Rightarrow>
               (case Atoi p of
                  None \<Rightarrow> Err (Errorf (''unable to parse port for key '' @ keyName))
                | Some port \<Rightarrow> Ok \<lparr>Host = h, Port = port\<rparr>))
      | _ \<Rightarrow> Err (Errorf (''error parsing hostport option for key '' @ keyName)))"

definition HostPort_String :: "HostPort \<Rightarrow> string" where
  "HostPort_String hp = JoinHostPort (Host hp) (Itoa (Port hp))"

text \<open>\<^verbatim>\<open>SetInt\<close> and \<^verbatim>\<open>SetFloat\<close> cut the value down to the width of the field.\<close>

definition SetInt :: "ikind \<Rightarrow> int \<Rightarrow> int" where
  "SetInt k i = signed_take_bit (bits k - 1) i"

definition SetFloat :: "fkind \<Rightarrow> gfloat \<Rightarrow> gfloat" where
  "SetFloat k x = (case k of Float32 \<Rightarrow> to_float32 x | Float64 \<Rightarrow> x)"

section \<open>Arrays\<close>

text \<open>
  \<^verbatim>\<open>Convert\<close> of reflection, to a type of integers, floats or strings; \<open>None\<close> if the type of the value
  is not convertible. An integer converts to the string of its code point. What a float that is no
  \<^verbatim>\<open>int64\<close> becomes is up to the machine: \<open>oddFloat\<close> gives it.
\<close>

definition int64_of_float :: "(gfloat \<Rightarrow> int) \<Rightarrow> gfloat \<Rightarrow> int" where
  "int64_of_float oddFloat x =
     (case x of
        Fin r \<Rightarrow>
          let t = (if 0 \<le> r then \<lfloor>r\<rfloor> else \<lceil>r\<rceil>)
          in if - (2 ^ 63) \<le> t \<and> t < 2 ^ 63 then t else oddFloat x
      | NegZero \<Rightarrow> 0
      | _ \<Rightarrow> oddFloat x)"

definition Convert :: "(gfloat \<Rightarrow> int) \<Rightarrow> gtype \<Rightarrow> cval \<Rightarrow> gval option" where
  "Convert oddFloat t v =
     (case t of
        TInt k \<Rightarrow>
          (case v of
             CInt _ i \<Rightarrow> Some (GInt (SetInt k i))
           | CUint n \<Rightarrow> Some (GInt (SetInt k (int n)))
           | CFloat _ x \<Rightarrow> Some (GInt (SetInt k (int64_of_float oddFloat x)))
           | _ \<Rightarrow> None)
      | TFloat k \<Rightarrow>
          (case v of
             CInt _ i \<Rightarrow> Some (GFloat (SetFloat k (Fin (f64 (of_int i)))))
           | CUint n \<Rightarrow> Some (GFloat (SetFloat k (Fin (f64 (of_nat n)))))
           | CFloat _ x \<Rightarrow> Some (GFloat (SetFloat k x))
           | _ \<Rightarrow> None)
      | TString \<Rightarrow>
          (case v of
             CString s \<Rightarrow> Some (GString s)
           | CInt _ i \<Rightarrow> Some (GString (string_of_rune i))
           | CUint n \<Rightarrow> Some (GString (string_of_rune (int n)))
           | _ \<Rightarrow> None)
      | _ \<Rightarrow> None)"

text \<open>A nil element has no type to ask for: reflection panics.\<close>

fun convertAll :: "(gfloat \<Rightarrow> int) \<Rightarrow> string \<Rightarrow> gtype \<Rightarrow> gval list \<Rightarrow> cval list \<Rightarrow> gval list outcome" where
  "convertAll oddFloat keyName t buf [] = Ok buf"
| "convertAll oddFloat keyName t buf (e # es) =
     (if e = CNil then Panic
      else case Convert oddFloat t e of
             Some x \<Rightarrow> convertAll oddFloat keyName t (buf @ [x]) es
           | None \<Rightarrow> Err (Errorf (''error parsing '' @ keyName @ '' option, contents are not convertable'')))"

definition parsePrimitiveArray :: "(gfloat \<Rightarrow> int) \<Rightarrow> string \<Rightarrow> gtype \<Rightarrow> cval \<Rightarrow> gval list outcome" where
  "parsePrimitiveArray oddFloat keyName t v =
     (case v of
        CList ia \<Rightarrow> convertAll oddFloat keyName t [] ia
      | CNil \<Rightarrow> Panic
      | _ \<Rightarrow>
          (case Convert oddFloat t v of
             Some x \<Rightarrow> Ok [x]
           | None \<Rightarrow> Err (Errorf (''error parsing '' @ keyName @ '' option, single element is not convertable''))))"

fun hostPortsFrom :: "string \<Rightarrow> HostPort list \<Rightarrow> cval list \<Rightarrow> HostPort list outcome" where
  "hostPortsFrom keyName buf [] = Ok buf"
| "hostPortsFrom keyName buf (e # es) =
     outcome_bind (parseHostPort keyName e) (\<lambda>val. hostPortsFrom keyName (buf @ [val]) es)"

definition parseHostPorts :: "string \<Rightarrow> cval \<Rightarrow> HostPort list outcome" where
  "parseHostPorts keyName v =
     (case v of
        CList ia \<Rightarrow> hostPortsFrom keyName [] ia
      | _ \<Rightarrow> outcome_bind (parseHostPort keyName v) (\<lambda>val. Ok [val]))"

section \<open>Structs\<close>

text \<open>The name of the field, or the name in lower case; \<open>CNil\<close> if neither is there.\<close>

definition get :: "(string \<times> cval) list \<Rightarrow> string \<Rightarrow> cval" where
  "get data key =
     (if key = '''' then CNil
      else case map_of data key of
             Some val \<Rightarrow> val
           | None \<Rightarrow> (case map_of data (ToLower key) of Some val \<Rightarrow> val | None \<Rightarrow> CNil))"

text \<open>Set the field to what was parsed, or leave it.\<close>

fun set_field :: "gval \<Rightarrow> ('x \<Rightarrow> gval) \<Rightarrow> 'x outcome \<Rightarrow> unit outcome \<times> gval" where
  "set_field old C (Ok x) = (Ok (), C x)"
| "set_field old C (Err e) = (Err e, old)"
| "set_field old C Panic = (Panic, old)"

text \<open>A slice cannot be assigned to a field of array type: reflection panics.\<close>

fun set_array :: "gval \<Rightarrow> 'x outcome \<Rightarrow> unit outcome \<times> gval" where
  "set_array old (Ok x) = (Panic, old)"
| "set_array old (Err e) = (Err e, old)"
| "set_array old Panic = (Panic, old)"

definition unknownField :: "bool \<Rightarrow> string \<Rightarrow> gval \<Rightarrow> unit outcome \<times> gval" where
  "unknownField strict name old =
     (if strict then (Err (Errorf (''unknown field type in configuration '' @ name)), old) else (Ok (), old))"

text \<open>
  \<open>parseFields\<close> is the loop of \<^verbatim>\<open>parseStruct\<close> over the fields and their values, \<open>parseField\<close> its
  switch on the type of the field, and \<open>parseElems\<close> the loop of \<^verbatim>\<open>parseStructs\<close>. \<open>addr\<close> says that the
  struct can be written through: it was passed by pointer.
\<close>

function (sequential) parseField :: "(gfloat \<Rightarrow> int) \<Rightarrow> bool \<Rightarrow> string \<Rightarrow> gtype \<Rightarrow> gval \<Rightarrow> cval \<Rightarrow> unit outcome \<times> gval"
  and parseFields :: "(gfloat \<Rightarrow> int) \<Rightarrow> bool \<Rightarrow> bool \<Rightarrow> (string \<times> cval) list \<Rightarrow> gfield list \<Rightarrow> gval list \<Rightarrow>
    unit outcome \<times> gval list"
  and parseStructs :: "(gfloat \<Rightarrow> int) \<Rightarrow> string \<Rightarrow> bool \<Rightarrow> gfield list \<Rightarrow> cval \<Rightarrow> gval list outcome"
  and parseElems :: "(gfloat \<Rightarrow> int) \<Rightarrow> bool \<Rightarrow> gfield list \<Rightarrow> gval list \<Rightarrow> cval list \<Rightarrow> gval list outcome"
where
  "parseField odf strict name TBool old v = set_field old GBool (parseBoolean name v)"
| "parseField odf strict name (TInt k) old v = set_field old (\<lambda>i. GInt (SetInt k i)) (parseInt name v)"
| "parseField odf strict name (TFloat k) old v = set_field old (\<lambda>x. GFloat (SetFloat k x)) (parseFloat name v)"
| "parseField odf strict name TString old v = set_field old GString (parseString name v)"
| "parseField odf strict name (TMap any) old v =
     (case v of
        CMap configData \<Rightarrow>
          if any then (Ok (), GMap (Some configData))
          else (Err (Errorf ''only map[string]interface{} fields are supported''), old)
      | _ \<Rightarrow> (Err (Errorf (''map field '' @ name @ '' doesn't have a matching map in the config file'')), old))"
| "parseField odf strict name (TSlice t) old v =
     (case t of
        TString \<Rightarrow> set_field old GSlice (parsePrimitiveArray odf name t v)
      | TInt _ \<Rightarrow> set_field old GSlice (parsePrimitiveArray odf name t v)
      | TFloat _ \<Rightarrow> set_field old GSlice (parsePrimitiveArray odf name t v)
      | THostPort \<Rightarrow> set_field old (\<lambda>hps. GSlice (map GHostPort hps)) (parseHostPorts name v)
      | TStruct fs \<Rightarrow> set_field old GSlice (parseStructs odf name strict fs v)
      | _ \<Rightarrow> unknownField strict name old)"
| "parseField odf strict name (TArray n t) old v =
     (case t of
        TString \<Rightarrow> set_array old (parsePrimitiveArray odf name t v)
      | TInt _ \<Rightarrow> set_array old (parsePrimitiveArray odf name t v)
      | TFloat _ \<Rightarrow> set_array old (parsePrimitiveArray odf name t v)
      | THostPort \<Rightarrow> set_array old (parseHostPorts name v)
      | TStruct fs \<Rightarrow> set_array old (parseStructs odf name strict fs v)
      | _ \<Rightarrow> unknownField strict name old)"
| "parseField odf strict name THostPort old v = set_field old GHostPort (parseHostPort name v)"
| "parseField odf strict name (TStruct fs) old v =
     (case v of
        CMap configData \<Rightarrow>
          (case old of
             GStruct vs \<Rightarrow>
               (case parseFields odf strict True configData fs vs of (r, vs') \<Rightarrow> (r, GStruct vs'))
           | _ \<Rightarrow> (Panic, old))
      | _ \<Rightarrow> (Err (Errorf (''struct field '' @ name @ '' doesn't have a matching map in the config file'')), old))"
| "parseField odf strict name TOther old v = unknownField strict name old"
| "parseFields odf strict addr data (Field name expd t # fs) (old # vs) =
     (if \<not> (addr \<and> expd) then
        if strict then (Err (Errorf (''unsettable field in configuration struct '' @ name)), old # vs)
        else (case parseFields odf strict addr data fs vs of (r, vs') \<Rightarrow> (r, old # vs'))
      else if get data name = CNil then
        if strict then (Err (Errorf (''missing field in configuration file '' @ name)), old # vs)
        else (case parseFields odf strict addr data fs vs of (r, vs') \<Rightarrow> (r, old # vs'))
      else
        (case parseField odf strict name t old (get data name) of
           (Ok _, new) \<Rightarrow> (case parseFields odf strict addr data fs vs of (r, vs') \<Rightarrow> (r, new # vs'))
         | (r, new) \<Rightarrow> (r, new # vs)))"
| "parseFields odf strict addr data fs vs = (Ok (), vs)"
| "parseStructs odf keyName strict fs v =
     (case v of
        CList ia \<Rightarrow> parseElems odf strict fs [] ia
      | CMap sv \<Rightarrow>
          (case parseFields odf strict True sv fs (map (\<lambda>f. zero_of (fieldType f)) fs) of
             (Ok _, vs) \<Rightarrow> Ok [GStruct vs]
           | (Err err, vs) \<Rightarrow> Err err
           | (Panic, vs) \<Rightarrow> Panic)
      | _ \<Rightarrow> Err (Errorf (''error parsing '' @ keyName @ '' option'')))"
| "parseElems odf strict fs buf [] = Ok buf"
| "parseElems odf strict fs buf (e # es) =
     (case e of
        CMap sv \<Rightarrow>
          (case parseFields odf strict True sv fs (map (\<lambda>f. zero_of (fieldType f)) fs) of
             (Ok _, vs) \<Rightarrow> parseElems odf strict fs (buf @ [GStruct vs]) es
           | (Err err, vs) \<Rightarrow> Err err
           | (Panic, vs) \<Rightarrow> Panic)
      | _ \<Rightarrow> Err (Errorf ''struct array contained invalid value''))"

  by pat_completeness auto

text \<open>The types get smaller, then the lists; \<^verbatim>\<open>parseStructs\<close> only hands its list on.\<close>

termination
  by (relation "measures
        [\<lambda>x. case x of Inl (Inl (_, _, _, t, _)) \<Rightarrow> 2 * size t | Inl (Inr (_, _, _, _, fs, _)) \<Rightarrow> 2 * size_list size fs
           | Inr (Inl (_, _, _, fs, _)) \<Rightarrow> Suc (2 * size_list size fs) | Inr (Inr (_, _, fs, _, _)) \<Rightarrow> Suc (2 * size_list size fs),
         \<lambda>x. case x of Inr (Inl _) \<Rightarrow> 1 | _ \<Rightarrow> 0,
         \<lambda>x. case x of Inr (Inr (_, _, _, _, es)) \<Rightarrow> length es | _ \<Rightarrow> 0]")
    auto

definition parseStruct :: "(gfloat \<Rightarrow> int) \<Rightarrow> (string \<times> cval) list \<Rightarrow> bool \<times> gfield list \<times> gval list \<Rightarrow> bool \<Rightarrow>
    unit outcome \<times> gval list" where
  "parseStruct odf data config strict = (case config of (addr, fs, vs) \<Rightarrow> parseFields odf strict addr data fs vs)"

section \<open>Loading\<close>

text \<open>
  What the loader asks of its environment: the content of a file, the configuration parser of
  \<^verbatim>\<open>nats-server\<close>, and the conversion of floats that are no \<^verbatim>\<open>int64\<close>.
\<close>

record loader =
  ReadFile :: "string \<Rightarrow> string + string"
  conf_Parse :: "string \<Rightarrow> go_error + (string \<times> cval) list"
  oddFloat :: "gfloat \<Rightarrow> int"

definition LoadConfigFromMap :: "loader \<Rightarrow> (string \<times> cval) list \<Rightarrow> bool \<times> gfield list \<times> gval list \<Rightarrow> bool \<Rightarrow>
    unit outcome \<times> gval list" where
  "LoadConfigFromMap ld m configStruct strict = parseStruct (oddFloat ld) m configStruct strict"

definition LoadConfigFromString :: "loader \<Rightarrow> string \<Rightarrow> bool \<times> gfield list \<times> gval list \<Rightarrow> bool \<Rightarrow>
    unit outcome \<times> gval list" where
  "LoadConfigFromString ld configString configStruct strict =
     (case conf_Parse ld configString of
        Inl err \<Rightarrow> (Err err, snd (snd configStruct))
      | Inr m \<Rightarrow> parseStruct (oddFloat ld) m configStruct strict)"

definition LoadConfigFromFile :: "loader \<Rightarrow> string \<Rightarrow> bool \<times> gfield list \<times> gval list \<Rightarrow> bool \<Rightarrow>
    unit outcome \<times> gval list" where
  "LoadConfigFromFile ld configFile configStruct strict =
     (case ReadFile ld configFile of
        Inl err \<Rightarrow> (Err (Errorf (''error reading configuration file: '' @ err)), snd (snd configStruct))
      | Inr configString \<Rightarrow> LoadConfigFromString ld configString configStruct strict)"

section \<open>Paths\<close>

text \<open>What \<^verbatim>\<open>os.Stat\<close> reports: the kind of file, that there is none, or another error.\<close>

datatype stat = Regular | Directory | Special | NotExist | StatError

record paths =
  Abs :: "string \<Rightarrow> string + string"
  Stat :: "string \<Rightarrow> stat"

definition validatePathExists :: "paths \<Rightarrow> string \<Rightarrow> bool \<Rightarrow> string outcome" where
  "validatePathExists os path dir =
     (if path = '''' then Err (Errorf ''path is not specified'')
      else case Abs os path of
             Inl err \<Rightarrow> Err (Errorf (''error parsing path []: '' @ err))
           | Inr absPath \<Rightarrow>
               (case Stat os absPath of
                  NotExist \<Rightarrow> Err (Errorf (''the path ['' @ absPath @ ''] doesn't exist''))
                | StatError \<Rightarrow> Panic
                | mode \<Rightarrow>
                    if dir \<and> mode = Regular then Err (Errorf (''the path ['' @ absPath @ ''] is not a directory''))
                    else if \<not> dir \<and> mode = Directory then Err (Errorf (''the path ['' @ absPath @ ''] is not a file''))
                    else Ok absPath))"

definition ValidateDirPath :: "paths \<Rightarrow> string \<Rightarrow> string outcome" where
  "ValidateDirPath os path = validatePathExists os path True"

definition ValidateFilePath :: "paths \<Rightarrow> string \<Rightarrow> string outcome" where
  "ValidateFilePath os path = validatePathExists os path False"

section \<open>The configuration of the bridge\<close>

text \<open>
  The types of the configuration structs, and their values as reflection sees them: the fields in
  the order of the source. Every field is exported.
\<close>

abbreviation str :: "string \<Rightarrow> gfield" where
  "str n \<equiv> Field n True TString"

abbreviation boolean :: "string \<Rightarrow> gfield" where
  "boolean n \<equiv> Field n True TBool"

abbreviation integer :: "string \<Rightarrow> gfield" where
  "integer n \<equiv> Field n True (TInt KInt)"

definition LoggingConfig_type :: "gfield list" where
  "LoggingConfig_type = [boolean ''Time'', boolean ''Debug'', boolean ''Trace'', boolean ''Colors'', boolean ''PID'']"

definition TLSConf_type :: "gfield list" where
  "TLSConf_type = [str ''Key'', str ''Cert'', str ''Root'']"

definition MonitoringConfig_type :: "gfield list" where
  "MonitoringConfig_type =
     [str ''HTTPHost'', integer ''HTTPPort'', integer ''HTTPSPort'', Field ''TLS'' True (TStruct TLSConf_type)]"

definition MQConfig_type :: "gfield list" where
  "MQConfig_type =
     [str ''ConnectionName'', str ''ChannelName'', str ''QueueManager'', str ''UserName'', str ''Password'',
      str ''KeyRepository'', str ''CertificateLabel'', str ''SSLPeerName'']"

definition NATSConfig_type :: "gfield list" where
  "NATSConfig_type =
     [Field ''Servers'' True (TSlice TString), integer ''ConnectTimeout'', integer ''ReconnectWait'',
      integer ''MaxReconnects'', Field ''TLS'' True (TStruct TLSConf_type), str ''Username'', str ''Password'',
      str ''CredsFile'']"

definition NATSStreamingConfig_type :: "gfield list" where
  "NATSStreamingConfig_type =
     [str ''ClusterID'', str ''ClientID'', integer ''PubAckWait'', str ''DiscoverPrefix'',
      integer ''MaxPubAcksInflight'', integer ''ConnectWait'']"

definition ConnectorConfig_type :: "gfield list" where
  "ConnectorConfig_type =
     [str ''ID'', str ''Type'', str ''Channel'', str ''DurableName'', Field ''StartAtSequence'' True (TInt Int64),
      Field ''StartAtTime'' True (TInt Int64), str ''Subject'', str ''NatsQueue'',
      Field ''MQ'' True (TStruct MQConfig_type), str ''Topic'', str ''Queue'', boolean ''UsePolling'',
      integer ''IncomingBufferSize'', integer ''IncomingMessageWait'', boolean ''ExcludeHeaders'']"

definition BridgeConfig_type :: "gfield list" where
  "BridgeConfig_type =
     [integer ''ReconnectInterval'', Field ''NATS'' True (TStruct NATSConfig_type),
      Field ''STAN'' True (TStruct NATSStreamingConfig_type), Field ''Logging'' True (TStruct LoggingConfig_type),
      Field ''Monitoring'' True (TStruct MonitoringConfig_type),
      Field ''Connect'' True (TSlice (TStruct ConnectorConfig_type))]"

lemmas config_types = LoggingConfig_type_def TLSConf_type_def MonitoringConfig_type_def MQConfig_type_def
  NATSConfig_type_def NATSStreamingConfig_type_def ConnectorConfig_type_def BridgeConfig_type_def

definition of_LoggingConfig :: "LoggingConfig \<Rightarrow> gval list" where
  "of_LoggingConfig c =
     [GBool (log_Time c), GBool (log_Debug c), GBool (log_Trace c), GBool (log_Colors c), GBool (log_PID c)]"

definition of_TLSConf :: "TLSConf \<Rightarrow> gval list" where
  "of_TLSConf c = [GString (tls_Key c), GString (tls_Cert c), GString (tls_Root c)]"

definition of_MonitoringConfig :: "MonitoringConfig \<Rightarrow> gval list" where
  "of_MonitoringConfig c =
     [GString (mon_HTTPHost c), GInt (mon_HTTPPort c), GInt (mon_HTTPSPort c), GStruct (of_TLSConf (mon_TLS c))]"

definition of_MQConfig :: "MQConfig \<Rightarrow> gval list" where
  "of_MQConfig c =
     [GString (mq_ConnectionName c), GString (mq_ChannelName c), GString (mq_QueueManager c), GString (mq_UserName c),
      GString (mq_Password c), GString (mq_KeyRepository c), GString (mq_CertificateLabel c), GString (mq_SSLPeerName c)]"

definition of_NATSConfig :: "NATSConfig \<Rightarrow> gval list" where
  "of_NATSConfig c =
     [GSlice (map GString (nats_Servers c)), GInt (nats_ConnectTimeout c), GInt (nats_ReconnectWait c),
      GInt (nats_MaxReconnects c), GStruct (of_TLSConf (nats_TLS c)), GString (nats_Username c),
      GString (nats_Password c), GString (nats_CredsFile c)]"

definition of_NATSStreamingConfig :: "NATSStreamingConfig \<Rightarrow> gval list" where
  "of_NATSStreamingConfig c =
     [GString (stan_ClusterID c), GString (stan_ClientID c), GInt (stan_PubAckWait c), GString (stan_DiscoverPrefix c),
      GInt (stan_MaxPubAcksInflight c), GInt (stan_ConnectWait c)]"

definition of_ConnectorConfig :: "ConnectorConfig \<Rightarrow> gval list" where
  "of_ConnectorConfig c =
     [GString (cfg_ID c), GString (cfg_Type c), GString (cfg_Channel c), GString (cfg_DurableName c),
      GInt (cfg_StartAtSequence c), GInt (cfg_StartAtTime c), GString (cfg_Subject c), GString (cfg_NatsQueue c),
      GStruct (of_MQConfig (cfg_MQ c)), GString (cfg_Topic c), GString (cfg_Queue c), GBool (cfg_UsePolling c),
      GInt (cfg_IncomingBufferSize c), GInt (cfg_IncomingMessageWait c), GBool (cfg_ExcludeHeaders c)]"

definition of_BridgeConfig :: "BridgeConfig \<Rightarrow> gval list" where
  "of_BridgeConfig c =
     [GInt (cfg_ReconnectInterval c), GStruct (of_NATSConfig (cfg_NATS c)), GStruct (of_NATSStreamingConfig (cfg_STAN c)),
      GStruct (of_LoggingConfig (cfg_Logging c)), GStruct (of_MonitoringConfig (cfg_Monitoring c)),
      GSlice (map (\<lambda>d. GStruct (of_ConnectorConfig d)) (cfg_Connect c))]"

lemmas of_configs = of_LoggingConfig_def of_TLSConf_def of_MonitoringConfig_def of_MQConfig_def of_NATSConfig_def
  of_NATSStreamingConfig_def of_ConnectorConfig_def of_BridgeConfig_def

text \<open>Back from the values to the records; total on the values of the right type.\<close>

fun the_str :: "gval \<Rightarrow> string" where
  "the_str (GString s) = s" | "the_str _ = ''''"

fun the_int :: "gval \<Rightarrow> int" where
  "the_int (GInt i) = i" | "the_int _ = 0"

fun the_bool :: "gval \<Rightarrow> bool" where
  "the_bool (GBool b) = b" | "the_bool _ = False"

fun the_vals :: "gval \<Rightarrow> gval list" where
  "the_vals (GStruct vs) = vs" | "the_vals (GSlice vs) = vs" | "the_vals _ = []"

definition to_LoggingConfig :: "gval list \<Rightarrow> LoggingConfig" where
  "to_LoggingConfig v =
     \<lparr>log_Time = the_bool (v ! 0), log_Debug = the_bool (v ! 1), log_Trace = the_bool (v ! 2),
      log_Colors = the_bool (v ! 3), log_PID = the_bool (v ! 4)\<rparr>"

definition to_TLSConf :: "gval list \<Rightarrow> TLSConf" where
  "to_TLSConf v = \<lparr>tls_Key = the_str (v ! 0), tls_Cert = the_str (v ! 1), tls_Root = the_str (v ! 2)\<rparr>"

definition to_MonitoringConfig :: "gval list \<Rightarrow> MonitoringConfig" where
  "to_MonitoringConfig v =
     \<lparr>mon_HTTPHost = the_str (v ! 0), mon_HTTPPort = the_int (v ! 1), mon_HTTPSPort = the_int (v ! 2),
      mon_TLS = to_TLSConf (the_vals (v ! 3))\<rparr>"

definition to_MQConfig :: "gval list \<Rightarrow> MQConfig" where
  "to_MQConfig v =
     \<lparr>mq_ConnectionName = the_str (v ! 0), mq_ChannelName = the_str (v ! 1), mq_QueueManager = the_str (v ! 2),
      mq_UserName = the_str (v ! 3), mq_Password = the_str (v ! 4), mq_KeyRepository = the_str (v ! 5),
      mq_CertificateLabel = the_str (v ! 6), mq_SSLPeerName = the_str (v ! 7)\<rparr>"

definition to_NATSConfig :: "gval list \<Rightarrow> NATSConfig" where
  "to_NATSConfig v =
     \<lparr>nats_Servers = map the_str (the_vals (v ! 0)), nats_ConnectTimeout = the_int (v ! 1),
      nats_ReconnectWait = the_int (v ! 2), nats_MaxReconnects = the_int (v ! 3),
      nats_TLS = to_TLSConf (the_vals (v ! 4)), nats_Username = the_str (v ! 5), nats_Password = the_str (v ! 6),
      nats_CredsFile = the_str (v ! 7)\<rparr>"

definition to_NATSStreamingConfig :: "gval list \<Rightarrow> NATSStreamingConfig" where
  "to_NATSStreamingConfig v =
     \<lparr>stan_ClusterID = the_str (v ! 0), stan_ClientID = the_str (v ! 1), stan_PubAckWait = the_int (v ! 2),
      stan_DiscoverPrefix = the_str (v ! 3), stan_MaxPubAcksInflight = the_int (v ! 4),
      stan_ConnectWait = the_int (v ! 5)\<rparr>"

definition to_ConnectorConfig :: "gval list \<Rightarrow> ConnectorConfig" where
  "to_ConnectorConfig v =
     \<lparr>cfg_ID = the_str (v ! 0), cfg_Type = the_str (v ! 1), cfg_Channel = the_str (v ! 2),
      cfg_DurableName = the_str (v ! 3), cfg_StartAtSequence = the_int (v ! 4), cfg_StartAtTime = the_int (v ! 5),
      cfg_Subject = the_str (v ! 6), cfg_NatsQueue = the_str (v ! 7), cfg_MQ = to_MQConfig (the_vals (v ! 8)),
      cfg_Topic = the_str (v ! 9), cfg_Queue = the_str (v ! 10), cfg_UsePolling = the_bool (v ! 11),
      cfg_IncomingBufferSize = the_int (v ! 12), cfg_IncomingMessageWait = the_int (v ! 13),
      cfg_ExcludeHeaders = the_bool (v ! 14)\<rparr>"

definition to_BridgeConfig :: "gval list \<Rightarrow> BridgeConfig" where
  "to_BridgeConfig v =
     \<lparr>cfg_ReconnectInterval = the_int (v ! 0), cfg_NATS = to_NATSConfig (the_vals (v ! 1)),
      cfg_STAN = to_NATSStreamingConfig (the_vals (v ! 2)), cfg_Logging = to_LoggingConfig (the_vals (v ! 3)),
      cfg_Monitoring = to_MonitoringConfig (the_vals (v ! 4)),
      cfg_Connect = map (\<lambda>d. to_ConnectorConfig (the_vals d)) (the_vals (v ! 5))\<rparr>"

lemmas to_configs = to_LoggingConfig_def to_TLSConf_def to_MonitoringConfig_def to_MQConfig_def to_NATSConfig_def
  to_NATSStreamingConfig_def to_ConnectorConfig_def to_BridgeConfig_def

lemma to_of_TLSConf [simp]: "to_TLSConf (of_TLSConf c) = c"
  by (rule TLSConf.equality) (simp_all add: to_TLSConf_def of_TLSConf_def comp_def)

lemma to_of_LoggingConfig [simp]: "to_LoggingConfig (of_LoggingConfig c) = c"
  by (rule LoggingConfig.equality) (simp_all add: to_LoggingConfig_def of_LoggingConfig_def comp_def)

lemma to_of_MonitoringConfig [simp]: "to_MonitoringConfig (of_MonitoringConfig c) = c"
  by (rule MonitoringConfig.equality) (simp_all add: to_MonitoringConfig_def of_MonitoringConfig_def comp_def)

lemma to_of_MQConfig [simp]: "to_MQConfig (of_MQConfig c) = c"
  by (rule MQConfig.equality) (simp_all add: to_MQConfig_def of_MQConfig_def comp_def)

lemma to_of_NATSConfig [simp]: "to_NATSConfig (of_NATSConfig c) = c"
  by (rule NATSConfig.equality) (simp_all add: to_NATSConfig_def of_NATSConfig_def comp_def)

lemma to_of_NATSStreamingConfig [simp]: "to_NATSStreamingConfig (of_NATSStreamingConfig c) = c"
  by (rule NATSStreamingConfig.equality) (simp_all add: to_NATSStreamingConfig_def of_NATSStreamingConfig_def comp_def)

lemma to_of_ConnectorConfig [simp]: "to_ConnectorConfig (of_ConnectorConfig c) = c"
  by (rule ConnectorConfig.equality) (simp_all add: to_ConnectorConfig_def of_ConnectorConfig_def comp_def)

lemma to_of_BridgeConfig [simp]: "to_BridgeConfig (of_BridgeConfig c) = c"
  by (rule BridgeConfig.equality) (simp_all add: to_BridgeConfig_def of_BridgeConfig_def comp_def)

text \<open>Three branches that surprise: fields of array type, errors of \<^verbatim>\<open>os.Stat\<close>, numbers in a list of strings.\<close>

lemma array_field_panics:
  "fst (parseField odf strict name (TArray n (TInt k)) old (CList [CInt Int64 i])) = Panic"
  by (simp add: parsePrimitiveArray_def Convert_def)

lemma stat_error_panics:
  "path \<noteq> '''' \<Longrightarrow> Abs os path = Inr p \<Longrightarrow> Stat os p = StatError \<Longrightarrow> validatePathExists os path dir = Panic"
  by (simp add: validatePathExists_def)

lemma number_becomes_code_point:
  "0 \<le> i \<Longrightarrow> i < 128 \<Longrightarrow>
   parseField odf strict name (TSlice TString) old (CList [CInt Int64 i]) = (Ok (), GSlice [GString [char_of i]])"
  by (simp add: parsePrimitiveArray_def Convert_def string_of_rune_def utf8_def)

end
