(* ===== verification/Conf_Load.thy ===== *)
theory Conf_Load
  imports Conf_Parse
begin

text \<open>
  What the configuration loader guarantees: it keeps the type of the struct it fills, it does not
  panic on what the configuration parser returns, it reads back every configuration that is
  written out, and it leaves settings that are not given at their defaults.
\<close>

section \<open>Typing\<close>

definition in_range :: "ikind \<Rightarrow> int \<Rightarrow> bool" where
  "in_range k i \<longleftrightarrow> - (2 ^ (bits k - 1)) \<le> i \<and> i < 2 ^ (bits k - 1)"

fun has_type :: "gtype \<Rightarrow> gval \<Rightarrow> bool" where
  "has_type TBool v = (case v of GBool _ \<Rightarrow> True | _ \<Rightarrow> False)"
| "has_type (TInt k) v = (case v of GInt i \<Rightarrow> in_range k i | _ \<Rightarrow> False)"
| "has_type (TFloat k) v = (case v of GFloat _ \<Rightarrow> True | _ \<Rightarrow> False)"
| "has_type TString v = (case v of GString _ \<Rightarrow> True | _ \<Rightarrow> False)"
| "has_type (TMap k) v = (case v of GMap _ \<Rightarrow> True | _ \<Rightarrow> False)"
| "has_type THostPort v = (case v of GHostPort hp \<Rightarrow> in_range KInt (Port hp) | _ \<Rightarrow> False)"
| "has_type (TStruct fs) v = (case v of GStruct vs \<Rightarrow> list_all2 (\<lambda>f. has_type (fieldType f)) fs vs | _ \<Rightarrow> False)"
| "has_type (TSlice t) v = (case v of GSlice vs \<Rightarrow> list_all (has_type t) vs | _ \<Rightarrow> False)"
| "has_type (TArray n t) v = (case v of GArray vs \<Rightarrow> length vs = n \<and> list_all (has_type t) vs | _ \<Rightarrow> False)"
| "has_type TOther v = (case v of GOther _ \<Rightarrow> True | _ \<Rightarrow> False)"

text \<open>The values a Go map can really hold: integers in the range of their type.\<close>

fun wf_cval :: "cval \<Rightarrow> bool" where
  "wf_cval (CInt k i) = in_range k i"
| "wf_cval (CList vs) = list_all wf_cval vs"
| "wf_cval (CMap m) = list_all (\<lambda>p. wf_cval (snd p)) m"
| "wf_cval _ = True"

abbreviation wf_map :: "(string \<times> cval) list \<Rightarrow> bool" where
  "wf_map m \<equiv> wf_cval (CMap m)"

lemma SetInt_in_range [simp]: "in_range k (SetInt k i)"
  using signed_take_bit_int_less_exp [of "bits k - 1" i] signed_take_bit_int_greater_eq_minus_exp [of "bits k - 1" i]
  by (simp add: in_range_def SetInt_def)

lemma SetInt_id: "in_range k i \<Longrightarrow> SetInt k i = i"
  by (simp add: SetInt_def in_range_def signed_take_bit_int_eq_self)

lemma in_range_Int64 [simp]: "in_range Int64 i = in_range KInt i"
  by (simp add: in_range_def)

lemma Atoi_in_range: "Atoi s = Some i \<Longrightarrow> in_range KInt i"
  by (auto simp: Atoi_def in_range_def Let_def split: prod.splits option.splits if_splits list.splits)

lemma get_cases:
  obtains (missing) "get m k = CNil" | (found) k' where "(k', get m k) \<in> set m"
  unfolding get_def
  by (cases "map_of m k"; cases "map_of m (ToLower k)"; cases "k = ''''") (auto dest!: map_of_SomeD)

lemma wf_get: "wf_map m \<Longrightarrow> wf_cval (get m k)"
  by (cases m k rule: get_cases) (auto simp: list_all_iff)

lemma zero_has_type: "has_type t (zero_of t)"
proof (induction t rule: zero_of.induct)
  case (7 fs)
  then show ?case by (simp add: list_all2_conv_all_nth)
next
  case (9 n t)
  then show ?case by (simp add: list_all_iff)
qed (auto simp: in_range_def)

lemma parseHostPort_type: "wf_cval v \<Longrightarrow> parseHostPort n v = Ok hp \<Longrightarrow> in_range KInt (Port hp)"
  by (auto simp: parseHostPort_def split: cval.splits ikind.splits option.splits) (rule Atoi_in_range)

lemma hostPortsFrom_type:
  "list_all wf_cval es \<Longrightarrow> list_all (\<lambda>hp. in_range KInt (Port hp)) buf \<Longrightarrow> hostPortsFrom n buf es = Ok hps \<Longrightarrow>
   list_all (\<lambda>hp. in_range KInt (Port hp)) hps"
proof (induction es arbitrary: buf)
  case (Cons e es)
  then obtain hp where hp: "parseHostPort n e = Ok hp" "hostPortsFrom n (buf @ [hp]) es = Ok hps" by auto
  show ?case by (rule Cons.IH [OF _ _ hp(2)]) (use Cons.prems parseHostPort_type [OF _ hp(1)] in auto)
qed simp

lemma parseHostPorts_type:
  "wf_cval v \<Longrightarrow> parseHostPorts n v = Ok hps \<Longrightarrow> list_all (\<lambda>hp. in_range KInt (Port hp)) hps"
  using parseHostPort_type [of v n] hostPortsFrom_type [of _ "[]" n hps]
  by (cases v) (auto simp: parseHostPorts_def)

lemma Convert_type: "Convert odf t v = Some x \<Longrightarrow> has_type t x"
  by (cases t; cases v) (auto simp: Convert_def)

lemma convertAll_type:
  "list_all (has_type t) buf \<Longrightarrow> convertAll odf n t buf es = Ok xs \<Longrightarrow> list_all (has_type t) xs"
proof (induction es arbitrary: buf)
  case (Cons e es)
  then obtain x where x: "Convert odf t e = Some x" "convertAll odf n t (buf @ [x]) es = Ok xs"
    by (auto split: if_splits option.splits)
  show ?case by (rule Cons.IH [OF _ x(2)]) (use Cons.prems Convert_type [OF x(1)] in auto)
qed simp

lemma parsePrimitiveArray_type: "parsePrimitiveArray odf n t v = Ok xs \<Longrightarrow> list_all (has_type t) xs"
  by (cases v) (auto simp: parsePrimitiveArray_def dest: Convert_type convertAll_type [rotated] split: option.splits)

lemma set_field_type:
  "has_type t old \<Longrightarrow> (\<And>x. r = Ok x \<Longrightarrow> has_type t (C x)) \<Longrightarrow> has_type t (snd (set_field old C r))"
  by (cases r) auto

lemma set_array_unchanged [simp]: "snd (set_array old r) = old"
  by (cases r) auto

lemma set_array_not_Ok [simp]: "fst (set_array old r) \<noteq> Ok x"
  by (cases r) auto

lemma unknownField_unchanged [simp]: "snd (unknownField strict n old) = old"
  by (simp add: unknownField_def)

lemma zero_fields_type: "has_type (TStruct fs) (GStruct (map (\<lambda>f. zero_of (fieldType f)) fs))"
  using zero_has_type [of "TStruct fs"] by simp

lemma slice_type:
  assumes "has_type (TSlice t) old" "wf_cval v"
    and elems: "\<And>fs xs. t = TStruct fs \<Longrightarrow> parseStructs odf name strict fs v = Ok xs \<Longrightarrow> list_all (has_type t) xs"
  shows "has_type (TSlice t) (snd (parseField odf strict name (TSlice t) old v))"
proof (cases t)
  case THostPort
  with assms show ?thesis
    by (auto simp del: has_type.simps intro!: set_field_type) (auto dest!: parseHostPorts_type simp: list_all_iff)
next
  case (TStruct fs)
  with assms(1) elems show ?thesis
    by (auto simp del: has_type.simps parseStructs.simps intro!: set_field_type) (auto simp del: parseStructs.simps)
qed (use assms in \<open>auto simp del: has_type.simps intro!: set_field_type, auto dest!: parsePrimitiveArray_type\<close>)

lemma parse_keeps_type:
  "has_type t old \<Longrightarrow> wf_cval v \<Longrightarrow> has_type t (snd (parseField odf strict name t old v))"
  "list_all2 (\<lambda>f. has_type (fieldType f)) fs vs \<Longrightarrow> wf_map data \<Longrightarrow>
     list_all2 (\<lambda>f. has_type (fieldType f)) fs (snd (parseFields odf strict addr data fs vs))"
  "wf_cval v \<Longrightarrow> parseStructs odf name strict fs v = Ok xs \<Longrightarrow> list_all (has_type (TStruct fs)) xs"
  "list_all wf_cval es \<Longrightarrow> list_all (has_type (TStruct fs)) buf \<Longrightarrow> parseElems odf strict fs buf es = Ok xs \<Longrightarrow>
     list_all (has_type (TStruct fs)) xs"
proof (induction odf strict name t old v and odf strict addr data fs vs and odf name strict fs v and odf strict fs buf es
    arbitrary: and and xs and xs rule: parseField_parseFields_parseStructs_parseElems.induct)
  case (5 odf strict name any old v)
  then show ?case by (auto split: cval.splits gval.splits)
next
  case (6 odf strict name t old v)
  show ?case by (rule slice_type) (use 6 in \<open>auto simp del: has_type.simps parseStructs.simps\<close>)
next
  case (7 odf strict name n t old v)
  then show ?case by (auto split: gtype.splits simp del: has_type.simps)
next
  case (9 odf strict name fs old v)
  then show ?case by (auto split: cval.splits gval.splits simp: split_beta)
next
  case (11 odf strict addr data name expd t fs old vs)
  then show ?case
    using wf_get [of data name]
    by (cases "parseField odf strict name t old (get data name)"; cases "fst (parseField odf strict name t old (get data name))")
       (auto simp: split_beta simp del: wf_cval.simps parseField.simps)
next
  case (13 odf keyName strict fs v)
  then show ?case
    using zero_fields_type [of fs] by (auto split: cval.splits prod.splits outcome.splits)
next
  case (15 odf strict fs buf e es)
  then show ?case
    using zero_fields_type [of fs] by (auto split: cval.splits prod.splits outcome.splits)
next
  case (8 odf strict name old v)
  then show ?case
    by (auto simp del: has_type.simps intro!: set_field_type) (auto dest: parseHostPort_type)
qed (auto simp del: has_type.simps intro!: set_field_type, auto)

section \<open>Panics\<close>

text \<open>
  The loader panics on a nil inside a list and on a field of array type; neither the
  parser's values nor the bridge's structs have them.
\<close>

fun nil_free :: "cval \<Rightarrow> bool" where
  "nil_free (CList vs) = list_all (\<lambda>v. v \<noteq> CNil \<and> nil_free v) vs"
| "nil_free (CMap m) = list_all (\<lambda>p. nil_free (snd p)) m"
| "nil_free _ = True"

fun array_free :: "gtype \<Rightarrow> bool" where
  "array_free (TArray n t) = False"
| "array_free (TStruct fs) = list_all (\<lambda>f. array_free (fieldType f)) fs"
| "array_free (TSlice t) = array_free t"
| "array_free _ = True"

lemma nil_free_get: "nil_free (CMap m) \<Longrightarrow> nil_free (get m k)"
  by (cases m k rule: get_cases) (auto simp: list_all_iff)

lemma scalars_no_panic [simp]:
  "parseBoolean n v \<noteq> Panic" "parseInt n v \<noteq> Panic" "parseFloat n v \<noteq> Panic" "parseString n v \<noteq> Panic"
  "parseHostPort n v \<noteq> Panic"
  by (auto simp: parseBoolean_def parseInt_def parseFloat_def parseString_def parseHostPort_def
      split: cval.splits ikind.splits option.splits)

lemma hostPortsFrom_no_panic [simp]: "hostPortsFrom n buf es \<noteq> Panic"
  by (induction es arbitrary: buf) (auto simp: outcome_bind_eq_Panic)

lemma parseHostPorts_no_panic [simp]: "parseHostPorts n v \<noteq> Panic"
  by (auto simp: parseHostPorts_def outcome_bind_eq_Panic split: cval.splits)

lemma convertAll_no_panic: "list_all (\<lambda>v. v \<noteq> CNil \<and> nil_free v) es \<Longrightarrow> convertAll odf n t buf es \<noteq> Panic"
  by (induction es arbitrary: buf) (auto split: option.splits)

lemma parsePrimitiveArray_no_panic: "nil_free v \<Longrightarrow> v \<noteq> CNil \<Longrightarrow> parsePrimitiveArray odf n t v \<noteq> Panic"
  using convertAll_no_panic by (auto simp: parsePrimitiveArray_def split: cval.splits option.splits)

lemma set_field_panic [simp]: "fst (set_field old C r) = Panic \<longleftrightarrow> r = Panic"
  by (cases r) auto

lemma unknownField_no_panic [simp]: "fst (unknownField strict n old) \<noteq> Panic"
  by (simp add: unknownField_def)

lemma parse_no_panic:
  "has_type t old \<Longrightarrow> array_free t \<Longrightarrow> wf_cval v \<Longrightarrow> nil_free v \<Longrightarrow> v \<noteq> CNil \<Longrightarrow>
     fst (parseField odf strict name t old v) \<noteq> Panic"
  "list_all2 (\<lambda>f. has_type (fieldType f)) fs vs \<Longrightarrow> array_free (TStruct fs) \<Longrightarrow> wf_map data \<Longrightarrow> nil_free (CMap data) \<Longrightarrow>
     fst (parseFields odf strict addr data fs vs) \<noteq> Panic"
  "array_free (TStruct fs) \<Longrightarrow> wf_cval v \<Longrightarrow> nil_free v \<Longrightarrow> parseStructs odf name strict fs v \<noteq> Panic"
  "array_free (TStruct fs) \<Longrightarrow> list_all wf_cval es \<Longrightarrow> list_all nil_free es \<Longrightarrow> parseElems odf strict fs buf es \<noteq> Panic"
proof (induction odf strict name t old v and odf strict addr data fs vs and odf name strict fs v and odf strict fs buf es
    rule: parseField_parseFields_parseStructs_parseElems.induct)
  case (6 odf strict name t old v)
  then show ?case
    by (cases t) (auto simp: parsePrimitiveArray_no_panic simp del: parseStructs.simps array_free.simps(2))
next
  case (9 odf strict name fs old v)
  then show ?case by (auto split: cval.splits gval.splits simp: split_beta)
next
  case (11 odf strict addr data name expd t fs old vs)
  then show ?case
    using wf_get [of data name] nil_free_get [of data name]
    by (cases "parseField odf strict name t old (get data name)"; cases "fst (parseField odf strict name t old (get data name))")
       (auto simp: split_beta simp del: wf_cval.simps parseField.simps nil_free.simps)
next
  case (13 odf keyName strict fs v)
  then show ?case
    using zero_fields_type [of fs] by (auto simp: list_all_iff split: cval.splits prod.splits outcome.splits)
next
  case (15 odf strict fs buf e es)
  then show ?case
    using zero_fields_type [of fs] by (auto split: cval.splits prod.splits outcome.splits)
qed (auto split: cval.splits)

section \<open>Strict and lenient loading\<close>

lemma set_field_Ok: "fst (set_field old C r) = Ok () \<Longrightarrow> set_field old' C r = set_field old C r"
  by (cases r) auto

lemma strict_load_determined:
  "strict \<Longrightarrow> has_type t old \<Longrightarrow> has_type t old' \<Longrightarrow> fst (parseField odf strict name t old v) = Ok () \<Longrightarrow>
     parseField odf s name t old' v = parseField odf strict name t old v"
  "strict \<Longrightarrow> list_all2 (\<lambda>f. has_type (fieldType f)) fs vs \<Longrightarrow> list_all2 (\<lambda>f. has_type (fieldType f)) fs vs' \<Longrightarrow>
     fst (parseFields odf strict addr data fs vs) = Ok () \<Longrightarrow>
     parseFields odf s addr data fs vs' = parseFields odf strict addr data fs vs"
  "strict \<Longrightarrow> parseStructs odf name strict fs v = Ok xs \<Longrightarrow> parseStructs odf name s fs v = Ok xs"
  "strict \<Longrightarrow> parseElems odf strict fs buf es = Ok xs \<Longrightarrow> parseElems odf s fs buf es = Ok xs"
proof (induction odf strict name t old v and odf strict addr data fs vs and odf name strict fs v and odf strict fs buf es
    arbitrary: old' and vs' and xs and xs rule: parseField_parseFields_parseStructs_parseElems.induct)
  case (6 odf strict name t old v)
  show ?case
  proof (cases t)
    case (TStruct fs)
    with 6 show ?thesis
      by (cases "parseStructs odf name strict fs v") (auto simp del: parseStructs.simps)
  qed (use 6 in \<open>auto simp: unknownField_def intro!: set_field_Ok\<close>)
next
  case (7 odf strict name n t old v)
  then show ?case
    by (cases t) (auto simp: unknownField_def simp del: parseStructs.simps)
next
  case (9 odf strict name fs old v)
  then show ?case by (auto split: cval.splits gval.splits simp: split_beta)
next
  case (11 odf strict addr data name expd t fs old vs)
  from 11(7) obtain o' vr where vs': "vs' = o' # vr" "has_type t o'" "list_all2 (\<lambda>f. has_type (fieldType f)) fs vr"
    by (auto simp: list_all2_Cons1)
  from 11(5,8) have set: "addr" "expd" "get data name \<noteq> CNil" by (auto split: if_splits)
  with 11(8) obtain new where new: "parseField odf strict name t old (get data name) = (Ok (), new)"
    by (cases "parseField odf strict name t old (get data name)"; cases "fst (parseField odf strict name t old (get data name))")
       auto
  have f: "parseField odf s name t o' (get data name) = (Ok (), new)"
    using 11(3) [of o'] new set 11(5,6) vs'(2) by auto
  have "parseFields odf s addr data fs vr = parseFields odf strict addr data fs vs"
    using 11(4) [OF _ _ new [symmetric]] new set 11(5,6,8) vs'(3) by (auto simp: split_beta)
  with f new set show ?case by (simp add: vs' split_beta)
next
  case (13 odf keyName strict fs v)
  then show ?case
    using zero_fields_type [of fs] by (auto split: cval.splits prod.splits outcome.splits)
next
  case (15 odf strict fs buf e es)
  then show ?case
    using zero_fields_type [of fs] by (auto split: cval.splits prod.splits outcome.splits)
qed (auto simp: unknownField_def intro!: set_field_Ok split: cval.splits)

lemma parseFields_length: "length (snd (parseFields odf strict addr data fs vs)) = length vs"
proof (induction fs arbitrary: vs)
  case IH: (Cons f fs)
  obtain n e t where f: "f = Field n e t" by (cases f)
  show ?case
  proof (cases vs)
    case (Cons old vr)
    with IH [of vr] show ?thesis
      by (cases "parseField odf strict n t old (get data n)"; cases "fst (parseField odf strict n t old (get data n))")
         (auto simp: f split_beta)
  qed (simp add: f)
qed simp

lemma lenient_field:
  assumes "length vs = length fs" "i < length fs" "fs ! i = Field n e t"
    and "parseFields odf False addr data fs vs = (r, vs')"
  shows "length vs' = length fs
     \<and> (\<not> (addr \<and> e) \<or> get data n = CNil \<longrightarrow> vs' ! i = vs ! i)
     \<and> (r = Ok () \<and> addr \<and> e \<and> get data n \<noteq> CNil \<longrightarrow>
          parseField odf False n t (vs ! i) (get data n) = (Ok (), vs' ! i))"
  using assms
proof (induction fs arbitrary: vs vs' r i)
  case (Cons f fs)
  obtain n' e' t' where f: "f = Field n' e' t'" by (cases f)
  obtain o' vr where vs: "vs = o' # vr" "length vr = length fs" using Cons.prems(1) by (cases vs) auto
  obtain r2 vr' where rest: "parseFields odf False addr data fs vr = (r2, vr')" by fastforce
  obtain rf new where fld: "parseField odf False n' t' o' (get data n') = (rf, new)" by fastforce
  show ?case
  proof (cases "addr \<and> e' \<and> get data n' \<noteq> CNil \<and> (\<forall>u. rf \<noteq> Ok u)")
    case True
    then have "vs' = new # vr" "r \<noteq> Ok ()" using Cons.prems(4) fld by (cases rf; simp add: f vs)+
    then show ?thesis using Cons.prems(3) True vs(2) by (cases i) (auto simp: f vs)
  next
    case False
    then have "r = r2 \<and> vs' = (if addr \<and> e' \<and> get data n' \<noteq> CNil then new else o') # vr'"
      using Cons.prems(4) rest fld
      by (cases addr; cases e'; cases "get data n' = CNil"; cases rf) (simp_all add: f vs)
    then have r: "r = r2" "vs' = (if addr \<and> e' \<and> get data n' \<noteq> CNil then new else o') # vr'" by auto
    have len: "length vr' = length fs" using parseFields_length [of odf False addr data fs vr] rest vs(2) by simp
    show ?thesis
    proof (cases i)
      case 0
      with False Cons.prems(3) fld r len show ?thesis by (cases rf) (auto simp: f vs)
    next
      case (Suc j)
      with Cons.IH [OF vs(2) _ _ rest, of j] Cons.prems(2,3) r show ?thesis by (simp add: vs)
    qed
  qed
qed simp

lemma strict_fields_present:
  "length vs = length fs \<Longrightarrow> parseFields odf True addr data fs vs = (Ok (), vs') \<Longrightarrow> f \<in> set fs \<Longrightarrow>
     addr \<and> exported f \<and> get data (fieldName f) \<noteq> CNil"
proof (induction fs arbitrary: vs vs')
  case (Cons g fs)
  obtain n e t where g: "g = Field n e t" by (cases g)
  obtain o' vr where vs: "vs = o' # vr" "length vr = length fs" using Cons.prems(1) by (cases vs) auto
  have set: "addr" "e" "get data n \<noteq> CNil" using Cons.prems(2) by (auto simp: g vs split: if_splits)
  obtain r2 vr' where rest: "parseFields odf True addr data fs vr = (r2, vr')" by fastforce
  obtain rf new where fld: "parseField odf True n t o' (get data n) = (rf, new)" by fastforce
  have "r2 = Ok ()" using Cons.prems(2) set rest fld by (cases rf) (auto simp: g vs)
  with Cons.IH [OF vs(2)] rest Cons.prems(3) set show ?case by (auto simp: g)
qed simp

section \<open>Writing a configuration out\<close>

text \<open>
  A struct as the map that a configuration file for it parses to, under the names of its fields or
  their lower-case forms.
\<close>

definition key :: "bool \<Rightarrow> string \<Rightarrow> string" where
  "key low n = (if low then ToLower n else n)"

lemma set_zip_fieldType [termination_simp]:
  "(f, v) \<in> set (zip fs vs) \<Longrightarrow> size (fieldType f) < Suc (size_list size fs)"
  by (auto dest: set_zip_leftD size_fieldType)

fun render :: "bool \<Rightarrow> gtype \<Rightarrow> gval \<Rightarrow> cval" where
  "render low (TSlice t) v = CList (map (render low t) (the_vals v))"
| "render low (TStruct fs) v =
     CMap (map (\<lambda>(f, w). (key low (fieldName f), render low (fieldType f) w)) (zip fs (the_vals v)))"
| "render low t v =
     (case v of
        GBool b \<Rightarrow> CBool b
      | GInt i \<Rightarrow> CInt Int64 i
      | GFloat x \<Rightarrow> CFloat Float64 x
      | GString s \<Rightarrow> CString s
      | GMap (Some m) \<Rightarrow> CMap m
      | GHostPort hp \<Rightarrow> CString (HostPort_String hp)
      | _ \<Rightarrow> CNil)"

text \<open>The types and the values that can be written out.\<close>

fun element_type :: "gtype \<Rightarrow> bool" where
  "element_type TString = True"
| "element_type (TInt k) = True"
| "element_type (TFloat k) = True"
| "element_type THostPort = True"
| "element_type (TStruct fs) = True"
| "element_type _ = False"

fun writable :: "gtype \<Rightarrow> bool" where
  "writable (TMap any) = any"
| "writable (TStruct fs) =
     (list_all (\<lambda>f. exported f \<and> fieldName f \<noteq> '''' \<and> writable (fieldType f)) fs
      \<and> distinct (map (\<lambda>f. ToLower (fieldName f)) fs))"
| "writable (TSlice t) = (element_type t \<and> writable t)"
| "writable (TArray n t) = False"
| "writable TOther = False"
| "writable _ = True"

fun writable_val :: "gtype \<Rightarrow> gval \<Rightarrow> bool" where
  "writable_val (TFloat k) v = (case v of GFloat x \<Rightarrow> SetFloat k x = x | _ \<Rightarrow> False)"
| "writable_val (TMap any) v = (v \<noteq> GMap None)"
| "writable_val THostPort v =
     (case v of GHostPort hp \<Rightarrow> CHR ''['' \<notin> set (Host hp) \<and> CHR '']'' \<notin> set (Host hp) | _ \<Rightarrow> False)"
| "writable_val (TStruct fs) v = list_all2 (\<lambda>f. writable_val (fieldType f)) fs (the_vals v)"
| "writable_val (TSlice t) v = list_all (writable_val t) (the_vals v)"
| "writable_val _ v = True"

lemma lower_lower [simp]: "lower (lower c) = lower c"
  by (simp add: lower_def Let_def)

lemma ToLower_ToLower [simp]: "ToLower (ToLower s) = ToLower s"
  by (simp add: ToLower_def)

lemma ToLower_key [simp]: "ToLower (key low n) = ToLower n"
  by (simp add: key_def)

lemma map_of_rendered:
  assumes "distinct (map (\<lambda>f. ToLower (fieldName f)) fs)" "(f, w) \<in> set (zip fs vs)"
  shows "map_of (map (\<lambda>(f, w). (key low (fieldName f), g f w)) (zip fs vs)) (key low (fieldName f)) = Some (g f w)"
  using assms
proof (induction fs arbitrary: vs)
  case (Cons h fs)
  then obtain u us where vs: "vs = u # us" by (cases vs) auto
  have "f \<in> set fs \<Longrightarrow> key low (fieldName h) \<noteq> key low (fieldName f)"
    using Cons.prems(1) by (auto dest!: arg_cong [of "key low (fieldName h)" _ ToLower])
  with Cons show ?case by (auto simp: vs dest: set_zip_leftD)
qed simp

lemma get_rendered:
  assumes "distinct (map (\<lambda>f. ToLower (fieldName f)) fs)" "(f, w) \<in> set (zip fs vs)" "fieldName f \<noteq> ''''"
  shows "get (map (\<lambda>(f, w). (key low (fieldName f), g f w)) (zip fs vs)) (fieldName f) = g f w"
proof -
  let ?data = "map (\<lambda>(f, w). (key low (fieldName f), g f w)) (zip fs vs)"
  have m: "map_of ?data (key low (fieldName f)) = Some (g f w)" by (rule map_of_rendered [OF assms(1,2)])
  show ?thesis
  proof (cases "map_of ?data (fieldName f)")
    case None
    then have low using m by (auto simp: key_def split: if_splits)
    with m None assms(3) show ?thesis by (simp add: get_def key_def)
  next
    case (Some x)
    then have "low \<Longrightarrow> ToLower (fieldName f) = fieldName f"
      by (auto dest!: map_of_SomeD simp: key_def)
    with m Some assms(3) show ?thesis by (cases low) (auto simp: get_def key_def)
  qed
qed

section \<open>Reading it back\<close>

lemma fields_read_back:
  assumes "list_all2 (\<lambda>f. has_type (fieldType f)) fs old" "length vs = length fs"
    and "\<And>f w o'. (f, w) \<in> set (zip fs vs) \<Longrightarrow> has_type (fieldType f) o' \<Longrightarrow>
           exported f \<and> get data (fieldName f) \<noteq> CNil
           \<and> parseField odf strict (fieldName f) (fieldType f) o' (get data (fieldName f)) = (Ok (), w)"
  shows "parseFields odf strict True data fs old = (Ok (), vs)"
  using assms
proof (induction fs arbitrary: old vs)
  case (Cons f fs)
  obtain n e t where f: "f = Field n e t" by (cases f)
  obtain o' os where old: "old = o' # os" "has_type t o'" "list_all2 (\<lambda>f. has_type (fieldType f)) fs os"
    using Cons.prems(1) by (auto simp: f list_all2_Cons1)
  obtain w ws where vs: "vs = w # ws" "length ws = length fs" using Cons.prems(2) by (cases vs) auto
  have "parseFields odf strict True data fs os = (Ok (), ws)"
    using Cons.IH [OF old(3) vs(2)] Cons.prems(3) by (auto simp: vs(1))
  moreover have "exported f \<and> get data n \<noteq> CNil \<and> parseField odf strict n t o' (get data n) = (Ok (), w)"
    using Cons.prems(3) [of f w o'] old(2) by (simp add: f vs(1))
  ultimately show ?case by (simp add: f old(1) vs(1))
qed simp

lemma elems_read_back:
  assumes "\<And>w. w \<in> set ws \<Longrightarrow> \<exists>sv vs. e w = CMap sv \<and> w = GStruct vs
     \<and> parseFields odf strict True sv fs (map (\<lambda>f. zero_of (fieldType f)) fs) = (Ok (), vs)"
  shows "parseElems odf strict fs buf (map e ws) = Ok (buf @ ws)"
  using assms
proof (induction ws arbitrary: buf)
  case (Cons w ws)
  then obtain sv vs where "e w = CMap sv" "w = GStruct vs"
    "parseFields odf strict True sv fs (map (\<lambda>f. zero_of (fieldType f)) fs) = (Ok (), vs)" by fastforce
  with Cons show ?case by simp
qed simp

lemma convertAll_read_back:
  assumes "\<And>w. w \<in> set ws \<Longrightarrow> e w \<noteq> CNil \<and> Convert odf t (e w) = Some w"
  shows "convertAll odf n t buf (map e ws) = Ok (buf @ ws)"
  using assms by (induction ws arbitrary: buf) auto

lemma HostPort_read_back:
  assumes "in_range KInt (Port hp)" "CHR ''['' \<notin> set (Host hp)" "CHR '']'' \<notin> set (Host hp)"
  shows "parseHostPort n (CString (HostPort_String hp)) = Ok hp"
proof -
  have free: "c \<notin> set (Itoa (Port hp))" if "of_char c \<noteq> (45 :: nat)" "of_char c < (48 :: nat) \<or> 58 \<le> (of_char c :: nat)" for c
    using that nat_digits_free [of c] by (auto simp: Itoa_def)
  have "SplitHostPort (HostPort_String hp) = Some (Host hp, Itoa (Port hp))"
    unfolding HostPort_String_def by (rule SplitHostPort_JoinHostPort) (use assms free in auto)
  moreover have "Atoi (Itoa (Port hp)) = Some (Port hp)"
    using assms(1) by (intro Atoi_Itoa) (auto simp: in_range_def)
  ultimately show ?thesis by (simp add: parseHostPort_def)
qed

lemma hostPorts_read_back:
  assumes "\<And>hp. hp \<in> set hps \<Longrightarrow> parseHostPort n (e (GHostPort hp)) = Ok hp"
  shows "hostPortsFrom n buf (map e (map GHostPort hps)) = Ok (buf @ hps)"
  using assms by (induction hps arbitrary: buf) auto

text \<open>The values of each kind of type.\<close>

lemma has_type_GStruct: "has_type (TStruct fs) v \<Longrightarrow> \<exists>vs. v = GStruct vs \<and> list_all2 (\<lambda>f. has_type (fieldType f)) fs vs"
  by (cases v) auto

lemma has_type_GSlice: "has_type (TSlice t) v \<Longrightarrow> \<exists>vs. v = GSlice vs \<and> list_all (has_type t) vs"
  by (cases v) auto

lemma render_not_nil:
  "has_type t v \<Longrightarrow> writable t \<Longrightarrow> writable_val t v \<Longrightarrow> render low t v \<noteq> CNil"
  by (cases t; cases v) (auto split: option.splits)

lemma primitive_read_back:
  assumes "t = TString \<or> (\<exists>k. t = TInt k) \<or> (\<exists>k. t = TFloat k)" "has_type t v" "writable_val t v"
  shows "Convert odf t (render low t v) = Some v"
  using assms by (cases v) (auto simp: Convert_def SetInt_id)

definition reads_back :: "(gfloat \<Rightarrow> int) \<Rightarrow> bool \<Rightarrow> bool \<Rightarrow> gtype \<Rightarrow> bool" where
  "reads_back odf strict low t \<longleftrightarrow>
     (\<forall>v old name. writable t \<longrightarrow> has_type t v \<longrightarrow> writable_val t v \<longrightarrow> has_type t old \<longrightarrow>
        parseField odf strict name t old (render low t v) = (Ok (), v))"

lemma struct_read_back:
  assumes "\<And>f. f \<in> set fs \<Longrightarrow> reads_back odf strict low (fieldType f)"
    and w: "writable (TStruct fs)" "has_type (TStruct fs) (GStruct vs)" "writable_val (TStruct fs) (GStruct vs)"
    and old: "has_type (TStruct fs) (GStruct old)"
  shows "\<exists>sv. render low (TStruct fs) (GStruct vs) = CMap sv \<and> parseFields odf strict True sv fs old = (Ok (), vs)"
proof (intro exI conjI)
  let ?sv = "map (\<lambda>(f, w). (key low (fieldName f), render low (fieldType f) w)) (zip fs vs)"
  show "render low (TStruct fs) (GStruct vs) = CMap ?sv" by simp
  have len: "length vs = length fs" using w(2) by (auto dest: list_all2_lengthD)
  show "parseFields odf strict True ?sv fs old = (Ok (), vs)"
  proof (rule fields_read_back)
    fix f u o' assume fu: "(f, u) \<in> set (zip fs vs)" and o': "has_type (fieldType f) o'"
    have f: "f \<in> set fs" "exported f" "fieldName f \<noteq> ''''" "writable (fieldType f)"
      using w(1) set_zip_leftD [OF fu] by (auto simp: list_all_iff)
    have u: "has_type (fieldType f) u" "writable_val (fieldType f) u"
      using w(2,3) fu by (auto simp: list_all2_iff)
    have "get ?sv (fieldName f) = render low (fieldType f) u"
      by (rule get_rendered) (use w(1) fu f in auto)
    with render_not_nil [OF u(1) f(4) u(2)] assms(1) [OF f(1)] f u o'
    show "exported f \<and> get ?sv (fieldName f) \<noteq> CNil
      \<and> parseField odf strict (fieldName f) (fieldType f) o' (get ?sv (fieldName f)) = (Ok (), u)"
      by (simp add: reads_back_def)
  qed (use old len in auto)
qed

lemma slice_read_back:
  assumes IH: "element_type t \<Longrightarrow> reads_back odf strict low t"
  shows "reads_back odf strict low (TSlice t)"
  unfolding reads_back_def
proof (intro allI impI)
  fix v old name
  assume w: "writable (TSlice t)" "has_type (TSlice t) v" "writable_val (TSlice t) v" and old: "has_type (TSlice t) old"
  obtain ws where v: "v = GSlice ws" "list_all (has_type t) ws" using has_type_GSlice [OF w(2)] by blast
  have ws: "has_type t u" "writable_val t u" if "u \<in> set ws" for u
    using that v w(3) by (auto simp: list_all_iff)
  have t: "writable t" "element_type t" using w(1) by auto
  have prim: "parsePrimitiveArray odf name t (CList (map (render low t) ws)) = Ok ws"
    if "t = TString \<or> (\<exists>k. t = TInt k) \<or> (\<exists>k. t = TFloat k)"
    using convertAll_read_back [of ws "render low t" odf t name "[]"] primitive_read_back [OF that] ws
      render_not_nil [OF _ t(1)] by (simp add: parsePrimitiveArray_def)
  show "parseField odf strict name (TSlice t) old (render low (TSlice t) v) = (Ok (), v)"
  proof (cases t)
    case THostPort
    have "\<exists>hp. u = GHostPort hp" if "u \<in> set ws" for u
      using ws(1) [OF that] by (cases u) (auto simp: THostPort)
    then obtain hps where eq: "ws = map GHostPort hps" by (metis ex_map_conv)
    have "hostPortsFrom name [] (map (render low t) (map GHostPort hps)) = Ok ([] @ hps)"
    proof (rule hostPorts_read_back)
      fix hp assume "hp \<in> set hps"
      then have "GHostPort hp \<in> set ws" by (simp add: eq)
      from ws [OF this] show "parseHostPort name (render low t (GHostPort hp)) = Ok hp"
        by (simp add: THostPort HostPort_read_back)
    qed
    then show ?thesis by (simp add: THostPort v eq parseHostPorts_def)
  next
    case (TStruct fs)
    have "parseElems odf strict fs [] (map (render low t) ws) = Ok ([] @ ws)"
    proof (rule elems_read_back)
      fix u assume "u \<in> set ws"
      then obtain vs where u: "u = GStruct vs" using ws(1) TStruct has_type_GStruct by blast
      have "parseField odf strict name t (GStruct (map (\<lambda>f. zero_of (fieldType f)) fs)) (render low t u) = (Ok (), u)"
        using IH [OF t(2)] t(1) ws [OF \<open>u \<in> set ws\<close>] zero_fields_type [of fs]
        unfolding reads_back_def TStruct by blast
      then show "\<exists>sv vs. render low t u = CMap sv \<and> u = GStruct vs
          \<and> parseFields odf strict True sv fs (map (\<lambda>f. zero_of (fieldType f)) fs) = (Ok (), vs)"
        by (auto simp: TStruct u split: prod.splits)
    qed
    then show ?thesis by (simp add: TStruct v)
  qed (use prim t v in auto)
qed

lemma reads_back: "reads_back odf strict low t"
proof (induction t rule: writable.induct)
  case (2 fs)
  show ?case unfolding reads_back_def
  proof (intro allI impI)
    fix v old name
    assume w: "writable (TStruct fs)" "has_type (TStruct fs) v" "writable_val (TStruct fs) v" and "has_type (TStruct fs) old"
    then obtain vs os where v: "v = GStruct vs" "old = GStruct os" "has_type (TStruct fs) (GStruct os)"
      using has_type_GStruct by blast
    from struct_read_back [OF _ w(1) w(2,3) [unfolded v(1)] v(3)] 2 show
      "parseField odf strict name (TStruct fs) old (render low (TStruct fs) v) = (Ok (), v)"
      by (fastforce simp: v(1,2))
  qed
next
  case (3 t)
  then show ?case by (rule slice_read_back)
qed (auto simp: reads_back_def parseBoolean_def parseInt_def parseFloat_def parseString_def SetInt_id HostPort_read_back
    split: gval.splits option.splits)

section \<open>The structs of the bridge\<close>

text \<open>The values of the types that the configuration uses.\<close>

lemma typed_values:
  "has_type TBool v \<longleftrightarrow> (\<exists>b. v = GBool b)"
  "has_type (TInt k) v \<longleftrightarrow> (\<exists>i. v = GInt i \<and> in_range k i)"
  "has_type TString v \<longleftrightarrow> (\<exists>s. v = GString s)"
  "has_type (TSlice t) v \<longleftrightarrow> (\<exists>vs. v = GSlice vs \<and> list_all (has_type t) vs)"
  by (cases v; simp)+

definition typed :: "gfield list \<Rightarrow> gval list \<Rightarrow> bool" where
  "typed fs vs \<longleftrightarrow> list_all2 (\<lambda>f. has_type (fieldType f)) fs vs"

lemma typed_struct: "has_type (TStruct fs) v \<longleftrightarrow> (\<exists>vs. v = GStruct vs \<and> typed fs vs)"
  by (cases v) (auto simp: typed_def)

lemma typed_fields [simp]:
  "typed [] vs \<longleftrightarrow> vs = []"
  "typed (Field n e t # fs) vs \<longleftrightarrow> (\<exists>w ws. vs = w # ws \<and> has_type t w \<and> typed fs ws)"
  by (auto simp: typed_def list_all2_Cons1)

lemmas struct_values = typed_values typed_struct

lemma of_to_TLSConf [simp]: "typed TLSConf_type v \<Longrightarrow> of_TLSConf (to_TLSConf v) = v"
  by (auto simp del: has_type.simps simp add: TLSConf_type_def struct_values of_TLSConf_def to_TLSConf_def)

lemma of_to_LoggingConfig [simp]: "typed LoggingConfig_type v \<Longrightarrow> of_LoggingConfig (to_LoggingConfig v) = v"
  by (auto simp del: has_type.simps
      simp add: LoggingConfig_type_def struct_values of_LoggingConfig_def to_LoggingConfig_def)

lemma of_to_MQConfig [simp]: "typed MQConfig_type v \<Longrightarrow> of_MQConfig (to_MQConfig v) = v"
  by (auto simp del: has_type.simps simp add: MQConfig_type_def struct_values of_MQConfig_def to_MQConfig_def)

lemma of_to_NATSStreamingConfig [simp]:
  "typed NATSStreamingConfig_type v \<Longrightarrow> of_NATSStreamingConfig (to_NATSStreamingConfig v) = v"
  by (auto simp del: has_type.simps
      simp add: NATSStreamingConfig_type_def struct_values of_NATSStreamingConfig_def to_NATSStreamingConfig_def)

lemma of_to_MonitoringConfig [simp]: "typed MonitoringConfig_type v \<Longrightarrow> of_MonitoringConfig (to_MonitoringConfig v) = v"
  by (auto simp del: has_type.simps
      simp add: MonitoringConfig_type_def struct_values of_MonitoringConfig_def to_MonitoringConfig_def)

lemma strings_of [simp]: "list_all (has_type TString) vs \<Longrightarrow> map (GString \<circ> the_str) vs = vs"
  by (induction vs) (auto split: gval.splits)

lemma of_to_NATSConfig [simp]: "typed NATSConfig_type v \<Longrightarrow> of_NATSConfig (to_NATSConfig v) = v"
  by (auto simp del: has_type.simps simp add: NATSConfig_type_def struct_values of_NATSConfig_def to_NATSConfig_def)

lemma of_to_ConnectorConfig [simp]: "typed ConnectorConfig_type v \<Longrightarrow> of_ConnectorConfig (to_ConnectorConfig v) = v"
  by (auto simp del: has_type.simps
      simp add: ConnectorConfig_type_def struct_values of_ConnectorConfig_def to_ConnectorConfig_def)

lemma connectors_of [simp]:
  "list_all (has_type (TStruct ConnectorConfig_type)) vs \<Longrightarrow>
   map (\<lambda>d. GStruct (of_ConnectorConfig (to_ConnectorConfig (the_vals d)))) vs = vs"
  by (induction vs) (auto simp: typed_struct simp del: has_type.simps)

lemma of_to_BridgeConfig: "typed BridgeConfig_type v \<Longrightarrow> of_BridgeConfig (to_BridgeConfig v) = v"
  by (auto simp del: has_type.simps
      simp add: BridgeConfig_type_def struct_values of_BridgeConfig_def to_BridgeConfig_def comp_def)

lemma BridgeConfig_array_free: "array_free (TStruct BridgeConfig_type)"
  by (simp add: config_types)

lemma BridgeConfig_writable: "writable (TStruct BridgeConfig_type)"
  by (simp add: config_types) (simp add: ToLower_def lower_def)

lemma BridgeConfig_writable_val: "writable_val (TStruct BridgeConfig_type) (GStruct (of_BridgeConfig c))"
  by (simp add: config_types of_configs list_all_iff)

definition ConnectorConfig_in_range :: "ConnectorConfig \<Rightarrow> bool" where
  "ConnectorConfig_in_range c \<longleftrightarrow> list_all (in_range KInt)
     [cfg_StartAtSequence c, cfg_StartAtTime c, cfg_IncomingBufferSize c, cfg_IncomingMessageWait c]"

definition BridgeConfig_in_range :: "BridgeConfig \<Rightarrow> bool" where
  "BridgeConfig_in_range c \<longleftrightarrow>
     list_all (in_range KInt)
       [cfg_ReconnectInterval c, nats_ConnectTimeout (cfg_NATS c), nats_ReconnectWait (cfg_NATS c),
        nats_MaxReconnects (cfg_NATS c), stan_PubAckWait (cfg_STAN c), stan_MaxPubAcksInflight (cfg_STAN c),
        stan_ConnectWait (cfg_STAN c), mon_HTTPPort (cfg_Monitoring c), mon_HTTPSPort (cfg_Monitoring c)]
     \<and> list_all ConnectorConfig_in_range (cfg_Connect c)"

lemma BridgeConfig_has_type:
  "has_type (TStruct BridgeConfig_type) (GStruct (of_BridgeConfig c)) \<longleftrightarrow> BridgeConfig_in_range c"
  by (auto simp: config_types of_configs list_all_iff BridgeConfig_in_range_def ConnectorConfig_in_range_def)

lemma typed_BridgeConfig: "typed BridgeConfig_type (of_BridgeConfig c) \<longleftrightarrow> BridgeConfig_in_range c"
  using BridgeConfig_has_type [of c] by (simp add: typed_def)

section \<open>The contract of the loader\<close>

text \<open>
  What the program relies on: a valid configuration that was written out is loaded whatever the configuration was
  before, and loading keeps configurations valid. Then the last of a sequence of files wins, whatever came before it.
\<close>

locale config_loader =
  fixes load :: "'d \<Rightarrow> 'c \<Rightarrow> unit outcome \<times> 'c"
    and written :: "'c \<Rightarrow> 'd \<Rightarrow> bool"
    and valid :: "'c \<Rightarrow> bool"
    and acceptable :: "'d \<Rightarrow> bool"
  assumes load_written: "written c d \<Longrightarrow> valid c \<Longrightarrow> valid c0 \<Longrightarrow> load d c0 = (Ok (), c)"
    and load_valid: "acceptable d \<Longrightarrow> valid c0 \<Longrightarrow> valid (snd (load d c0))"
    and load_safe: "acceptable d \<Longrightarrow> valid c0 \<Longrightarrow> fst (load d c0) \<noteq> Panic"
begin

lemma loads_valid: "list_all acceptable ds \<Longrightarrow> valid c0 \<Longrightarrow> valid (fold (\<lambda>d c. snd (load d c)) ds c0)"
  by (induction ds arbitrary: c0) (auto intro: load_valid)

lemma last_written_wins:
  "list_all acceptable ds \<Longrightarrow> valid c0 \<Longrightarrow> written c d \<Longrightarrow> valid c \<Longrightarrow>
   load d (fold (\<lambda>d c. snd (load d c)) ds c0) = (Ok (), c)"
  by (simp add: load_written loads_valid)

end

text \<open>Loading into the configuration of the bridge meets the contract, in both modes.\<close>

definition load_bridge :: "loader \<Rightarrow> bool \<Rightarrow> (string \<times> cval) list \<Rightarrow> BridgeConfig \<Rightarrow> unit outcome \<times> BridgeConfig" where
  "load_bridge ld strict data c =
     map_prod id to_BridgeConfig (LoadConfigFromMap ld data (True, BridgeConfig_type, of_BridgeConfig c) strict)"

definition written_bridge :: "BridgeConfig \<Rightarrow> (string \<times> cval) list \<Rightarrow> bool" where
  "written_bridge c data \<longleftrightarrow>
     (\<exists>low. render low (TStruct BridgeConfig_type) (GStruct (of_BridgeConfig c)) = CMap data)"

definition parser_map :: "(string \<times> cval) list \<Rightarrow> bool" where
  "parser_map data \<longleftrightarrow> wf_map data \<and> nil_free (CMap data)"

lemmas loader_defs = LoadConfigFromMap_def parseStruct_def load_bridge_def

interpretation bridge_loader: config_loader "load_bridge ld strict" written_bridge BridgeConfig_in_range parser_map
proof unfold_locales
  fix c d c0
  assume "written_bridge c d" "BridgeConfig_in_range c" "BridgeConfig_in_range c0"
  moreover from this obtain low where
    low: "render low (TStruct BridgeConfig_type) (GStruct (of_BridgeConfig c)) = CMap d" by (auto simp: written_bridge_def)
  ultimately show "load_bridge ld strict d c0 = (Ok (), c)"
    using struct_read_back [OF reads_back BridgeConfig_writable _ BridgeConfig_writable_val,
        of c "of_BridgeConfig c0" low "oddFloat ld" strict] typed_BridgeConfig
    by (auto simp: loader_defs typed_def simp del: render.simps)
next
  fix d c0 assume a: "parser_map d" "BridgeConfig_in_range c0"
  then have t: "typed BridgeConfig_type (of_BridgeConfig c0)" by (simp add: typed_BridgeConfig)
  let ?v = "snd (parseFields (oddFloat ld) strict True d BridgeConfig_type (of_BridgeConfig c0))"
  have v: "typed BridgeConfig_type ?v"
    using parse_keeps_type(2) [of BridgeConfig_type "of_BridgeConfig c0" d] t a by (simp add: typed_def parser_map_def)
  show "BridgeConfig_in_range (snd (load_bridge ld strict d c0))"
    using v of_to_BridgeConfig [OF v] typed_BridgeConfig [of "to_BridgeConfig ?v"] by (simp add: loader_defs)
  show "fst (load_bridge ld strict d c0) \<noteq> Panic"
    using parse_no_panic(2) [of BridgeConfig_type "of_BridgeConfig c0" d] t a BridgeConfig_array_free
    by (auto simp: loader_defs typed_def parser_map_def simp del: array_free.simps)
qed

section \<open>Properties\<close>

text \<open>C10. Whatever a configuration map holds, loading it keeps the type of the struct, also when it
  fails halfway: a number is cut down to the width of its field and nothing of another type is ever stored. It does
  not panic when the struct has no array field and no list of the map holds a nil.\<close>

theorem load_keeps_types:
  assumes "typed fs vs" "wf_map data"
    and "LoadConfigFromMap ld data (addr, fs, vs) strict = (r, vs')"
  shows "typed fs vs' \<and> (array_free (TStruct fs) \<and> nil_free (CMap data) \<longrightarrow> r \<noteq> Panic)"
  using parse_keeps_type(2) [of fs vs data "oddFloat ld" strict addr]
    parse_no_panic(2) [of fs vs data "oddFloat ld" strict addr] assms
  by (auto simp: typed_def LoadConfigFromMap_def parseStruct_def simp del: nil_free.simps wf_cval.simps array_free.simps)

text \<open>C9. A struct that is written out as a map, under the names of its fields or under their
  lower-case forms, is read back exactly, whatever the struct held before and in both modes.\<close>

theorem written_config_loads:
  assumes "writable (TStruct fs)" "typed fs vs" "writable_val (TStruct fs) (GStruct vs)" "typed fs old"
  shows "\<exists>data. render low (TStruct fs) (GStruct vs) = CMap data
     \<and> LoadConfigFromMap ld data (True, fs, old) strict = (Ok (), vs)"
  using struct_read_back [of fs "oddFloat ld" strict low vs old] reads_back assms
  by (simp add: typed_def LoadConfigFromMap_def parseStruct_def)

text \<open>C21. A strict load that succeeds found every field, which was settable, and its result does not
  depend on what the struct held or on the mode. A lenient load leaves every field alone that the map does not
  mention; when it succeeds, every other field holds what its own setting parses to.\<close>

theorem load_modes:
  assumes "typed fs vs"
  shows "(\<forall>ws old strict. LoadConfigFromMap ld data (addr, fs, vs) True = (Ok (), ws) \<and> typed fs old \<longrightarrow>
            LoadConfigFromMap ld data (addr, fs, old) strict = (Ok (), ws)
            \<and> (\<forall>f\<in>set fs. exported f \<and> get data (fieldName f) \<noteq> CNil))
     \<and> (\<forall>r ws i n e t. LoadConfigFromMap ld data (addr, fs, vs) False = (r, ws) \<and> i < length fs \<and> fs ! i = Field n e t \<longrightarrow>
          (\<not> (addr \<and> e) \<or> get data n = CNil \<longrightarrow> ws ! i = vs ! i)
          \<and> (r = Ok () \<and> addr \<and> e \<and> get data n \<noteq> CNil \<longrightarrow>
               parseField (oddFloat ld) False n t (vs ! i) (get data n) = (Ok (), ws ! i)))"
proof (intro conjI allI impI)
  note defs = LoadConfigFromMap_def parseStruct_def
  have len: "length vs = length fs" using assms by (simp add: typed_def list_all2_lengthD)
  {
    fix ws old strict
    assume "LoadConfigFromMap ld data (addr, fs, vs) True = (Ok (), ws) \<and> typed fs old"
    then have ok: "parseFields (oddFloat ld) True addr data fs vs = (Ok (), ws)" and old: "typed fs old"
      by (simp_all add: defs)
    show "LoadConfigFromMap ld data (addr, fs, old) strict = (Ok (), ws)"
      using strict_load_determined(2) [of True fs vs old "oddFloat ld" addr data strict] ok old assms
      by (simp add: defs typed_def)
    show "\<forall>f\<in>set fs. exported f \<and> get data (fieldName f) \<noteq> CNil"
      using strict_fields_present [OF len ok] by blast
  }
  fix r ws i n e t
  assume "LoadConfigFromMap ld data (addr, fs, vs) False = (r, ws) \<and> i < length fs \<and> fs ! i = Field n e t"
  then show "\<not> (addr \<and> e) \<or> get data n = CNil \<Longrightarrow> ws ! i = vs ! i"
    "r = Ok () \<and> addr \<and> e \<and> get data n \<noteq> CNil \<Longrightarrow>
       parseField (oddFloat ld) False n t (vs ! i) (get data n) = (Ok (), ws ! i)"
    using lenient_field [OF len, of i n e t "oddFloat ld" addr data r ws] by (auto simp: defs)
qed

section \<open>Witnesses\<close>

definition example_loader :: loader where
  "example_loader = \<lparr>ReadFile = (\<lambda>_. Inr ''''), conf_Parse = (\<lambda>_. Inr []), oddFloat = (\<lambda>_. 0)\<rparr>"

text \<open>A port given as a string, a host and port, and a level of eight bits that is cut down.\<close>

definition example_fields :: "gfield list" where
  "example_fields = [integer ''Port'', Field ''Listen'' True THostPort, Field ''Level'' True (TInt Int8)]"

definition example_values :: "gval list" where
  "example_values = [GInt 1, GHostPort \<lparr>Host = '''', Port = 0\<rparr>, GInt 7]"

definition example_map :: "(string \<times> cval) list" where
  "example_map = [(''port'', CString ''4222''), (''Listen'', CString ''localhost:80''), (''level'', CInt Int64 300)]"

lemma example_typed: "typed example_fields example_values" "wf_map example_map"
  by (simp_all add: example_fields_def example_values_def example_map_def in_range_def)

lemma example_names: "ToLower ''Port'' = ''port''" "ToLower ''Level'' = ''level''"
  by code_simp+

lemma example_loads:
  "LoadConfigFromMap example_loader example_map (True, example_fields, example_values) s =
     (Ok (), [GInt 4222, GHostPort \<lparr>Host = ''localhost'', Port = 80\<rparr>, GInt 44])"
  by (simp add: LoadConfigFromMap_def parseStruct_def example_fields_def example_values_def example_map_def
      example_loader_def get_def example_names parseInt_def parseHostPort_def SetInt_def Atoi_def
      digit_value_def SplitHostPort_def last_index_of_def)

theorem load_keeps_types_witness:
  "LoadConfigFromMap example_loader example_map (True, example_fields, example_values) True =
     (Ok (), [GInt 4222, GHostPort \<lparr>Host = ''localhost'', Port = 80\<rparr>, GInt 44])
   \<and> typed example_fields [GInt 4222, GHostPort \<lparr>Host = ''localhost'', Port = 80\<rparr>, GInt 44]"
  using load_keeps_types [OF example_typed example_loads] example_loads by blast

definition example_config :: BridgeConfig where
  "example_config = (DefaultBridgeConfig ''_STAN.discover'' 16384)
     \<lparr>cfg_Connect := [zero_ConnectorConfig\<lparr>cfg_ID := ''in'', cfg_Type := Queue2NATS, cfg_Subject := ''s'', cfg_Queue := ''Q''\<rparr>]\<rparr>"

lemma example_config_in_range:
  "BridgeConfig_in_range example_config" "BridgeConfig_in_range (DefaultBridgeConfig ''_STAN.discover'' 16384)"
  by (simp_all add: BridgeConfig_in_range_def ConnectorConfig_in_range_def example_config_def DefaultBridgeConfig_def
      zero_ConnectorConfig_def in_range_def)

theorem written_config_loads_witness:
  "\<exists>data. render True (TStruct BridgeConfig_type) (GStruct (of_BridgeConfig example_config)) = CMap data
     \<and> LoadConfigFromMap example_loader data
         (True, BridgeConfig_type, of_BridgeConfig (DefaultBridgeConfig ''_STAN.discover'' 16384)) True
       = (Ok (), of_BridgeConfig example_config)"
  by (rule written_config_loads [OF BridgeConfig_writable _ BridgeConfig_writable_val])
     (use example_config_in_range typed_BridgeConfig in auto)

theorem load_modes_witness:
  "LoadConfigFromMap example_loader example_map (True, example_fields, map (\<lambda>f. zero_of (fieldType f)) example_fields) False
     = (Ok (), [GInt 4222, GHostPort \<lparr>Host = ''localhost'', Port = 80\<rparr>, GInt 44])"
proof -
  have "typed example_fields (map (\<lambda>f. zero_of (fieldType f)) example_fields)"
    using zero_fields_type [of example_fields] by (simp add: typed_def)
  with load_modes [OF example_typed(1), of example_loader example_map True] example_loads [of True]
  show ?thesis by blast
qed

end
