(* ===== verification/Program.thy ===== *)
theory Program
  imports Bridge Conf_Load
begin

text \<open>
  The program (\<^verbatim>\<open>src/nats-mq/main.go\<close>) and \<^verbatim>\<open>LoadConfigFile\<close> of \<^verbatim>\<open>bridge.go\<close>. \<^verbatim>\<open>main\<close> creates the bridge
  server, loads its configuration, starts it and leaves the process to its goroutines; one of them waits for
  signals. An interrupt stops the server and ends the process, a hang-up stops it and starts another one.

  The variable \<^verbatim>\<open>server\<close> of \<^verbatim>\<open>main\<close> is \<open>pr_server\<close>. The hang-up branch declares a new variable of the same name
  (\<^verbatim>\<open>server :=\<close>), which no later turn of the loop sees: the servers made there are \<open>pr_hidden\<close>.
\<close>

section \<open>Loading the configuration file\<close>

record program_env =
  pe_loader :: loader
  pe_Getenv :: "string \<Rightarrow> string"
  pe_DefaultDiscoverPrefix :: string
  pe_DefaultMaxPubAcksInflight :: int
  pe_bridge :: "nat \<Rightarrow> bridge_env"
  pe_configFile :: string

definition LoadConfigFile :: "program_env \<Rightarrow> string \<Rightarrow> BridgeServer \<Rightarrow> unit outcome \<times> BridgeServer" where
  "LoadConfigFile pe configFile bridge =
     (let config = DefaultBridgeConfig (pe_DefaultDiscoverPrefix pe) (pe_DefaultMaxPubAcksInflight pe);
          configFile = (if configFile = '''' then pe_Getenv pe ''MQNATS_BRIDGE_CONFIG'' else configFile)
      in if configFile = '''' then (Err (Errorf ''no config file specified''), bridge)
         else case LoadConfigFromFile (pe_loader pe) configFile (True, BridgeConfig_type, of_BridgeConfig config) False of
                (Ok _, v) \<Rightarrow> (Ok (), bridge\<lparr>br_config := to_BridgeConfig v\<rparr>)
              | (Err err, _) \<Rightarrow> (Err err, bridge)
              | (Panic, _) \<Rightarrow> (Panic, bridge))"

section \<open>The process\<close>

datatype status = Alive | Exited | Crashed

record process =
  pr_server :: "BridgeServer option"
  pr_hidden :: "BridgeServer list"
  pr_status :: status

definition initial_process :: process where
  "initial_process = \<lparr>pr_server = None, pr_hidden = [], pr_status = Alive\<rparr>"

text \<open>Create, configure and start a server; the error of \<^verbatim>\<open>LoadConfigFile\<close> is not looked at.\<close>

definition launch :: "program_env \<Rightarrow> nat \<Rightarrow> unit outcome \<times> BridgeServer" where
  "launch pe k =
     (case LoadConfigFile pe (pe_configFile pe) NewBridgeServer of
        (Panic, b) \<Rightarrow> (Panic, b)
      | (_, b) \<Rightarrow> Start (pe_bridge pe k) b)"

definition startup :: "program_env \<Rightarrow> process \<Rightarrow> process" where
  "startup pe p =
     (case launch pe 0 of
        (Ok _, b) \<Rightarrow> p\<lparr>pr_server := Some b\<rparr>
      | (Err _, b) \<Rightarrow> p\<lparr>pr_server := Some (Stop (pe_bridge pe 0) b), pr_status := Exited\<rparr>
      | (Panic, b) \<Rightarrow> p\<lparr>pr_server := Some b, pr_status := Crashed\<rparr>)"

text \<open>A signal that comes before the server is there dereferences a nil pointer.\<close>

definition interrupt :: "program_env \<Rightarrow> process \<Rightarrow> process" where
  "interrupt pe p =
     (case pr_server p of
        None \<Rightarrow> p\<lparr>pr_status := Crashed\<rparr>
      | Some b \<Rightarrow> p\<lparr>pr_server := Some (Stop (pe_bridge pe 0) b), pr_status := Exited\<rparr>)"

definition hangUp :: "program_env \<Rightarrow> process \<Rightarrow> process" where
  "hangUp pe p =
     (case pr_server p of
        None \<Rightarrow> p\<lparr>pr_status := Crashed\<rparr>
      | Some b \<Rightarrow>
          let p = p\<lparr>pr_server := Some (Stop (pe_bridge pe 0) b)\<rparr>;
              k = Suc (length (pr_hidden p))
          in case launch pe k of
               (Ok _, b) \<Rightarrow> p\<lparr>pr_hidden := pr_hidden p @ [b]\<rparr>
             | (Err _, b) \<Rightarrow> p\<lparr>pr_hidden := pr_hidden p @ [Stop (pe_bridge pe k) b], pr_status := Exited\<rparr>
             | (Panic, b) \<Rightarrow> p\<lparr>pr_hidden := pr_hidden p @ [b], pr_status := Crashed\<rparr>)"

datatype event = Startup | Interrupt | HangUp

fun handle :: "program_env \<Rightarrow> event \<Rightarrow> process \<Rightarrow> process" where
  "handle pe Startup p = startup pe p"
| "handle pe Interrupt p = interrupt pe p"
| "handle pe HangUp p = hangUp pe p"

fun run :: "program_env \<Rightarrow> event list \<Rightarrow> process \<Rightarrow> process" where
  "run pe [] p = p"
| "run pe (e # es) p = (if pr_status p = Alive then run pe es (handle pe e p) else p)"

lemma run_ended [simp]: "pr_status p \<noteq> Alive \<Longrightarrow> run pe es p = p"
  by (cases es) auto

lemma run_append: "run pe (es @ fs) p = run pe fs (run pe es p)"
  by (induction pe es p rule: run.induct) auto

section \<open>Loading and launching\<close>

lemma Stop_stops [simp]: "\<not> br_running (Stop be b)"
  using Stop_facts [of b be] by (cases "br_running b") (simp_all add: Stop_def)


text \<open>The file the program reads, and what it is when it holds a configuration written out.\<close>

definition config_file :: "program_env \<Rightarrow> string" where
  "config_file pe = (if pe_configFile pe = '''' then pe_Getenv pe ''MQNATS_BRIDGE_CONFIG'' else pe_configFile pe)"

definition file_holds :: "loader \<Rightarrow> string \<Rightarrow> BridgeConfig \<Rightarrow> bool" where
  "file_holds ld file c \<longleftrightarrow>
     (\<exists>content data. ReadFile ld file = Inr content \<and> conf_Parse ld content = Inr data \<and> written_bridge c data)"

lemma DefaultBridgeConfig_in_range: "in_range KInt n \<Longrightarrow> BridgeConfig_in_range (DefaultBridgeConfig p n)"
  by (simp add: BridgeConfig_in_range_def DefaultBridgeConfig_def in_range_def)

text \<open>In terms of the contract of the loader.\<close>

lemma LoadConfigFile_load:
  assumes "ReadFile (pe_loader pe) (config_file pe) = Inr content" "conf_Parse (pe_loader pe) content = Inr data"
    and "config_file pe \<noteq> ''''"
  shows "LoadConfigFile pe (pe_configFile pe) bridge =
    (case load_bridge (pe_loader pe) False data
        (DefaultBridgeConfig (pe_DefaultDiscoverPrefix pe) (pe_DefaultMaxPubAcksInflight pe)) of
       (Ok u, c) \<Rightarrow> (Ok (), LoadConfig c bridge) | (Err e, _) \<Rightarrow> (Err e, bridge) | (Panic, _) \<Rightarrow> (Panic, bridge))"
  using assms
  by (simp add: LoadConfigFile_def Let_def LoadConfigFromFile_def LoadConfigFromString_def loader_defs
      config_file_def LoadConfig_def split: if_splits prod.splits outcome.splits)

lemma LoadConfigFile_holds:
  assumes "file_holds (pe_loader pe) (config_file pe) c" "config_file pe \<noteq> ''''" "BridgeConfig_in_range c"
    and "in_range KInt (pe_DefaultMaxPubAcksInflight pe)"
  shows "LoadConfigFile pe (pe_configFile pe) bridge = (Ok (), LoadConfig c bridge)"
proof -
  obtain content data where f: "ReadFile (pe_loader pe) (config_file pe) = Inr content"
    "conf_Parse (pe_loader pe) content = Inr data" "written_bridge c data"
    using assms(1) by (auto simp: file_holds_def)
  show ?thesis
    unfolding LoadConfigFile_load [OF f(1,2) assms(2)]
    by (simp add: bridge_loader.load_written [OF f(3) assms(3) DefaultBridgeConfig_in_range [OF assms(4)]])
qed

lemma launch_holds:
  assumes "file_holds (pe_loader pe) (config_file pe) c" "config_file pe \<noteq> ''''" "BridgeConfig_in_range c"
    and "in_range KInt (pe_DefaultMaxPubAcksInflight pe)"
  shows "launch pe k = Start (pe_bridge pe k) (LoadConfig c NewBridgeServer)"
  by (simp add: launch_def LoadConfigFile_holds [OF assms])

lemma launch_running:
  assumes "launch pe k = (Ok (), b)"
  shows "br_running b"
  using assms Start_spec by (auto simp: launch_def split: prod.splits outcome.splits)

section \<open>Properties\<close>

text \<open>C12. From the file to the connectors and back. When the configuration file holds a configuration and a bridge with
  this configuration starts, the program runs that bridge: it has exactly this configuration, one connector for each
  entry, all connected. An interrupt then ends the process with every connector disconnected and NATS closed.\<close>

theorem configured_bridge_lifecycle:
  assumes "file_holds (pe_loader pe) (config_file pe) c" "config_file pe \<noteq> ''''" "BridgeConfig_in_range c"
    and "in_range KInt (pe_DefaultMaxPubAcksInflight pe)"
    and "Start (pe_bridge pe 0) (LoadConfig c NewBridgeServer) = (Ok (), b)"
  shows "run pe [Startup] initial_process = \<lparr>pr_server = Some b, pr_hidden = [], pr_status = Alive\<rparr>
    \<and> br_running b \<and> br_config b = c \<and> length (br_connectors b) = length (cfg_Connect c)
    \<and> (\<forall>d\<in>set (br_connectors b). is_connected d)
    \<and> (\<exists>b'. run pe [Startup, Interrupt] initial_process = \<lparr>pr_server = Some b', pr_hidden = [], pr_status = Exited\<rparr>
         \<and> \<not> br_running b' \<and> (\<forall>d\<in>set (br_connectors b'). \<not> is_connected d) \<and> \<not> CheckNATS b')"
proof -
  have l: "launch pe 0 = (Ok (), b)" using launch_holds [OF assms(1-4)] assms(5) by simp
  have s: "br_running b" "br_config b = c" "length (br_connectors b) = length (cfg_Connect c)"
    "\<forall>d\<in>set (br_connectors b). is_connected d"
    using Start_spec [OF assms(5)] by (auto simp: LoadConfig_def in_set_conv_nth)
  show ?thesis
    using l s Stop_facts [OF s(1), of "pe_bridge pe 0"]
    by (simp add: startup_def interrupt_def initial_process_def)
qed

text \<open>C40. Hang-ups pile servers up. When all servers start, \<open>n\<close> hang-ups leave \<open>n\<close> servers running at the same time, and
  the server that the program's variable names stopped. A later interrupt stops none of them: the process ends
  with its connections open.\<close>

theorem hang_ups_pile_up:
  assumes "\<And>k. fst (launch pe k) = Ok ()"
    and "p = run pe (Startup # replicate n HangUp) initial_process"
  shows "pr_status p = Alive \<and> length (pr_hidden p) = n \<and> (\<forall>b\<in>set (pr_hidden p). br_running b)
    \<and> (n \<noteq> 0 \<longrightarrow> (\<exists>b. pr_server p = Some b \<and> \<not> br_running b))
    \<and> pr_hidden (run pe [Interrupt] p) = pr_hidden p \<and> pr_status (run pe [Interrupt] p) = Exited"
proof -
  have "pr_status p = Alive \<and> length (pr_hidden p) = n \<and> (\<forall>b\<in>set (pr_hidden p). br_running b)
    \<and> (\<exists>b. pr_server p = Some b \<and> (n \<noteq> 0 \<longrightarrow> \<not> br_running b))"
    unfolding assms(2)
  proof (induction n)
    case 0
    then show ?case using assms(1) [of 0] by (cases "launch pe 0") (simp add: startup_def initial_process_def)
  next
    case (Suc n)
    define q where "q = run pe (Startup # replicate n HangUp) initial_process"
    have e: "run pe (Startup # replicate (Suc n) HangUp) initial_process = run pe [HangUp] q"
      using run_append [of pe "Startup # replicate n HangUp" "[HangUp]" initial_process]
      by (simp add: q_def replicate_append_same del: run.simps)
    obtain b where q: "pr_status q = Alive" "length (pr_hidden q) = n" "\<forall>b\<in>set (pr_hidden q). br_running b"
      "pr_server q = Some b" using Suc.IH by (auto simp: q_def simp del: run.simps)
    obtain b' where b': "launch pe (Suc n) = (Ok (), b')" using assms(1) [of "Suc n"] by (cases "launch pe (Suc n)") auto
    show ?case
      unfolding e using q b' launch_running [OF b'] by (auto simp: hangUp_def Stop_stops Let_def)
  qed
  then show ?thesis by (auto simp: interrupt_def)
qed

section \<open>Witnesses\<close>

definition example_text :: string where "example_text = ''a configuration''"

definition example_program :: program_env where
  "example_program =
     \<lparr>pe_loader = \<lparr>ReadFile = (\<lambda>f. if f = ''bridge.conf'' then Inr example_text else Inl ''no such file''),
        conf_Parse = (\<lambda>_. case render False (TStruct BridgeConfig_type) (GStruct (of_BridgeConfig example_bridge_config)) of
           CMap data \<Rightarrow> Inr data | _ \<Rightarrow> Inl (LibError '''')),
        oddFloat = (\<lambda>_. 0)\<rparr>,
      pe_Getenv = (\<lambda>n. if n = ''MQNATS_BRIDGE_CONFIG'' then ''bridge.conf'' else ''''),
      pe_DefaultDiscoverPrefix = ''_STAN.discover'', pe_DefaultMaxPubAcksInflight = 16384,
      pe_bridge = (\<lambda>_. example_be), pe_configFile = ''''\<rparr>"

lemma example_program_file:
  "file_holds (pe_loader example_program) (config_file example_program) example_bridge_config"
  by (simp_all add: file_holds_def config_file_def example_program_def written_bridge_def) (rule exI [of _ False], simp)

lemma example_program_ok:
  "config_file example_program \<noteq> ''''" "in_range KInt (pe_DefaultMaxPubAcksInflight example_program)"
  "BridgeConfig_in_range example_bridge_config"
  by (simp_all add: config_file_def example_program_def in_range_def BridgeConfig_in_range_def
      ConnectorConfig_in_range_def example_bridge_config_def zero_BridgeConfig_def zero_ConnectorConfig_def)

lemma example_launch: "\<exists>b. launch example_program k = (Ok (), b)"
proof -
  obtain b where "Start example_be example_server = (Ok (), b)" by (rule example_started)
  then show ?thesis
    using launch_holds [OF example_program_file example_program_ok(1,3,2), of k]
    by (simp add: example_server_def) (simp add: example_program_def)
qed

theorem configured_bridge_lifecycle_witness:
  "\<exists>b. run example_program [Startup] initial_process = \<lparr>pr_server = Some b, pr_hidden = [], pr_status = Alive\<rparr>
     \<and> br_config b = example_bridge_config \<and> length (br_connectors b) = 2"
proof -
  obtain b where b: "Start example_be example_server = (Ok (), b)" by (rule example_started)
  then have "Start (pe_bridge example_program 0) (LoadConfig example_bridge_config NewBridgeServer) = (Ok (), b)"
    by (simp add: example_server_def example_program_def)
  from configured_bridge_lifecycle [OF example_program_file example_program_ok(1,3,2) this] show ?thesis
    by (auto simp: example_bridge_config_def)
qed

theorem hang_ups_pile_up_witness:
  "\<exists>p. p = run example_program [Startup, HangUp, HangUp, Interrupt] initial_process
     \<and> pr_status p = Exited \<and> length (pr_hidden p) = 2 \<and> (\<forall>b\<in>set (pr_hidden p). br_running b)"
proof -
  have "fst (launch example_program k) = Ok ()" for k using example_launch [of k] by auto
  note h = hang_ups_pile_up [OF this refl, of 2]
  have "run example_program [Startup, HangUp, HangUp, Interrupt] initial_process =
      run example_program [Interrupt] (run example_program (Startup # replicate 2 HangUp) initial_process)"
    using run_append [of example_program "[Startup, HangUp, HangUp]" "[Interrupt]" initial_process]
    by (simp add: numeral_2_eq_2 del: run.simps)
  then show ?thesis using h by (simp del: run.simps)
qed

end
