(* ===== verification/Reconnect_Timer.thy ===== *)
theory Reconnect_Timer
  imports Prelude
begin

text \<open>
  The reconnect timer (\<^verbatim>\<open>src/nats-mq/core/reconnecttimer.go\<close>): a goroutine selects between the clock and the
  channel \<^verbatim>\<open>cancel\<close> and sends what it found on an unbuffered channel to the reconnect goroutine, which waits for it.
  \<open>tm_elapsed\<close> and \<open>tm_closed\<close> say that the clock's channel and \<^verbatim>\<open>cancel\<close> are ready; when both are, the runtime chooses. \<open>tm_received\<close>
  is what the reconnect goroutine received.

  The bridge server uses a timer as a thing that waits until it fires or is cancelled, once. That view is the
  type \<open>one_shot\<close>, and every step of the timer is a step of it or leaves it as it is.
\<close>

section \<open>The timer\<close>

datatype goroutine = Selecting | Sending bool | Finished

record reconnectTimer =
  tm_closed :: bool
  tm_elapsed :: bool
  tm_goroutine :: "goroutine option"
  tm_received :: "bool option"

definition newReconnectTimer :: reconnectTimer where
  "newReconnectTimer = \<lparr>tm_closed = False, tm_elapsed = False, tm_goroutine = None, tm_received = None\<rparr>"

definition After :: "reconnectTimer \<Rightarrow> reconnectTimer" where
  "After c = c\<lparr>tm_goroutine := Some Selecting\<rparr>"

text \<open>Closing a channel twice panics.\<close>

definition Cancel :: "reconnectTimer \<Rightarrow> reconnectTimer outcome" where
  "Cancel c = (if tm_closed c then Panic else Ok (c\<lparr>tm_closed := True\<rparr>))"

inductive timer_step :: "reconnectTimer \<Rightarrow> reconnectTimer \<Rightarrow> bool" where
  elapse: "timer_step c (c\<lparr>tm_elapsed := True\<rparr>)"
| cancelled: "Cancel c = Ok c' \<Longrightarrow> timer_step c c'"
| select_time: "tm_goroutine c = Some Selecting \<Longrightarrow> tm_elapsed c \<Longrightarrow>
    timer_step c (c\<lparr>tm_goroutine := Some (Sending True)\<rparr>)"
| select_cancel: "tm_goroutine c = Some Selecting \<Longrightarrow> tm_closed c \<Longrightarrow>
    timer_step c (c\<lparr>tm_goroutine := Some (Sending False)\<rparr>)"
| receive: "tm_goroutine c = Some (Sending v) \<Longrightarrow>
    timer_step c (c\<lparr>tm_goroutine := Some Finished, tm_received := Some v\<rparr>)"

inductive_cases timer_stepE: "timer_step c c'"

abbreviation timer_run :: "reconnectTimer \<Rightarrow> bool" where
  "timer_run \<equiv> timer_step\<^sup>*\<^sup>* (After newReconnectTimer)"

section \<open>The timer as the server sees it\<close>

datatype one_shot = Waiting | Fired | Cancelled

inductive one_shot_step :: "one_shot \<Rightarrow> one_shot \<Rightarrow> bool" where
  fire: "one_shot_step Waiting Fired"
| stop: "one_shot_step Waiting Cancelled"

definition shot :: "bool \<Rightarrow> one_shot" where
  "shot v = (if v then Fired else Cancelled)"

definition view :: "reconnectTimer \<Rightarrow> one_shot" where
  "view c =
     (case tm_goroutine c of
        Some (Sending v) \<Rightarrow> shot v
      | Some Finished \<Rightarrow> (case tm_received c of Some v \<Rightarrow> shot v | None \<Rightarrow> Waiting)
      | _ \<Rightarrow> Waiting)"

text \<open>What holds of every timer that runs.\<close>

definition timer_inv :: "reconnectTimer \<Rightarrow> bool" where
  "timer_inv c \<longleftrightarrow> tm_goroutine c \<noteq> None \<and> (tm_received c \<noteq> None) = (tm_goroutine c = Some Finished)
     \<and> (view c = Fired \<longrightarrow> tm_elapsed c) \<and> (view c = Cancelled \<longrightarrow> tm_closed c)"

lemma timer_inv_step: "timer_step c c' \<Longrightarrow> timer_inv c \<Longrightarrow> timer_inv c'"
  by (auto simp: timer_inv_def view_def shot_def Cancel_def elim!: timer_stepE split: if_splits goroutine.splits option.splits)

lemma timer_inv: "timer_run c \<Longrightarrow> timer_inv c"
proof (induction rule: rtranclp_induct)
  case base
  then show ?case by (simp add: timer_inv_def view_def After_def newReconnectTimer_def)
next
  case (step c c')
  then show ?case by (blast intro: timer_inv_step)
qed

lemma view_step: "timer_step c c' \<Longrightarrow> timer_inv c \<Longrightarrow> view c' = view c \<or> one_shot_step (view c) (view c')"
  by (auto simp: timer_inv_def view_def shot_def Cancel_def one_shot_step.simps elim!: timer_stepE
      split: if_splits goroutine.splits option.splits)

lemma view_final: "timer_step\<^sup>*\<^sup>* c c' \<Longrightarrow> timer_inv c \<Longrightarrow> view c \<noteq> Waiting \<Longrightarrow> view c' = view c \<and> timer_inv c'"
proof (induction rule: rtranclp_induct)
  case (step d e)
  then show ?case using view_step [of d e] timer_inv_step [of d e] by (auto simp: one_shot_step.simps)
qed simp

lemma view_received: "timer_inv c \<Longrightarrow> tm_received c = Some v \<Longrightarrow> view c = shot v"
  by (auto simp: timer_inv_def view_def)

lemma timer_delivers:
  assumes "timer_inv c" "tm_elapsed c \<or> tm_closed c"
  shows "\<exists>c' v. timer_step\<^sup>*\<^sup>* c c' \<and> tm_received c' = Some v"
proof -
  have send: "\<exists>c' v. timer_step\<^sup>*\<^sup>* d c' \<and> tm_received c' = Some v" if "tm_goroutine d = Some (Sending v)" for d v
    using r_into_rtranclp [of timer_step, OF timer_step.receive [OF that]]
    by (intro exI [of _ "d\<lparr>tm_goroutine := Some Finished, tm_received := Some v\<rparr>"] exI [of _ v]) simp
  consider (sel) "tm_goroutine c = Some Selecting" | (snd) v where "tm_goroutine c = Some (Sending v)"
    | (fin) "tm_goroutine c = Some Finished"
    using assms(1) by (metis goroutine.exhaust not_None_eq timer_inv_def)
  then show ?thesis
  proof cases
    case sel
    obtain d v where d: "timer_step c d" "tm_goroutine d = Some (Sending v)"
      using assms(2) timer_step.select_time [OF sel] timer_step.select_cancel [OF sel] by fastforce
    then show ?thesis using send [OF d(2)] by (meson converse_rtranclp_into_rtranclp)
  next
    case snd
    then show ?thesis by (rule send)
  next
    case fin
    then show ?thesis using assms(1) by (auto simp: timer_inv_def)
  qed
qed

section \<open>Properties\<close>

text \<open>C23. The reconnect timer does what the server takes it for. Every step of a running timer is a step of the one-shot view or
  leaves it; the reconnect goroutine receives true only after the time has passed and false only after a cancel, it
  receives one value and never another, and once the time has passed or the timer is cancelled it can always receive one.\<close>

theorem reconnect_timer_refines_one_shot:
  assumes "timer_run c"
  shows "(\<forall>c'. timer_step c c' \<longrightarrow> view c' = view c \<or> one_shot_step (view c) (view c'))
    \<and> (tm_received c = Some True \<longrightarrow> tm_elapsed c) \<and> (tm_received c = Some False \<longrightarrow> tm_closed c)
    \<and> (\<forall>c' v w. tm_received c = Some v \<and> timer_step\<^sup>*\<^sup>* c c' \<and> tm_received c' = Some w \<longrightarrow> w = v)
    \<and> (tm_elapsed c \<or> tm_closed c \<longrightarrow> (\<exists>c' v. timer_step\<^sup>*\<^sup>* c c' \<and> tm_received c' = Some v))"
proof (intro conjI allI impI)
  note inv = timer_inv [OF assms]
  show "view c' = view c \<or> one_shot_step (view c) (view c')" if "timer_step c c'" for c'
    using view_step [OF that inv] .
  show "tm_elapsed c" if "tm_received c = Some True"
    using view_received [OF inv that] inv by (simp add: timer_inv_def shot_def)
  show "tm_closed c" if "tm_received c = Some False"
    using view_received [OF inv that] inv by (simp add: timer_inv_def shot_def)
  show "w = v" if "tm_received c = Some v \<and> timer_step\<^sup>*\<^sup>* c c' \<and> tm_received c' = Some w" for c' v w
  proof -
    have v: "view c = shot v" using view_received [OF inv] that by blast
    then have "view c' = shot v" "timer_inv c'" using view_final [of c c'] inv that by (auto simp: shot_def split: if_splits)
    then show ?thesis using view_received [of c' w] that by (auto simp: shot_def split: if_splits)
  qed
  show "\<exists>c' v. timer_step\<^sup>*\<^sup>* c c' \<and> tm_received c' = Some v" if "tm_elapsed c \<or> tm_closed c"
    by (rule timer_delivers [OF inv that])
qed

theorem reconnect_timer_refines_one_shot_witness:
  "\<exists>c c' v. timer_run c \<and> tm_closed c \<and> timer_step\<^sup>*\<^sup>* c c' \<and> tm_received c' = Some v"
proof -
  have "timer_step (After newReconnectTimer) ((After newReconnectTimer)\<lparr>tm_closed := True\<rparr>)"
    by (rule timer_step.cancelled) (simp add: Cancel_def After_def newReconnectTimer_def)
  then have r: "timer_run ((After newReconnectTimer)\<lparr>tm_closed := True\<rparr>)" by (rule r_into_rtranclp)
  with reconnect_timer_refines_one_shot [OF r] show ?thesis by fastforce
qed

end
