(* ===== verification/Spec2Isabelle.thy ===== *)
theory Spec2Isabelle
  imports Clients Performance Program Reconnect_Timer
begin

text \<open>
  The NATS-MQ bridge (\<^verbatim>\<open>src/\<close>, written in Go) forwards messages between IBM MQ queues and topics and NATS subjects
  and NATS streaming channels. This development models the bridge program and proves what makes it correct.

  \<^bold>\<open>The parts and how they interact.\<close> The program (\<^verbatim>\<open>main.go\<close>) loads a configuration, creates a bridge server and
  waits for signals. The server (\<^verbatim>\<open>core/bridge.go\<close>) connects to NATS and NATS streaming, creates one connector for each entry
  of the configuration, starts them, and restarts connectors that fail. A connector (\<^verbatim>\<open>core/connector.go\<close> and one
  file for each of the eight types) owns a connection to a queue manager and moves messages in one direction; MQ calls
  it back or it polls, NATS and NATS streaming call it back. A message is converted on the way (\<^verbatim>\<open>core/msgconv.go\<close>) from
  or to the bridge message (\<^verbatim>\<open>message/message.go\<close>). Statistics (\<^verbatim>\<open>core/stats.go\<close>, \<^verbatim>\<open>core/histogram.go\<close>) are shown by an HTTP server
  (\<^verbatim>\<open>core/monitoring.go\<close>).

  \<^bold>\<open>Theories.\<close>
    \<^item> \<open>Prelude\<close>: Go types, the outcomes of a call (value, error, panic), lists of bytes. \<open>Go_Float\<close>, \<open>Go_Text\<close>, \<open>Go_Number\<close>: what the
      bridge uses of Go's floats, \<^verbatim>\<open>strconv\<close>, \<^verbatim>\<open>net\<close> and \<^verbatim>\<open>strings\<close>.
    \<^item> \<open>Message\<close> (\<^verbatim>\<open>message.go\<close>): the bridge message as a record, its properties as a map from names to tagged
      values; setting, reading in every type, deleting, encoding. Shown: properties read back as they were set, before and
      after the codec; the tag invariant; exactly when a typed read panics. The locale \<open>property_store\<close> is the interface the
      conversion uses.
    \<^item> \<open>MsgConv\<close> (\<^verbatim>\<open>msgconv.go\<close>): header mapping, property copying, reply addresses, both conversions. Shown: the round trip
      of a message from MQ to NATS and back, which header fields survive, what excluded headers mean, and the crafted
      message that panics.
    \<^item> \<open>Histogram\<close>, \<open>Stats\<close> (\<^verbatim>\<open>histogram.go\<close>, \<^verbatim>\<open>stats.go\<close>): over a rounding function, instantiated by \<^verbatim>\<open>float64\<close> and by
      exact arithmetic (locale \<open>rounding\<close>). Shown: the number of bins is bounded, samples are counted, the mean and the
      moving average are those of all samples in exact arithmetic, quantiles are ordered.
    \<^item> \<open>Connector\<close>, \<open>Connectors\<close> (\<^verbatim>\<open>connect.go\<close>, \<^verbatim>\<open>connector.go\<close>, \<^verbatim>\<open>queue2nats.go\<close> and the seven others): the base connector, the eight
      types with start, shutdown and check, and the interface as a datatype. Every library call is recorded; an
      environment answers it and may fail at any point. Shown, through the locales \<open>connector\<close> and
      \<open>releasing_connector\<close>: rounds of start and shutdown release every resource, apart from three named leaks.
    \<^item> \<open>Pump\<close> (the callbacks and the polling loop of \<^verbatim>\<open>connector.go\<close>): one function for each message path. Shown, through the
      locales \<open>pump\<close> and \<open>safe_pump\<close>: MQ messages are committed only when published and backed out otherwise, streaming messages
      are acknowledged exactly when put, the counters agree, no path crashes or hangs on fit messages; polling does what
      callbacks do.
    \<^item> \<open>Conf\<close>, \<open>Conf_Parse\<close>, \<open>Conf_Load\<close> (\<^verbatim>\<open>conf/\<close>): the configuration structs, the reflective loader over types and values
      of Go, and its theorems: types are kept, written configurations are read back, strict and lenient mode. The locale
      \<open>config_loader\<close> is what the program relies on.
    \<^item> \<open>Bridge_State\<close>, \<open>Monitoring\<close>, \<open>Bridge\<close> (\<^verbatim>\<open>bridge.go\<close>, \<^verbatim>\<open>handlers.go\<close>, \<^verbatim>\<open>reconnecttimer.go\<close>, \<^verbatim>\<open>monitoring.go\<close>): the state of the server, creation
      of connectors, request and reply, start and stop, HTTP handlers, and the relation \<open>sys_step\<close> in which connector errors,
      lost connections, timers and stopping interleave. Shown: no connector is forgotten, the bridge recovers, stopping
      refines the function \<open>Stop\<close>; and two races that the code has. \<open>Reconnect_Timer\<close>: the channels of a timer refine the one-shot
      timer that \<open>Bridge\<close> works with.
    \<^item> \<open>Program\<close> (\<^verbatim>\<open>main.go\<close>): the process and its signals. Shown: the bridge that runs is the one its file describes; what
      hang-ups do.
    \<^item> \<open>Clients\<close> (\<^verbatim>\<open>message/examples\<close>, \<^verbatim>\<open>message/interchange\<close>): the programs that use the message package. Shown: what the sender of the
      example prints the receiver prints, through two connectors, two codecs and a queue of MQ, the theorem that puts \<open>Message\<close>,
      \<open>MsgConv\<close> and \<open>Pump\<close> together; the interchange file holds every value of its table.
    \<^item> \<open>Performance\<close> (\<^verbatim>\<open>performance/\<close>): the wait groups, goroutines and callbacks of the benchmarks as a step relation. Shown: no
      message is put before the clock starts, the result is printed only when every message is there, and no interleaving is
      stuck; the receivers (locale \<open>counting\<close>) signal once.

  \<^bold>\<open>Conventions.\<close> Stateful functions take and return records; a function that returns an error returns an \<open>outcome\<close> and the
  state it left. Libraries outside the repository (IBM MQ, NATS, NATS streaming, msgpack, the configuration parser,
  sockets, files) are fields of environment records, so a theorem holds for every behaviour that its hypotheses
  allow. Texts of errors keep the words of the source without the values printed with \<^verbatim>\<open>%v\<close>. Logging has no effect
  in the model.

  \<^bold>\<open>Bounds and loops.\<close> The property loop of \<open>MsgConv\<close> is a \<open>partial_function\<close>, since it runs as long as the queue manager
  reports properties; the theorems prove exactly when it ends. All other loops
  are total functions over lists. The polling loop runs over the list of its turns. The statistics theorems ask for fewer than \<open>2 ^ 53\<close>
  samples, up to where \<^verbatim>\<open>float64\<close> counts exactly.

  \<^bold>\<open>Coarser than the code.\<close> Functions that run under one lock are one step; in \<open>Bridge\<close> the clearing of the reconnect map in \<open>Stop\<close> belongs
  to the step before it. The order in which Go visits a map is a function \<open>be_order\<close> of the map. In \<open>Program\<close> a signal is handled after the start
  of the server or before it, not during it. The callbacks of one connector run one after the other, as its lock makes them.

  \<^bold>\<open>Not modelled.\<close> \<^verbatim>\<open>core/test_utils.go\<close> (support of the tests, which starts containers, servers and clients), in \<^verbatim>\<open>performance/\<close> the calls that
  prepare connections (one step that may fail) and the printing of rates, the methods of \<^verbatim>\<open>logging/nats.go\<close> (they hand their arguments
  on), the Java helpers, deployment files and scripts. None of them holds state of the bridge or decides what it does with a message.
\<close>

end
